(* ===== verification/Prelude.thy ===== *)
theory Prelude
  imports Complex_Main "HOL-Library.Word" "HOL-Library.AList"
begin

text \<open>
  What the whole development shares: the parts of the Python language and of its standard
  library the service uses (strings, dictionaries, floats, JSON values), as executable
  definitions, and the generic lemmas about them.

  \<^item> A Python \<open>str\<close> that is an identifier, a configuration value, a header or a message
    is a HOL \<open>string\<close> (its code points are below 256). Text to be spoken is a list of
    code points (\<open>utext\<close>), because the chunker looks at U+2026.
  \<^item> A Python \<open>dict\<close> is an association list with distinct keys, in insertion order:
    \<open>map_of\<close> reads it, \<open>AList.update\<close> is \<open>d[k] = v\<close> (in place, or at the end),
    \<open>AList.delete\<close> is \<open>del d[k]\<close>.
  \<^item> A Python \<open>float\<close> is an exact rational, an infinity or NaN; the program only compares
    and copies floats, and the rounding of a literal to the nearest double is left out.
  \<^item> An exception is the left injection of a sum.
\<close>

named_theorems py_simps \<open>evaluation of the standard-library functions\<close>

type_synonym utext = "nat list"
type_synonym byte = "8 word"
type_synonym bytes = "8 word list"
type_synonym environ = "(string \<times> string) list"

subsection \<open>Whitespace, stripping, case\<close>

text \<open>\<open>str.isspace\<close> on one code point; the regular expression class \<open>\\s\<close> is the same.\<close>

definition space_cp :: "nat \<Rightarrow> bool" where
  "space_cp n \<longleftrightarrow> (9 \<le> n \<and> n \<le> 13) \<or> (28 \<le> n \<and> n \<le> 32) \<or> n = 133 \<or> n = 160 \<or> n = 5760 \<or>
     (8192 \<le> n \<and> n \<le> 8202) \<or> n = 8232 \<or> n = 8233 \<or> n = 8239 \<or> n = 8287 \<or> n = 12288"

definition is_space :: "char \<Rightarrow> bool" where
  "is_space c = space_cp (of_char c)"

definition strip_by :: "('a \<Rightarrow> bool) \<Rightarrow> 'a list \<Rightarrow> 'a list" where
  "strip_by P xs = rev (dropWhile P (rev (dropWhile P xs)))"

definition strip :: "string \<Rightarrow> string" where
  "strip = strip_by is_space"

definition tstrip :: "utext \<Rightarrow> utext" where
  "tstrip = strip_by space_cp"

definition lower_cp :: "nat \<Rightarrow> nat" where
  "lower_cp n = (if (65 \<le> n \<and> n \<le> 90) \<or> (192 \<le> n \<and> n \<le> 222 \<and> n \<noteq> 215) then n + 32 else n)"

definition lower :: "string \<Rightarrow> string" where
  "lower = map (\<lambda>c. char_of (lower_cp (of_char c)))"

lemma lower_id: "\<forall>c\<in>set s. lower_cp (of_char c) = of_char c \<Longrightarrow> lower s = s"
  unfolding lower_def by (rule map_idI) simp

lemma set_strip_by: "set (strip_by P xs) \<subseteq> set xs"
  unfolding strip_by_def by (auto dest!: set_dropWhileD)

lemma strip_by_Nil_iff: "strip_by P xs = [] \<longleftrightarrow> (\<forall>x\<in>set xs. P x)"
proof -
  have "strip_by P xs = [] \<longleftrightarrow> (\<forall>x \<in> set (dropWhile P xs). P x)"
    by (simp add: strip_by_def)
  also have "\<dots> \<longleftrightarrow> dropWhile P xs = []"
    by (metis dropWhile_eq_Nil_conv hd_dropWhile list.set_sel(1) set_dropWhileD)
  also have "\<dots> \<longleftrightarrow> (\<forall>x\<in>set xs. P x)" by simp
  finally show ?thesis .
qed

lemma strip_by_Nil [simp]: "strip_by P [] = []"
  by (simp add: strip_by_def)

lemma strip_by_hd: "strip_by P xs \<noteq> [] \<Longrightarrow> \<not> P (hd (strip_by P xs))"
proof -
  assume ne: "strip_by P xs \<noteq> []"
  let ?ys = "dropWhile P xs"
  have "?ys \<noteq> []"
  proof
    assume "?ys = []"
    with ne show False unfolding strip_by_def by (metis dropWhile.simps(1) rev.simps(1))
  qed
  then have h: "\<not> P (hd ?ys)" by (rule hd_dropWhile)
  obtain us where us: "rev ?ys = us @ dropWhile P (rev ?ys)"
    by (metis takeWhile_dropWhile_id)
  then have "?ys = strip_by P xs @ rev us"
    by (metis rev_append rev_rev_ident strip_by_def)
  with ne h show ?thesis by (metis hd_append2)
qed

lemma strip_by_last: "strip_by P xs \<noteq> [] \<Longrightarrow> \<not> P (last (strip_by P xs))"
  unfolding strip_by_def by (metis hd_dropWhile last_rev rev_is_Nil_conv)

lemma strip_by_id:
  assumes "xs \<noteq> []" "\<not> P (hd xs)" "\<not> P (last xs)"
  shows "strip_by P xs = xs"
proof -
  have 1: "dropWhile P xs = xs" using assms(1,2) by (cases xs) auto
  have "rev xs \<noteq> []" "\<not> P (hd (rev xs))" using assms by (simp_all add: hd_rev)
  then have "dropWhile P (rev xs) = rev xs" by (cases "rev xs") auto
  with 1 show ?thesis by (simp add: strip_by_def)
qed

lemma strip_by_idem [simp]: "strip_by P (strip_by P xs) = strip_by P xs"
proof (cases "strip_by P xs = []")
  case False
  then show ?thesis by (metis strip_by_id strip_by_hd strip_by_last)
qed simp

lemma length_strip_by: "length (strip_by P xs) \<le> length xs"
  unfolding strip_by_def by (metis length_dropWhile_le length_rev order_trans)

lemma filter_dropWhile: "filter (\<lambda>x. \<not> P x) (dropWhile P xs) = filter (\<lambda>x. \<not> P x) xs"
  by (induction xs) auto

lemma filter_strip_by: "filter (\<lambda>x. \<not> P x) (strip_by P xs) = filter (\<lambda>x. \<not> P x) xs"
  unfolding strip_by_def
  by (simp add: rev_filter [symmetric] filter_dropWhile)

subsection \<open>Splitting and joining\<close>

text \<open>\<open>s.split(sep)\<close> for a one-character separator, \<open>s.split(sep, 1)\<close>, \<open>sep.join\<close>.\<close>

fun split_on :: "'a \<Rightarrow> 'a list \<Rightarrow> 'a list list" where
  "split_on d [] = [[]]"
| "split_on d (c # cs) =
     (if c = d then [] # split_on d cs
      else (case split_on d cs of [] \<Rightarrow> [[c]] | w # ws \<Rightarrow> (c # w) # ws))"

definition split1 :: "'a \<Rightarrow> 'a list \<Rightarrow> 'a list \<times> 'a list" where
  "split1 d s = (takeWhile (\<lambda>c. c \<noteq> d) s, drop 1 (dropWhile (\<lambda>c. c \<noteq> d) s))"

fun join :: "'a list \<Rightarrow> 'a list list \<Rightarrow> 'a list" where
  "join sep [] = []"
| "join sep [x] = x"
| "join sep (x # y # ys) = x @ sep @ join sep (y # ys)"

definition starts_with :: "'a list \<Rightarrow> 'a list \<Rightarrow> bool" where
  "starts_with p s = (take (length p) s = p)"

lemma split_on_ne [simp]: "split_on d s \<noteq> []"
  by (cases s) (auto split: list.splits)

lemma join_Cons: "xs \<noteq> [] \<Longrightarrow> join sep (x # xs) = x @ sep @ join sep xs"
  by (cases xs) auto

lemma join_snoc: "join sep (xs @ [x]) = (if xs = [] then x else join sep xs @ sep @ x)"
  by (induction xs) (auto simp: join_Cons)

lemma join_split_on: "join [d] (split_on d s) = s"
proof (induction s)
  case (Cons c s)
  then show ?case
    by (auto simp: join_Cons split: list.splits) (metis append_Cons join.simps(2) join_Cons)
qed simp

lemma split_on_no_sep: "w \<in> set (split_on d s) \<Longrightarrow> d \<notin> set w"
  by (induction s arbitrary: w) (auto split: list.splits if_splits)

lemma filter_join:
  "filter P sep = [] \<Longrightarrow> filter P (join sep xs) = concat (map (filter P) xs)"
  by (induction sep xs rule: join.induct) auto

subsection \<open>Decimal numerals\<close>

fun digit_char :: "nat \<Rightarrow> char" where
  "digit_char d = char_of (48 + d)"

fun nat_str :: "nat \<Rightarrow> string" where
  "nat_str n = (if n < 10 then [digit_char n] else nat_str (n div 10) @ [digit_char (n mod 10)])"

declare nat_str.simps [simp del]

definition int_str :: "int \<Rightarrow> string" where
  "int_str i = (if i < 0 then CHR ''-'' # nat_str (nat (- i)) else nat_str (nat i))"

definition is_digit :: "char \<Rightarrow> bool" where
  "is_digit c = (48 \<le> (of_char c :: nat) \<and> (of_char c :: nat) \<le> 57)"

definition digit_val :: "char \<Rightarrow> nat" where
  "digit_val c = of_char c - 48"

definition digits_val :: "string \<Rightarrow> nat" where
  "digits_val = foldl (\<lambda>n c. 10 * n + digit_val c) 0"

lemma digits_val_snoc: "digits_val (s @ [c]) = 10 * digits_val s + digit_val c"
  by (simp add: digits_val_def)

lemma of_char_digit_char: "d < 10 \<Longrightarrow> of_char (digit_char d) = 48 + d"
  by simp

lemma digits_val_nat_str: "digits_val (nat_str n) = n"
proof (induction n rule: nat_str.induct)
  case (1 n)
  show ?case
  proof (cases "n < 10")
    case True
    then show ?thesis
      by (simp add: nat_str.simps [of n] digits_val_def digit_val_def of_char_digit_char del: digit_char.simps)
  next
    case False
    then show ?thesis
      by (simp add: nat_str.simps [of n] digits_val_snoc 1 digit_val_def of_char_digit_char del: digit_char.simps)
  qed
qed

lemma digits_nat_str: "\<forall>c \<in> set (nat_str n). is_digit c"
proof (induction n rule: nat_str.induct)
  case (1 n)
  show ?case
  proof (cases "n < 10")
    case True
    then show ?thesis
      by (simp add: nat_str.simps [of n] is_digit_def of_char_digit_char del: digit_char.simps)
  next
    case False
    with 1 have "\<forall>c \<in> set (nat_str (n div 10)). is_digit c" by simp
    with False show ?thesis
      by (simp add: nat_str.simps [of n] is_digit_def of_char_digit_char del: digit_char.simps)
  qed
qed

lemma nat_str_ne [simp]: "nat_str n \<noteq> []"
  by (subst nat_str.simps) simp

lemma nat_str_inj: "nat_str m = nat_str n \<Longrightarrow> m = n"
  by (metis digits_val_nat_str)

text \<open>
  \<open>int(s)\<close>: surrounding whitespace, an optional sign, then digit groups joined by single
  underscores; \<open>None\<close> is \<open>ValueError\<close>.
\<close>

definition parse_digits :: "string \<Rightarrow> nat option" where
  "parse_digits s = (let gs = split_on (CHR ''_'') s in
     if (\<forall>g \<in> set gs. g \<noteq> [] \<and> (\<forall>c \<in> set g. is_digit c)) then Some (digits_val (concat gs)) else None)"

definition parse_int :: "string \<Rightarrow> int option" where
  "parse_int raw = (case strip raw of
       [] \<Rightarrow> None
     | c # cs \<Rightarrow>
         if c = CHR ''-'' then map_option (\<lambda>n. - int n) (parse_digits cs)
         else if c = CHR ''+'' then map_option int (parse_digits cs)
         else map_option int (parse_digits (c # cs)))"

text \<open>A bytes literal.\<close>

definition ascii :: "string \<Rightarrow> bytes" where
  "ascii = map of_char"

subsection \<open>Floats\<close>

datatype pyfloat = Fin rat | PInf | NInf | NaN

fun flt :: "pyfloat \<Rightarrow> pyfloat \<Rightarrow> bool" where
  "flt (Fin a) (Fin b) = (a < b)"
| "flt NInf (Fin b) = True"
| "flt NInf PInf = True"
| "flt (Fin a) PInf = True"
| "flt _ _ = False"

definition feq :: "pyfloat \<Rightarrow> pyfloat \<Rightarrow> bool" where
  "feq a b = (a = b \<and> a \<noteq> NaN)"

definition fle :: "pyfloat \<Rightarrow> pyfloat \<Rightarrow> bool" where
  "fle a b = (flt a b \<or> feq a b)"

lemma fle_Fin [simp]: "fle (Fin a) (Fin b) = (a \<le> b)"
  by (auto simp: fle_def feq_def)

lemma flt_NaN [simp]: "\<not> flt NaN x" "\<not> flt x NaN"
  by (cases x; simp)+

lemma fle_NaN [simp]: "\<not> fle NaN x" "\<not> fle x NaN"
  by (auto simp: fle_def feq_def)

lemma fle_bounded_Fin: "fle (Fin a) x \<Longrightarrow> fle x (Fin b) \<Longrightarrow> \<exists>q. x = Fin q \<and> a \<le> q \<and> q \<le> b"
  by (cases x) (auto simp: fle_def feq_def)

lemma flt_fle_bounded_Fin: "flt (Fin a) x \<Longrightarrow> fle x (Fin b) \<Longrightarrow> \<exists>q. x = Fin q \<and> a < q \<and> q \<le> b"
  by (cases x) (auto simp: fle_def feq_def)

text \<open>
  \<open>float(s)\<close>: \<open>inf\<close>, \<open>infinity\<close>, \<open>nan\<close> in any case, or a decimal numeral with an
  optional fraction and exponent.
\<close>

definition parse_opt_digits :: "string \<Rightarrow> nat option" where
  "parse_opt_digits s = (if s = [] then Some 0 else parse_digits s)"

definition digit_count :: "string \<Rightarrow> nat" where
  "digit_count s = length (filter is_digit s)"

definition pow10 :: "int \<Rightarrow> rat" where
  "pow10 e = (if 0 \<le> e then 10 ^ nat e else 1 / 10 ^ nat (- e))"

definition parse_mantissa :: "string \<Rightarrow> rat option" where
  "parse_mantissa s =
     (let ip = takeWhile (\<lambda>c. c \<noteq> CHR ''.'') s; fp = snd (split1 (CHR ''.'') s) in
      if ip = [] \<and> fp = [] then None
      else case parse_opt_digits ip of None \<Rightarrow> None
      | Some a \<Rightarrow> (case parse_opt_digits fp of None \<Rightarrow> None
        | Some b \<Rightarrow> Some (of_nat a + of_nat b * pow10 (- int (digit_count fp)))))"

definition parse_exponent :: "string \<Rightarrow> int option" where
  "parse_exponent s = (case s of [] \<Rightarrow> None
     | c # cs \<Rightarrow> if c = CHR ''-'' then map_option (\<lambda>n. - int n) (parse_digits cs)
                else if c = CHR ''+'' then map_option int (parse_digits cs)
                else map_option int (parse_digits s))"

definition parse_unsigned_float :: "string \<Rightarrow> pyfloat option" where
  "parse_unsigned_float s =
     (if s = ''inf'' \<or> s = ''infinity'' then Some PInf
      else if s = ''nan'' then Some NaN
      else if CHR ''e'' \<in> set s then
        (case (parse_mantissa (fst (split1 (CHR ''e'') s)), parse_exponent (snd (split1 (CHR ''e'') s))) of
           (Some m, Some e) \<Rightarrow> Some (Fin (m * pow10 e))
         | _ \<Rightarrow> None)
      else map_option Fin (parse_mantissa s))"

fun fneg :: "pyfloat \<Rightarrow> pyfloat" where
  "fneg (Fin q) = Fin (- q)"
| "fneg PInf = NInf"
| "fneg NInf = PInf"
| "fneg NaN = NaN"

definition parse_float :: "string \<Rightarrow> pyfloat option" where
  "parse_float raw = (case lower (strip raw) of
       [] \<Rightarrow> None
     | c # cs \<Rightarrow>
         if c = CHR ''-'' then map_option fneg (parse_unsigned_float cs)
         else if c = CHR ''+'' then parse_unsigned_float cs
         else parse_unsigned_float (c # cs))"

subsection \<open>JSON values\<close>

text \<open>
  What \<open>json.loads\<close> returns, as a value. An object keeps its keys in the order of the
  document. The text of a document is not modelled: a file is either no JSON text or its value.
\<close>

datatype json =
    JNull
  | JBool bool
  | JInt int
  | JFloat pyfloat
  | JStr string
  | JList "json list"
  | JObj "(string \<times> json) list"

fun json_is_obj :: "json \<Rightarrow> bool" where
  "json_is_obj (JObj _) = True"
| "json_is_obj _ = False"

text \<open>\<open>isinstance(v, (int, float))\<close> and \<open>float(v)\<close> after it: a \<open>bool\<close> is an \<open>int\<close>.\<close>

fun json_number :: "json \<Rightarrow> pyfloat option" where
  "json_number (JInt i) = Some (Fin (of_int i))"
| "json_number (JFloat f) = Some f"
| "json_number (JBool b) = Some (Fin (if b then 1 else 0))"
| "json_number _ = None"

fun json_int :: "json \<Rightarrow> int option" where
  "json_int (JInt i) = Some i"
| "json_int (JBool b) = Some (if b then 1 else 0)"
| "json_int _ = None"

fun json_str :: "json \<Rightarrow> string option" where
  "json_str (JStr s) = Some s"
| "json_str _ = None"

text \<open>\<open>d.get(k, default)\<close>.\<close>

definition get_default :: "('k \<times> 'v) list \<Rightarrow> 'k \<Rightarrow> 'v \<Rightarrow> 'v" where
  "get_default d k v = (case map_of d k of None \<Rightarrow> v | Some x \<Rightarrow> x)"

subsection \<open>repr of a string\<close>

definition hex_digit :: "nat \<Rightarrow> char" where
  "hex_digit d = (if d < 10 then char_of (48 + d) else char_of (87 + d))"

definition printable_cp :: "nat \<Rightarrow> bool" where
  "printable_cp n = ((32 \<le> n \<and> n \<le> 126) \<or> (161 \<le> n \<and> n \<noteq> 173))"

definition repr_char :: "char \<Rightarrow> char \<Rightarrow> string" where
  "repr_char q c =
     (if c = q then [CHR 0x5C, q]
      else if c = CHR 0x5C then [CHR 0x5C, CHR 0x5C]
      else if c = CHR 0x0A then [CHR 0x5C, CHR ''n'']
      else if c = CHR 0x0D then [CHR 0x5C, CHR ''r'']
      else if c = CHR 0x09 then [CHR 0x5C, CHR ''t'']
      else if printable_cp (of_char c) then [c]
      else [CHR 0x5C, CHR ''x'', hex_digit (of_char c div 16), hex_digit (of_char c mod 16)])"

definition repr_str :: "string \<Rightarrow> string" where
  "repr_str s = (let q = (if CHR 0x27 \<in> set s \<and> CHR 0x22 \<notin> set s then CHR 0x22 else CHR 0x27)
     in [q] @ concat (map (repr_char q) s) @ [q])"

text \<open>\<open>'{s}'\<close> of an f-string.\<close>

definition quoted :: "string \<Rightarrow> string" where
  "quoted s = [CHR 0x27] @ s @ [CHR 0x27]"

definition repr_str_list :: "string list \<Rightarrow> string" where
  "repr_str_list xs = ''['' @ join '', '' (map repr_str xs) @ '']''"

subsection \<open>Calendar\<close>

definition leap :: "nat \<Rightarrow> bool" where
  "leap y = (y mod 4 = 0 \<and> (y mod 100 \<noteq> 0 \<or> y mod 400 = 0))"

definition days_in_month :: "nat \<Rightarrow> nat \<Rightarrow> nat" where
  "days_in_month y m =
     (if m = 2 then (if leap y then 29 else 28)
      else if m = 4 \<or> m = 6 \<or> m = 9 \<or> m = 11 then 30 else 31)"

text \<open>Whether \<open>datetime.date(y, m, d)\<close> succeeds.\<close>

definition valid_date :: "nat \<Rightarrow> nat \<Rightarrow> nat \<Rightarrow> bool" where
  "valid_date y m d = (1 \<le> y \<and> y \<le> 9999 \<and> 1 \<le> m \<and> m \<le> 12 \<and> 1 \<le> d \<and> d \<le> days_in_month y m)"

subsection \<open>Dictionaries as association lists\<close>

lemma alist_update_map_of [simp]: "map_of (AList.update k v al) = (map_of al)(k \<mapsto> v)"
  by (rule update_conv')

lemma alist_delete_map_of [simp]: "map_of (AList.delete k al) = (map_of al)(k := None)"
  by (rule delete_conv')

lemma distinct_keys_update: "distinct (map fst al) \<Longrightarrow> distinct (map fst (AList.update k v al))"
  by (rule distinct_update)

lemma distinct_keys_delete: "distinct (map fst al) \<Longrightarrow> distinct (map fst (AList.delete k al))"
  by (rule distinct_delete)

lemma map_of_in_keys: "map_of al k \<noteq> None \<longleftrightarrow> k \<in> fst ` set al"
  by (metis map_of_eq_None_iff)

lemma map_of_NoneD: "map_of al k = None \<Longrightarrow> k \<notin> fst ` set al"
  by (metis map_of_eq_None_iff)

lemma map_of_SomeD': "map_of al k = Some v \<Longrightarrow> k \<in> fst ` set al"
  by (metis map_of_in_keys option.distinct(1))

lemma map_of_map_snd: "map_of (map (\<lambda>(k, v). (k, f v)) al) k = map_option f (map_of al k)"
  by (induction al) auto

lemma map_fst_map_snd [simp]: "map fst (map (\<lambda>(k, v). (k, f v)) al) = map fst al"
  by (induction al) auto

subsection \<open>Sequencing of results\<close>

text \<open>\<open>res_map f xs\<close> is a comprehension whose body may raise: the first exception wins.\<close>

fun res_map :: "('a \<Rightarrow> 'e + 'b) \<Rightarrow> 'a list \<Rightarrow> 'e + 'b list" where
  "res_map f [] = Inr []"
| "res_map f (x # xs) = (case f x of Inl e \<Rightarrow> Inl e
     | Inr y \<Rightarrow> (case res_map f xs of Inl e \<Rightarrow> Inl e | Inr ys \<Rightarrow> Inr (y # ys)))"

lemma res_map_Inr: "res_map f xs = Inr ys \<longleftrightarrow> list_all2 (\<lambda>x y. f x = Inr y) xs ys"
proof (induction xs arbitrary: ys)
  case Nil
  then show ?case by auto
next
  case (Cons x xs)
  show ?case
  proof (cases "res_map f xs")
    case (Inl e)
    with Cons.IH have "\<not> list_all2 (\<lambda>x y. f x = Inr y) xs zs" for zs by auto
    with Inl show ?thesis by (cases ys) (auto split: sum.splits)
  next
    case (Inr zs)
    with Cons.IH have "list_all2 (\<lambda>x y. f x = Inr y) xs ws \<longleftrightarrow> zs = ws" for ws by auto
    with Inr show ?thesis by (cases ys) (auto split: sum.splits)
  qed
qed

lemma res_map_all: "(\<And>x. x \<in> set xs \<Longrightarrow> f x = Inr (g x)) \<Longrightarrow> res_map f xs = Inr (map g xs)"
  by (induction xs) auto

lemma res_map_map: "res_map f (map g xs) = res_map (\<lambda>x. f (g x)) xs"
  by (induction xs) (auto split: sum.split)

lemma res_map_set: "res_map f xs = Inr ys \<Longrightarrow> y \<in> set ys \<Longrightarrow> \<exists>x\<in>set xs. f x = Inr y"
  by (induction xs arbitrary: ys) (auto split: sum.splits)

lemma res_map_length: "res_map f xs = Inr ys \<Longrightarrow> length ys = length xs"
  by (simp add: res_map_Inr list_all2_lengthD)

lemma res_map_nth: "res_map f xs = Inr ys \<Longrightarrow> i < length xs \<Longrightarrow> f (xs ! i) = Inr (ys ! i)"
  by (simp add: res_map_Inr list_all2_conv_all_nth)

lemmas [py_simps] =
  strip_def strip_by_def is_space_def space_cp_def lower_def lower_cp_def
  int_str_def nat_str.simps split1_def starts_with_def get_default_def

subsection \<open>Dictionary displays\<close>

text \<open>\<open>{**d, **new}\<close>, and \<open>d.update(new)\<close>: keys keep their first place, the last value wins.\<close>

definition dict_merge :: "('k \<times> 'v) list \<Rightarrow> ('k \<times> 'v) list \<Rightarrow> ('k \<times> 'v) list" where
  "dict_merge d new = fold (\<lambda>kv. AList.update (fst kv) (snd kv)) new d"

lemma keys_update: "fst ` set (AList.update k v al) = insert k (fst ` set al)"
  by (induction al) auto

lemma keys_dict_merge: "fst ` set (dict_merge d new) = fst ` set d \<union> fst ` set new"
  unfolding dict_merge_def by (induction new arbitrary: d) (auto simp: keys_update)

lemma map_of_dict_merge_old: "k \<notin> fst ` set new \<Longrightarrow> map_of (dict_merge d new) k = map_of d k"
  unfolding dict_merge_def by (induction new arbitrary: d) (auto simp: update_conv')

lemma distinct_dict_merge: "distinct (map fst d) \<Longrightarrow> distinct (map fst (dict_merge d new))"
  unfolding dict_merge_def by (induction new arbitrary: d) (simp_all add: distinct_update)

lemma map_of_dict_merge_distinct: "distinct (map fst new) \<Longrightarrow> map_of (dict_merge d new) k = (map_of d ++ map_of new) k"
  unfolding dict_merge_def
proof (induction new arbitrary: d)
  case (Cons kv new)
  then show ?case
    by (cases kv, cases "k = fst kv") (auto simp: update_conv' map_add_def map_of_eq_None_iff [THEN iffD2] split: option.splits)
qed simp

end
