(* ===== verification/Errors.thy ===== *)
theory Errors
  imports Prelude
begin

text \<open>
  The error taxonomy of \<open>errors.py\<close>: the structured error, the factories, the sub-code
  registry, and the four exception handlers with the dispatch order of \<open>create_app\<close> in
  \<open>main.py\<close>. Python exceptions are the constructors of \<open>py_exc\<close>; every operation of
  the development that can raise returns \<open>py_exc + 'a\<close>.
\<close>

datatype error_category =
  ValidationError | VoiceError | ProviderError | CapacityError | InternalError | ConfigError

fun category_str :: "error_category \<Rightarrow> string" where
  "category_str ValidationError = ''validation_error''"
| "category_str VoiceError = ''voice_error''"
| "category_str ProviderError = ''provider_error''"
| "category_str CapacityError = ''capacity_error''"
| "category_str InternalError = ''internal_error''"
| "category_str ConfigError = ''config_error''"

record openai_error =
  oe_message :: string
  oe_type :: error_category
  oe_code :: string
  oe_param :: "string option"

datatype loc_item = LName string | LIndex int

record validation_item =
  vi_loc :: "loc_item list"
  vi_msg :: "string option"

text \<open>
  \<open>HTTPErr\<close> is \<open>OpenAIHTTPException\<close>, \<open>PlainHTTP\<close> a bare Starlette \<open>HTTPException\<close>,
  \<open>RequestInvalid\<close> FastAPI's \<open>RequestValidationError\<close>; the \<open>Voice\<close> constructors are the
  hierarchy of \<open>voice_store/errors.py\<close>. \<open>Cancelled\<close> and \<open>SysExit\<close> are no subclasses of
  \<open>Exception\<close>, so no \<open>except Exception\<close> clause catches them.
\<close>

datatype py_exc =
    HTTPErr int openai_error
  | PlainHTTP int "string option"
  | RequestInvalid "validation_item list"
  | ValueErr string
  | TypeErr string
  | KeyErr string
  | VoiceIdInvalid string
  | VoiceNotFound string
  | VoiceAlreadyExists string
  | VoiceStoreErr string
  | OSErr string
  | AssertionErr string
  | NotImplementedErr string
  | RuntimeErr string
  | OtherErr string
  | Cancelled string
  | SysExit string

type_synonym 'a res = "py_exc + 'a"

text \<open>Sequencing: the first exception ends the computation.\<close>

fun bindE :: "'a res \<Rightarrow> ('a \<Rightarrow> 'b res) \<Rightarrow> 'b res" where
  "bindE (Inl e) f = Inl e"
| "bindE (Inr x) f = f x"

lemma bindE_Inr_iff: "bindE r f = Inr y \<longleftrightarrow> (\<exists>x. r = Inr x \<and> f x = Inr y)"
  by (cases r) auto

lemma bindE_Inl_iff: "bindE r f = Inl e \<longleftrightarrow> r = Inl e \<or> (\<exists>x. r = Inr x \<and> f x = Inl e)"
  by (cases r) auto

fun is_exception :: "py_exc \<Rightarrow> bool" where
  "is_exception (Cancelled _) = False"
| "is_exception (SysExit _) = False"
| "is_exception _ = True"

text \<open>\<open>str(exc)\<close>: what an f-string writes of an exception.\<close>

fun exc_str :: "py_exc \<Rightarrow> string" where
  "exc_str (HTTPErr st e) = int_str st @ '': '' @ oe_message e"
| "exc_str (PlainHTTP st d) = int_str st @ '': '' @ (case d of None \<Rightarrow> '''' | Some m \<Rightarrow> m)"
| "exc_str (RequestInvalid _) = ''request validation failed''"
| "exc_str (ValueErr m) = m"
| "exc_str (TypeErr m) = m"
| "exc_str (KeyErr m) = repr_str m"
| "exc_str (VoiceIdInvalid m) = m"
| "exc_str (VoiceNotFound m) = m"
| "exc_str (VoiceAlreadyExists m) = m"
| "exc_str (VoiceStoreErr m) = m"
| "exc_str (OSErr m) = m"
| "exc_str (AssertionErr m) = m"
| "exc_str (NotImplementedErr m) = m"
| "exc_str (RuntimeErr m) = m"
| "exc_str (OtherErr m) = m"
| "exc_str (Cancelled m) = m"
| "exc_str (SysExit m) = m"

subsection \<open>The sub-code registry\<close>

fun error_codes :: "error_category \<Rightarrow> string list" where
  "error_codes ValidationError =
     [''invalid_parameter'', ''voice_required'', ''input_too_long'', ''ref_audio_invalid'',
      ''consent_required'', ''voice_id_exists'', ''unknown_provider'', ''unknown_model'',
      ''voice_reference_missing'', ''not_implemented'', ''preset_unknown'']"
| "error_codes VoiceError = [''voice_not_found'', ''voice_blob_missing'']"
| "error_codes ProviderError =
     [''model_load_failed'', ''synthesis_failed'', ''no_viable_provider'',
      ''voice_seed_ingest_failed'', ''voice_store_unavailable'']"
| "error_codes CapacityError = [''queue_full'', ''service_unavailable'', ''timeout'']"
| "error_codes InternalError = [''unexpected_error'']"
| "error_codes ConfigError =
     [''presets_invalid'', ''preset_provider_invalid'', ''presets_unsafe_permissions'']"

definition registered :: "openai_error \<Rightarrow> bool" where
  "registered e = List.member (error_codes (oe_type e)) (oe_code e)"

subsection \<open>Factories\<close>

definition make_err :: "int \<Rightarrow> error_category \<Rightarrow> string \<Rightarrow> string \<Rightarrow> string option \<Rightarrow> py_exc" where
  "make_err st ty code msg param =
     HTTPErr st \<lparr>oe_message = msg, oe_type = ty, oe_code = code, oe_param = param\<rparr>"

definition invalid_request_with :: "string \<Rightarrow> string option \<Rightarrow> string \<Rightarrow> int \<Rightarrow> py_exc" where
  "invalid_request_with msg param code st = make_err st ValidationError code msg param"

text \<open>The defaults \<open>code="invalid_parameter"\<close>, \<open>status_code=400\<close>.\<close>

abbreviation invalid_request_code :: "string \<Rightarrow> string option \<Rightarrow> string \<Rightarrow> py_exc" where
  "invalid_request_code msg param code \<equiv> invalid_request_with msg param code 400"

abbreviation invalid_request :: "string \<Rightarrow> string option \<Rightarrow> py_exc" where
  "invalid_request msg param \<equiv> invalid_request_with msg param ''invalid_parameter'' 400"

definition not_implemented :: "string \<Rightarrow> py_exc" where
  "not_implemented msg = make_err 501 ValidationError ''not_implemented'' msg None"

definition raise_not_implemented :: "string \<Rightarrow> 'a res" where
  "raise_not_implemented endpoint =
     Inl (not_implemented (''Endpoint '' @ quoted endpoint @ '' is not implemented yet''))"

definition queue_full :: "string \<Rightarrow> py_exc" where
  "queue_full msg =
     HTTPErr 429 \<lparr>oe_message = msg, oe_type = CapacityError, oe_code = ''queue_full'', oe_param = None\<rparr>"

definition internal_error :: "string \<Rightarrow> py_exc" where
  "internal_error msg = make_err 500 InternalError ''unexpected_error'' msg None"

definition capacity_error :: "string \<Rightarrow> string \<Rightarrow> int \<Rightarrow> string option \<Rightarrow> py_exc" where
  "capacity_error code msg st param = make_err st CapacityError code msg param"

definition provider_error :: "string \<Rightarrow> string \<Rightarrow> int \<Rightarrow> string option \<Rightarrow> py_exc" where
  "provider_error code msg st param = make_err st ProviderError code msg param"

definition voice_error :: "string \<Rightarrow> string \<Rightarrow> int \<Rightarrow> string option \<Rightarrow> py_exc" where
  "voice_error code msg st param = make_err st VoiceError code msg param"

lemmas factory_defs =
  make_err_def invalid_request_with_def not_implemented_def queue_full_def internal_error_def
  capacity_error_def provider_error_def voice_error_def

subsection \<open>Responses and handlers\<close>

datatype body = JsonBody json | BytesBody bytes | EmptyBody

record response =
  resp_status :: int
  resp_headers :: "(string \<times> string) list"
  resp_body :: body

definition json_opt_str :: "string option \<Rightarrow> json" where
  "json_opt_str x = (case x of None \<Rightarrow> JNull | Some s \<Rightarrow> JStr s)"

definition as_envelope :: "openai_error \<Rightarrow> string \<Rightarrow> json" where
  "as_envelope e rid = JObj [(''error'', JObj
     [(''message'', JStr (oe_message e)),
      (''type'', JStr (category_str (oe_type e))),
      (''param'', json_opt_str (oe_param e)),
      (''code'', JStr (oe_code e)),
      (''request_id'', JStr rid)])]"

definition envelope_response :: "int \<Rightarrow> openai_error \<Rightarrow> string \<Rightarrow> response" where
  "envelope_response st e rid =
     \<lparr>resp_status = st, resp_headers = [(''X-Error-Code'', oe_code e)],
      resp_body = JsonBody (as_envelope e rid)\<rparr>"

definition openai_exception_handler :: "int \<Rightarrow> openai_error \<Rightarrow> string \<Rightarrow> response" where
  "openai_exception_handler st e rid = envelope_response st e rid"

definition generic_internal_message :: string where
  "generic_internal_message = ''An unexpected error occurred.''"

definition http_category :: "int \<Rightarrow> error_category \<times> string" where
  "http_category st =
     (if st = 404 then (ValidationError, ''not_found'')
      else if st = 405 then (ValidationError, ''method_not_allowed'')
      else if st = 502 \<or> st = 503 \<or> st = 504 then (CapacityError, ''service_unavailable'')
      else if st = 400 \<or> st = 422 then (ValidationError, ''invalid_parameter'')
      else (InternalError, ''unexpected_error''))"

definition http_exception_handler :: "int \<Rightarrow> string option \<Rightarrow> string \<Rightarrow> response" where
  "http_exception_handler st detail rid =
     envelope_response st
       \<lparr>oe_message = (case detail of Some d \<Rightarrow> d | None \<Rightarrow> generic_internal_message),
        oe_type = fst (http_category st), oe_code = snd (http_category st), oe_param = None\<rparr> rid"

fun loc_str :: "loc_item \<Rightarrow> string" where
  "loc_str (LName s) = s"
| "loc_str (LIndex i) = int_str i"

fun is_source_prefix :: "loc_item \<Rightarrow> bool" where
  "is_source_prefix (LName s) = List.member [''body'', ''query'', ''path'', ''header''] s"
| "is_source_prefix (LIndex _) = False"

definition loc_param :: "loc_item list \<Rightarrow> string option" where
  "loc_param loc = (let tail = map loc_str (filter (\<lambda>p. \<not> is_source_prefix p) loc)
     in if tail = [] then None else Some (join ''.'' tail))"

definition validation_exception_handler :: "validation_item list \<Rightarrow> string \<Rightarrow> response" where
  "validation_exception_handler errs rid =
     (let dflt = ''Request validation failed'';
          (param, msg) = (case errs of
             [] \<Rightarrow> (None, dflt)
           | first # _ \<Rightarrow>
               (if vi_loc first = [] then None else loc_param (vi_loc first),
                case vi_msg first of None \<Rightarrow> dflt | Some m \<Rightarrow> m))
      in envelope_response 422
           \<lparr>oe_message = msg, oe_type = ValidationError, oe_code = ''invalid_parameter'',
            oe_param = param\<rparr> rid)"

definition unhandled_exception_handler :: "string \<Rightarrow> response" where
  "unhandled_exception_handler rid =
     envelope_response 500
       \<lparr>oe_message = generic_internal_message, oe_type = InternalError,
        oe_code = ''unexpected_error'', oe_param = None\<rparr> rid"

text \<open>
  The handlers \<open>create_app\<close> registers, by the class of the exception. \<open>None\<close>: not an
  \<open>Exception\<close>, so no handler sees it.
\<close>

fun handle_exception :: "py_exc \<Rightarrow> string \<Rightarrow> response option" where
  "handle_exception (HTTPErr st e) rid = Some (openai_exception_handler st e rid)"
| "handle_exception (PlainHTTP st d) rid = Some (http_exception_handler st d rid)"
| "handle_exception (RequestInvalid errs) rid = Some (validation_exception_handler errs rid)"
| "handle_exception (Cancelled _) rid = None"
| "handle_exception (SysExit _) rid = None"
| "handle_exception _ rid = Some (unhandled_exception_handler rid)"

subsection \<open>Properties\<close>

definition is_envelope :: "response \<Rightarrow> string \<Rightarrow> bool" where
  "is_envelope r rid = (\<exists>e. resp_body r = JsonBody (as_envelope e rid) \<and>
     resp_headers r = [(''X-Error-Code'', oe_code e)] \<and> oe_type e \<noteq> ConfigError)"

lemma envelope_response_is_envelope:
  "oe_type e \<noteq> ConfigError \<Longrightarrow> is_envelope (envelope_response st e rid) rid"
  by (auto simp: is_envelope_def envelope_response_def)

text \<open>The category of a bare HTTP status is an HTTP category, never the start-up one.\<close>

lemma http_category_not_config [simp]: "fst (http_category st) \<noteq> ConfigError"
  by (simp add: http_category_def)

lemma as_envelope_inj:
  "as_envelope e rid = as_envelope e' rid' \<longleftrightarrow> e = e' \<and> rid = rid'"
proof -
  have "category_str a = category_str b \<longleftrightarrow> a = b" for a b
    by (cases a; cases b) auto
  moreover have "json_opt_str a = json_opt_str b \<longleftrightarrow> a = b" for a b
    by (auto simp: json_opt_str_def split: option.splits)
  ultimately show ?thesis
    by (cases e; cases e') (auto simp: as_envelope_def)
qed

text \<open>The unexpected exceptions: everything but the three kinds with a handler of their own.\<close>

fun unexpected :: "py_exc \<Rightarrow> bool" where
  "unexpected (HTTPErr _ _) = False"
| "unexpected (PlainHTTP _ _) = False"
| "unexpected (RequestInvalid _) = False"
| "unexpected e = is_exception e"

lemma handle_unexpected:
  "unexpected e \<Longrightarrow> handle_exception e rid = Some (unhandled_exception_handler rid)"
  by (cases e) auto

text \<open>
  Every exception that reaches the error layer is answered with the envelope: the body is the
  envelope of one structured error under the request id, the header \<open>X-Error-Code\<close> carries the
  code of that same error, and the category is an HTTP one, whatever was raised.
\<close>

theorem error_responses_uniform:
  assumes "is_exception e" "\<forall>st er. e = HTTPErr st er \<longrightarrow> oe_type er \<noteq> ConfigError"
  shows "\<exists>r er. handle_exception e rid = Some r \<and> resp_body r = JsonBody (as_envelope er rid) \<and>
    resp_headers r = [(''X-Error-Code'', oe_code er)] \<and> oe_type er \<noteq> ConfigError"
  using assms
  by (cases e)
     (auto simp: openai_exception_handler_def envelope_response_def http_exception_handler_def
        validation_exception_handler_def unhandled_exception_handler_def Let_def split: list.split prod.split)

theorem error_responses_uniform_witness:
  "\<exists>r er. handle_exception (PlainHTTP 404 None) ''abc'' = Some r \<and> resp_body r = JsonBody (as_envelope er ''abc'') \<and>
    resp_headers r = [(''X-Error-Code'', oe_code er)] \<and> oe_type er \<noteq> ConfigError"
  by (rule error_responses_uniform) simp_all

text \<open>
  An unexpected exception tells the client nothing. Whatever its class and its text, the answer
  is the same 500 with the generic message; it depends on the request id only.
\<close>

theorem unexpected_errors_opaque:
  assumes "unexpected e" "unexpected e'"
  shows "handle_exception e rid = handle_exception e' rid \<and>
    (\<exists>r er. handle_exception e rid = Some r \<and> resp_status r = 500 \<and> resp_body r = JsonBody (as_envelope er rid) \<and>
       oe_message er = ''An unexpected error occurred.'' \<and> oe_code er = ''unexpected_error'' \<and> oe_type er = InternalError)"
  using handle_unexpected [OF assms(1)] handle_unexpected [OF assms(2)]
  by (auto simp: unhandled_exception_handler_def envelope_response_def generic_internal_message_def)

theorem unexpected_errors_opaque_witness:
  "handle_exception (OSErr ''/etc/secret'') ''r1'' = handle_exception (KeyErr ''token'') ''r1''"
  using unexpected_errors_opaque [of "OSErr ''/etc/secret''" "KeyErr ''token''" "''r1''"] by simp

end
