(* ===== verification/ModelCache.thy ===== *)
theory ModelCache
  imports Errors
begin

text \<open>
  \<open>services/model_cache.py\<close> (the bounded LRU cache of loaded models) and
  \<open>services/tts_providers/cached_model_provider.py\<close> (the provider mix-in that routes model
  retrieval through it). The \<open>OrderedDict\<close> is an association list, least recently used entry
  first. A model is any value \<open>'m\<close>, an unload callback any value \<open>'u\<close>; the calls of
  callbacks are returned in order, their exceptions are swallowed by the code. \<open>_try_hit\<close> and
  \<open>_install\<close> each run under the cache lock, the validator and the loader outside it:
  \<open>cache_step\<close> interleaves them.
\<close>

type_synonym cache_key = "string \<times> string"

record ('m, 'u) cache_entry =
  ce_model :: 'm
  ce_unloader :: "'u option"

type_synonym ('m, 'u) centries = "(cache_key \<times> ('m, 'u) cache_entry) list"

record ('m, 'u) lru_cache =
  lru_max :: nat
  lru_entries :: "('m, 'u) centries"

subsection \<open>Operations\<close>

definition new_cache :: "int \<Rightarrow> ('m, 'u) lru_cache res" where
  "new_cache n = (if n < 1 then Inl (ValueErr ''LRUModelCache max_size must be >= 1'')
     else Inr \<lparr>lru_max = nat n, lru_entries = []\<rparr>)"

definition loaded_keys :: "('m, 'u) lru_cache \<Rightarrow> cache_key list" where
  "loaded_keys c = rev (map fst (lru_entries c))"

definition cache_contains :: "('m, 'u) lru_cache \<Rightarrow> cache_key \<Rightarrow> bool" where
  "cache_contains c k = (map_of (lru_entries c) k \<noteq> None)"

definition cache_len :: "('m, 'u) lru_cache \<Rightarrow> nat" where
  "cache_len c = length (lru_entries c)"

definition move_to_end :: "'k \<Rightarrow> ('k \<times> 'v) list \<Rightarrow> ('k \<times> 'v) list" where
  "move_to_end k es = (case map_of es k of None \<Rightarrow> es | Some e \<Rightarrow> AList.delete k es @ [(k, e)])"

definition try_hit :: "('m, 'u) lru_cache \<Rightarrow> cache_key \<Rightarrow> 'm option \<times> ('m, 'u) lru_cache" where
  "try_hit c k = (case map_of (lru_entries c) k of
       None \<Rightarrow> (None, c)
     | Some e \<Rightarrow> (Some (ce_model e), c\<lparr>lru_entries := move_to_end k (lru_entries c)\<rparr>))"

text \<open>The loop \<open>while len(entries) > max_size: popitem(last=False)\<close> and the callbacks it collects.\<close>

fun evict :: "nat \<Rightarrow> ('m, 'u) centries \<Rightarrow> ('m, 'u) centries \<times> ('u \<times> 'm) list" where
  "evict n [] = ([], [])"
| "evict n ((k, e) # es) =
     (if n < length ((k, e) # es)
      then (case evict n es of (es', us) \<Rightarrow>
              (es', (case ce_unloader e of None \<Rightarrow> us | Some u \<Rightarrow> (u, ce_model e) # us)))
      else ((k, e) # es, []))"

definition install ::
  "('m, 'u) lru_cache \<Rightarrow> cache_key \<Rightarrow> 'm \<Rightarrow> 'u option \<Rightarrow> 'm \<times> ('m, 'u) lru_cache \<times> ('u \<times> 'm) list" where
  "install c k m u = (case map_of (lru_entries c) k of
       Some e \<Rightarrow> (ce_model e, c\<lparr>lru_entries := move_to_end k (lru_entries c)\<rparr>, [])
     | None \<Rightarrow> (case evict (lru_max c)
                   (AList.update k \<lparr>ce_model = m, ce_unloader = u\<rparr> (lru_entries c)) of
                 (es, us) \<Rightarrow> (m, c\<lparr>lru_entries := es\<rparr>, us)))"

definition get_or_load ::
  "('m, 'u) lru_cache \<Rightarrow> cache_key \<Rightarrow> 'm res \<Rightarrow> unit res option \<Rightarrow> 'u option \<Rightarrow>
   'm res \<times> ('m, 'u) lru_cache \<times> ('u \<times> 'm) list" where
  "get_or_load c k loader validator unloader =
     (case try_hit c k of
        (Some m, c') \<Rightarrow> (Inr m, c', [])
      | (None, c') \<Rightarrow>
          (case (case validator of None \<Rightarrow> Inr () | Some v \<Rightarrow> v) of
             Inl e \<Rightarrow> (Inl e, c', [])
           | Inr _ \<Rightarrow> (case loader of
               Inl e \<Rightarrow> (Inl e, c', [])
             | Inr m \<Rightarrow> (case install c' k m unloader of (m', c'', us) \<Rightarrow> (Inr m', c'', us)))))"

subsection \<open>Invariant and functional behaviour\<close>

definition cache_inv :: "('m, 'u) lru_cache \<Rightarrow> bool" where
  "cache_inv c = (distinct (map fst (lru_entries c)) \<and> length (lru_entries c) \<le> lru_max c \<and> 1 \<le> lru_max c)"

lemma new_cache_inv: "new_cache n = Inr c \<Longrightarrow> cache_inv c \<and> loaded_keys c = [] \<and> int (lru_max c) = n"
  by (auto simp: new_cache_def cache_inv_def loaded_keys_def split: if_splits)

lemma map_fst_delete: "map fst (AList.delete k es) = removeAll k (map fst es)"
  by (induction es) (auto simp: AList.delete_eq)

lemma keys_move_to_end:
  "map fst (move_to_end k es) = (if k \<in> fst ` set es then removeAll k (map fst es) @ [k] else map fst es)"
proof (cases "map_of es k")
  case None
  then have "k \<notin> fst ` set es" by (rule map_of_NoneD)
  with None show ?thesis by (simp add: move_to_end_def)
next
  case (Some e)
  then have "k \<in> fst ` set es" by (rule map_of_SomeD')
  with Some show ?thesis by (simp add: move_to_end_def map_fst_delete)
qed

lemma map_of_move_to_end: "map_of (move_to_end k es) = map_of es"
  by (auto simp: move_to_end_def map_add_def fun_eq_iff split: option.splits)

lemma evict_length: "length (fst (evict n es)) = min n (length es)"
  by (induction n es rule: evict.induct) (auto split: prod.splits)

lemma evict_drop: "fst (evict n es) = drop (length es - n) es"
proof (induction n es rule: evict.induct)
  case (2 n k e es)
  then show ?case
    by (cases "n < length ((k, e) # es)") (auto split: prod.splits simp: Suc_diff_le)
qed simp

lemma update_absent: "k \<notin> fst ` set es \<Longrightarrow> AList.update k v es = es @ [(k, v)]"
  by (induction es) auto

definition lru_touch :: "nat \<Rightarrow> 'k \<Rightarrow> 'k list \<Rightarrow> 'k list" where
  "lru_touch n k ks = take n (k # removeAll k ks)"

lemma rev_removeAll: "rev (removeAll k xs) = removeAll k (rev xs)"
  by (simp add: removeAll_filter_not_eq rev_filter)

lemma length_removeAll_distinct: "distinct xs \<Longrightarrow> k \<in> set xs \<Longrightarrow> length (removeAll k xs) = length xs - 1"
  by (metis distinct_remove1_removeAll length_remove1)

lemma touch_hit:
  assumes "cache_inv c" "k \<in> fst ` set (lru_entries c)"
  shows "loaded_keys (c\<lparr>lru_entries := move_to_end k (lru_entries c)\<rparr>) = lru_touch (lru_max c) k (loaded_keys c)"
    and "cache_inv (c\<lparr>lru_entries := move_to_end k (lru_entries c)\<rparr>)"
proof -
  let ?ks = "map fst (lru_entries c)"
  have k: "k \<in> set ?ks" and d: "distinct ?ks" and le: "length ?ks \<le> lru_max c"
    using assms by (auto simp: cache_inv_def)
  have len: "length (removeAll k ?ks) = length ?ks - 1"
    using d k by (rule length_removeAll_distinct)
  have pos: "1 \<le> length ?ks" using k by (cases ?ks) auto
  show "loaded_keys (c\<lparr>lru_entries := move_to_end k (lru_entries c)\<rparr>) = lru_touch (lru_max c) k (loaded_keys c)"
    using assms(2) len le pos
    by (simp add: loaded_keys_def keys_move_to_end lru_touch_def rev_removeAll [symmetric])
  have "length (move_to_end k (lru_entries c)) = length (map fst (move_to_end k (lru_entries c)))" by simp
  also have "\<dots> \<le> lru_max c" using assms(2) len le pos by (simp only: keys_move_to_end) simp
  finally show "cache_inv (c\<lparr>lru_entries := move_to_end k (lru_entries c)\<rparr>)"
    using assms d by (simp add: cache_inv_def keys_move_to_end distinct_removeAll)
qed

lemma try_hit_cases:
  assumes "cache_inv c"
  shows "case try_hit c k of
      (Some m, c') \<Rightarrow> loaded_keys c' = lru_touch (lru_max c) k (loaded_keys c) \<and> cache_inv c' \<and>
         lru_max c' = lru_max c \<and> k \<in> set (loaded_keys c)
    | (None, c') \<Rightarrow> c' = c \<and> k \<notin> set (loaded_keys c)"
proof (cases "map_of (lru_entries c) k")
  case None
  then have "k \<notin> fst ` set (lru_entries c)" by (rule map_of_NoneD)
  with None show ?thesis by (simp add: try_hit_def loaded_keys_def)
next
  case (Some e)
  then have "k \<in> fst ` set (lru_entries c)" by (rule map_of_SomeD')
  with Some touch_hit [OF assms this] show ?thesis
    by (auto simp: try_hit_def loaded_keys_def)
qed

lemma install_spec:
  assumes "cache_inv c" "install c k m u = (m', c', us)"
  shows "loaded_keys c' = lru_touch (lru_max c) k (loaded_keys c)" "cache_inv c'" "lru_max c' = lru_max c"
    "map_option ce_model (map_of (lru_entries c') k) = Some m'"
proof -
  have "loaded_keys c' = lru_touch (lru_max c) k (loaded_keys c) \<and> cache_inv c' \<and> lru_max c' = lru_max c \<and>
    map_option ce_model (map_of (lru_entries c') k) = Some m'"
  proof (cases "map_of (lru_entries c) k")
    case (Some e)
    then have "k \<in> fst ` set (lru_entries c)" by (rule map_of_SomeD')
    with Some assms touch_hit [OF assms(1) this] show ?thesis
      by (auto simp: install_def map_of_move_to_end)
  next
    case None
    let ?es = "lru_entries c @ [(k, \<lparr>ce_model = m, ce_unloader = u\<rparr>)]"
    let ?n = "lru_max c"
    have nk: "k \<notin> fst ` set (lru_entries c)" using None by (rule map_of_NoneD)
    have ev: "m' = m" "c' = c\<lparr>lru_entries := fst (evict ?n ?es)\<rparr>"
      using assms(2) None by (auto simp: install_def update_absent [OF nk] split: prod.splits)
    note eqs = ev [unfolded evict_drop]
    have b: "length (lru_entries c) \<le> ?n" "1 \<le> ?n" "distinct (map fst (lru_entries c))"
      using assms(1) by (auto simp: cache_inv_def)
    have keys: "map fst (drop (length ?es - ?n) ?es) = drop (length ?es - ?n) (map fst (lru_entries c) @ [k])"
      by (simp add: drop_map [symmetric] del: drop_append)
    have "loaded_keys c' = rev (drop (length ?es - ?n) (map fst (lru_entries c) @ [k]))"
      by (simp add: loaded_keys_def eqs(2) drop_map [symmetric] del: drop_append)
    also have "\<dots> = take ?n (rev (map fst (lru_entries c) @ [k]))"
      by (cases "?n \<le> length ?es") (simp_all add: rev_drop del: drop_append rev_append)
    finally have "loaded_keys c' = take ?n (k # rev (map fst (lru_entries c)))" by simp
    moreover have "removeAll k (rev (map fst (lru_entries c))) = rev (map fst (lru_entries c))"
      using nk by (simp add: removeAll_id)
    moreover have "cache_inv c'"
    proof -
      have sel: "lru_entries c' = drop (length ?es - ?n) ?es" "lru_max c' = ?n"
        by (simp_all add: eqs(2))
      have "distinct (map fst (lru_entries c) @ [k])" using b nk by simp
      then have "distinct (map fst (lru_entries c'))"
        unfolding sel keys by (rule distinct_drop)
      moreover have "length (lru_entries c') \<le> ?n" unfolding sel(1) length_drop by simp
      ultimately show ?thesis using b sel by (simp add: cache_inv_def)
    qed
    moreover have "map_of (drop (length ?es - ?n) ?es) k = Some \<lparr>ce_model = m, ce_unloader = u\<rparr>"
    proof -
      have "drop (length ?es - ?n) ?es =
          drop (length ?es - ?n) (lru_entries c) @ [(k, \<lparr>ce_model = m, ce_unloader = u\<rparr>)]"
        using b by (auto simp: not_le)
      moreover have "k \<notin> fst ` set (drop (length ?es - ?n) (lru_entries c))"
        using nk by (auto dest: in_set_dropD)
      ultimately show ?thesis by (simp add: map_add_def map_of_eq_None_iff [THEN iffD2])
    qed
    ultimately show ?thesis by (simp add: eqs lru_touch_def loaded_keys_def)
  qed
  then show "loaded_keys c' = lru_touch (lru_max c) k (loaded_keys c)" "cache_inv c'" "lru_max c' = lru_max c"
    "map_option ce_model (map_of (lru_entries c') k) = Some m'" by auto
qed

text \<open>Every outcome of a retrieval: an error leaves the cache as it was, a success makes \<open>k\<close> the newest key.\<close>

lemma get_or_load_cases:
  assumes "cache_inv c" "get_or_load c k loader validator u = (r, c', us)"
  shows "cache_inv c' \<and> lru_max c' = lru_max c \<and>
    (case r of Inl e \<Rightarrow> c' = c \<and> us = []
     | Inr m \<Rightarrow> loaded_keys c' = lru_touch (lru_max c) k (loaded_keys c))"
proof (cases "try_hit c k")
  case (Pair hit c0)
  have th: "case (hit, c0) of
      (Some m, c') \<Rightarrow> loaded_keys c' = lru_touch (lru_max c) k (loaded_keys c) \<and> cache_inv c' \<and>
         lru_max c' = lru_max c \<and> k \<in> set (loaded_keys c)
    | (None, c') \<Rightarrow> c' = c \<and> k \<notin> set (loaded_keys c)"
    using try_hit_cases [OF assms(1), of k] Pair by simp
  show ?thesis
  proof (cases hit)
    case (Some m)
    with Pair th assms(2) show ?thesis by (auto simp: get_or_load_def)
  next
    case None
    with th have c0: "c0 = c" by simp
    show ?thesis
      using assms Pair None c0 install_spec [OF assms(1)]
      by (auto simp: get_or_load_def split: sum.splits option.splits prod.splits)
  qed
qed

subsection \<open>Sequences of retrievals\<close>

type_synonym ('m, 'u) request = "cache_key \<times> 'm res \<times> unit res option \<times> 'u option"

text \<open>Runs retrievals in order; the second component lists the keys that were served.\<close>

fun serve :: "('m, 'u) lru_cache \<Rightarrow> ('m, 'u) request list \<Rightarrow> ('m, 'u) lru_cache \<times> cache_key list" where
  "serve c [] = (c, [])"
| "serve c ((k, l, v, u) # rs) = (case get_or_load c k l v u of (r, c', us) \<Rightarrow>
     (case serve c' rs of (c'', ks) \<Rightarrow> (c'', (case r of Inl e \<Rightarrow> ks | Inr m \<Rightarrow> k # ks))))"

lemma remdups_snoc: "remdups (ks @ [k]) = removeAll k (remdups ks) @ [k]"
  by (induction ks) auto

lemma touch_take: "distinct xs \<Longrightarrow> lru_touch n k (take n xs) = lru_touch n k xs"
proof (cases n)
  case (Suc m)
  assume d: "distinct xs"
  have "take m (removeAll k (take (Suc m) xs)) = take m (removeAll k xs)"
    using d
  proof (induction xs arbitrary: m)
    case (Cons x xs)
    show ?case
    proof (cases "x = k")
      case True
      with Cons.prems have "k \<notin> set xs" "k \<notin> set (take m xs)" by (auto dest: in_set_takeD)
      with True show ?thesis by (simp add: removeAll_id)
    next
      case False
      show ?thesis
      proof (cases m)
        case (Suc l)
        with False Cons.IH [of l] Cons.prems show ?thesis by simp
      qed simp
    qed
  qed simp
  with Suc show ?thesis by (simp add: lru_touch_def)
qed (simp add: lru_touch_def)

lemma serve_keys:
  assumes "cache_inv c" "loaded_keys c = take (lru_max c) (rev (remdups pre))" "serve c rs = (c', ks)"
  shows "cache_inv c' \<and> lru_max c' = lru_max c \<and> loaded_keys c' = take (lru_max c) (rev (remdups (pre @ ks)))"
  using assms
proof (induction rs arbitrary: c pre c' ks)
  case Nil
  then show ?case by simp
next
  case (Cons q rs)
  obtain k l v u where q: "q = (k, l, v, u)" by (cases q)
  obtain r c1 us where g: "get_or_load c k l v u = (r, c1, us)" by (cases "get_or_load c k l v u")
  obtain c2 ks2 where s: "serve c1 rs = (c2, ks2)" by (cases "serve c1 rs")
  note gs = get_or_load_cases [OF Cons.prems(1) g]
  show ?case
  proof (cases r)
    case (Inl e)
    with gs Cons.prems Cons.IH [of c1 pre c2 ks2] s q g show ?thesis by auto
  next
    case (Inr m)
    have "loaded_keys c1 = take (lru_max c1) (rev (remdups (pre @ [k])))"
      using gs Inr Cons.prems(2) touch_take [of "rev (remdups pre)" "lru_max c" k]
      by (simp add: remdups_snoc lru_touch_def rev_removeAll)
    with gs Inr Cons.prems Cons.IH [of c1 "pre @ [k]" c2 ks2] s q g show ?thesis by auto
  qed
qed



subsection \<open>Concurrent retrievals\<close>

datatype 'm call_phase =
  Idle | Loading cache_key | Loaded cache_key 'm | Returned cache_key 'm | Failed cache_key

record ('m, 'u) cache_sys =
  cs_cache :: "('m, 'u) lru_cache"
  cs_calls :: "nat \<Rightarrow> 'm call_phase"

definition set_call :: "('m, 'u) cache_sys \<Rightarrow> ('m, 'u) lru_cache \<Rightarrow> nat \<Rightarrow> 'm call_phase \<Rightarrow> ('m, 'u) cache_sys" where
  "set_call s c t p = s\<lparr>cs_cache := c, cs_calls := (cs_calls s)(t := p)\<rparr>"

text \<open>Thread \<open>t\<close> runs \<open>get_or_load\<close>: one locked section, the unlocked load, one locked section.\<close>

inductive cache_step :: "('m, 'u) cache_sys \<Rightarrow> ('m, 'u) cache_sys \<Rightarrow> bool" where
  hit: "cs_calls s t = Idle \<Longrightarrow> try_hit (cs_cache s) k = (Some m, c') \<Longrightarrow>
     cache_step s (set_call s c' t (Returned k m))"
| miss: "cs_calls s t = Idle \<Longrightarrow> try_hit (cs_cache s) k = (None, c') \<Longrightarrow>
     cache_step s (set_call s c' t (Loading k))"
| refuse: "cs_calls s t = Loading k \<Longrightarrow> cache_step s (set_call s (cs_cache s) t (Failed k))"
| loaded: "cs_calls s t = Loading k \<Longrightarrow> cache_step s (set_call s (cs_cache s) t (Loaded k m))"
| install: "cs_calls s t = Loaded k m \<Longrightarrow> install (cs_cache s) k m u = (m', c', us) \<Longrightarrow>
     cache_step s (set_call s c' t (Returned k m'))"
| again: "cs_calls s t = Returned k m \<or> cs_calls s t = Failed k \<Longrightarrow>
     cache_step s (set_call s (cs_cache s) t Idle)"

inductive cache_reachable :: "nat \<Rightarrow> ('m, 'u) cache_sys \<Rightarrow> bool" for n where
  start: "1 \<le> n \<Longrightarrow> cache_reachable n \<lparr>cs_cache = \<lparr>lru_max = n, lru_entries = []\<rparr>, cs_calls = (\<lambda>_. Idle)\<rparr>"
| step: "cache_reachable n s \<Longrightarrow> cache_step s s' \<Longrightarrow> cache_reachable n s'"

lemma set_call_sel [simp]:
  "cs_cache (set_call s c t p) = c" "cs_calls (set_call s c t p) = (cs_calls s)(t := p)"
  by (simp_all add: set_call_def)

lemma cache_step_inv: "cache_step s s' \<Longrightarrow> cache_inv (cs_cache s) \<Longrightarrow>
   cache_inv (cs_cache s') \<and> lru_max (cs_cache s') = lru_max (cs_cache s)"
proof (induction rule: cache_step.induct)
  case (hit s t k m c')
  then show ?case using try_hit_cases [of "cs_cache s" k] by simp
next
  case (miss s t k c')
  then show ?case using try_hit_cases [of "cs_cache s" k] by simp
next
  case (install s t k m u m' c' us)
  then show ?case using install_spec [of "cs_cache s" k m u m' c' us] by simp
qed auto

lemma cache_reachable_inv: "cache_reachable n s \<Longrightarrow> cache_inv (cs_cache s) \<and> lru_max (cs_cache s) = n"
proof (induction rule: cache_reachable.induct)
  case start
  then show ?case by (simp add: cache_inv_def)
next
  case (step s s')
  then show ?case using cache_step_inv by metis
qed

lemma cache_step_returns:
  "cache_step s s' \<Longrightarrow> cache_inv (cs_cache s) \<Longrightarrow> cs_calls s' t = Returned k m \<Longrightarrow>
   cs_calls s t \<noteq> Returned k m \<Longrightarrow>
   map_option ce_model (map_of (lru_entries (cs_cache s')) k) = Some m"
proof (induction rule: cache_step.induct)
  case (hit s t' k' m' c')
  then show ?case
    by (auto simp: try_hit_def map_of_move_to_end split: option.splits if_splits)
next
  case (install s t' k' m0 u m' c' us)
  then show ?case using install_spec(4) [of "cs_cache s" k' m0 u m' c' us] by (auto split: if_splits)
qed (auto split: if_splits)



subsection \<open>CachedModelProvider\<close>

text \<open>
  A provider's own state: its name, its class name (used in a message when the name is empty), the
  allow-list, whether the shared cache is attached, and the legacy per-provider cache and lock
  names used when it is not.
\<close>

record 'm model_provider =
  mp_name :: string
  mp_class :: string
  mp_allowed :: "string list"
  mp_shared :: bool
  mp_local :: "(string \<times> 'm) list"
  mp_locks :: "string list"

definition attach_model_cache :: "'m model_provider \<Rightarrow> string list \<Rightarrow> 'm model_provider" where
  "attach_model_cache p allowed = p\<lparr>mp_shared := True, mp_allowed := allowed\<rparr>"

definition validate_model :: "'m model_provider \<Rightarrow> string \<Rightarrow> unit res" where
  "validate_model p name =
     (if mp_allowed p \<noteq> [] \<and> name \<notin> set (mp_allowed p)
      then Inl (invalid_request_code
        (''model '' @ quoted name @ '' is not allowed for provider '' @
         quoted (if mp_name p = [] then mp_class p else mp_name p))
        (Some ''model'') ''unknown_model'')
      else Inr ())"

definition get_model_lock :: "'m model_provider \<Rightarrow> string \<Rightarrow> 'm model_provider" where
  "get_model_lock p name = (if name \<in> set (mp_locks p) then p else p\<lparr>mp_locks := mp_locks p @ [name]\<rparr>)"

definition get_model ::
  "'m model_provider \<Rightarrow> ('m, string) lru_cache \<Rightarrow> string \<Rightarrow> 'm res \<Rightarrow>
   'm res \<times> 'm model_provider \<times> ('m, string) lru_cache \<times> (string \<times> 'm) list" where
  "get_model p c name loader =
     (if mp_shared p then
        (case get_or_load c (mp_name p, name) loader (Some (validate_model p name)) (Some (mp_name p)) of
           (r, c', us) \<Rightarrow> (r, p, c', us))
      else (case map_of (mp_local p) name of
          Some m \<Rightarrow> (Inr m, p, c, [])
        | None \<Rightarrow> (case loader of
            Inl e \<Rightarrow> (Inl e, p, c, [])
          | Inr m \<Rightarrow> (Inr m,
              (get_model_lock p name)\<lparr>mp_local := AList.update name m (mp_local p)\<rparr>, c, []))))"

definition preload ::
  "'m model_provider \<Rightarrow> ('m, string) lru_cache \<Rightarrow> string \<Rightarrow> 'm res \<Rightarrow>
   unit res \<times> 'm model_provider \<times> ('m, string) lru_cache \<times> (string \<times> 'm) list" where
  "preload p c name loader = (case get_model p c name loader of
     (r, p', c', us) \<Rightarrow> (map_sum id (\<lambda>_. ()) r, p', c', us))"

text \<open>
  A model outside the allow-list is refused with 400 \<open>unknown_model\<close> before the loader runs
  and without touching the shared cache, unless that very key is already cached: the validator
  guards the load, not the hit.
\<close>

theorem get_model_disallowed:
  assumes "mp_shared p" and "mp_allowed p \<noteq> []" and "name \<notin> set (mp_allowed p)"
    and "\<not> cache_contains c (mp_name p, name)"
  shows "\<exists>e. get_model p c name loader = (Inl (HTTPErr 400 e), p, c, []) \<and>
    oe_code e = ''unknown_model'' \<and> oe_param e = Some ''model''"
  using assms
  by (simp add: get_model_def get_or_load_def try_hit_def cache_contains_def validate_model_def factory_defs)

theorem get_model_disallowed_witness:
  "\<exists>e. get_model \<lparr>mp_name = ''voxtral'', mp_class = ''VoxtralTTSProvider'', mp_allowed = [''m1''],
        mp_shared = True, mp_local = [], mp_locks = []\<rparr> \<lparr>lru_max = 1, lru_entries = []\<rparr> ''m2'' (Inr (0::nat))
     = (Inl (HTTPErr 400 e), \<lparr>mp_name = ''voxtral'', mp_class = ''VoxtralTTSProvider'', mp_allowed = [''m1''],
        mp_shared = True, mp_local = [], mp_locks = []\<rparr>, \<lparr>lru_max = 1, lru_entries = []\<rparr>, []) \<and>
     oe_code e = ''unknown_model'' \<and> oe_param e = Some ''model''"
  by (rule get_model_disallowed) (simp_all add: cache_contains_def)

end
