(* ===== verification/TextPreprocessing.thy ===== *)
theory TextPreprocessing
  imports Errors
begin

text \<open>
  \<open>services/text_preprocessing.py\<close>: punctuation clean-up, date and number expansion, and the
  semantic chunker, on lists of code points. Each regular-expression substitution is a scanner that
  does what the pattern does on every text. Two things are parameters. \<open>unidata\<close> is the part of
  the Unicode character database the classes \<open>\\d\<close> and \<open>\\w\<close> read; \<open>num2words\<close> is the
  third-party package of that name (\<open>None\<close> when its import failed).
\<close>

record unidata =
  ud_digit :: "nat \<Rightarrow> nat option"
  ud_word :: "nat \<Rightarrow> bool"

definition isd :: "unidata \<Rightarrow> nat \<Rightarrow> bool" where
  "isd U c = (ud_digit U c \<noteq> None)"

definition ustr :: "string \<Rightarrow> utext" where
  "ustr = map of_char"

datatype nw_result = NwWords utext | NwNotImplemented | NwRaises py_exc

type_synonym num2words = "(int \<Rightarrow> string \<Rightarrow> nw_result) option"

subsection \<open>Languages\<close>

definition language_aliases :: "(string \<times> string) list" where
  "language_aliases =
     [(''italian'', ''it''), (''it'', ''it''), (''english'', ''en''), (''en'', ''en''),
      (''spanish'', ''es''), (''es'', ''es''), (''french'', ''fr''), (''fr'', ''fr''),
      (''german'', ''de''), (''de'', ''de''), (''portuguese'', ''pt''), (''pt'', ''pt'')]"

definition month_names :: "(string \<times> string list) list" where
  "month_names =
     [(''it'', [''gennaio'', ''febbraio'', ''marzo'', ''aprile'', ''maggio'', ''giugno'', ''luglio'',
        ''agosto'', ''settembre'', ''ottobre'', ''novembre'', ''dicembre'']),
      (''en'', [''January'', ''February'', ''March'', ''April'', ''May'', ''June'', ''July'',
        ''August'', ''September'', ''October'', ''November'', ''December''])]"

definition month_name :: "string \<Rightarrow> nat \<Rightarrow> string option" where
  "month_name lang m = (case map_of month_names lang of None \<Rightarrow> None
     | Some ns \<Rightarrow> if 1 \<le> m \<and> m \<le> 12 then Some (ns ! (m - 1)) else None)"

definition resolve_number_language :: "string \<Rightarrow> string" where
  "resolve_number_language language = get_default language_aliases (lower (strip language)) ''en''"

subsection \<open>Punctuation\<close>

text \<open>\<open>\\s+\<close> to one blank.\<close>

function sub_spaces :: "utext \<Rightarrow> utext" where
  "sub_spaces [] = []"
| "sub_spaces (c # cs) =
     (if space_cp c then 32 # sub_spaces (dropWhile space_cp cs) else c # sub_spaces cs)"
  by pat_completeness auto
termination
  by (relation "measure length") (auto simp: le_imp_less_Suc length_dropWhile_le)

text \<open>A run of one character that satisfies \<open>P\<close> to a single one: \<open>\\.{2,}\<close> and \<open>([,;:!?])\\1+\<close>.\<close>

function dedup :: "(nat \<Rightarrow> bool) \<Rightarrow> utext \<Rightarrow> utext" where
  "dedup P [] = []"
| "dedup P (c # cs) =
     (if P c then c # dedup P (dropWhile (\<lambda>x. x = c) cs) else c # dedup P cs)"
  by pat_completeness auto
termination
  by (relation "measure (\<lambda>(P, xs). length xs)") (auto simp: le_imp_less_Suc length_dropWhile_le)

definition is_dot :: "nat \<Rightarrow> bool" where
  "is_dot c = (c = 46)"

definition is_mark :: "nat \<Rightarrow> bool" where
  "is_mark c = (c = 44 \<or> c = 59 \<or> c = 58 \<or> c = 33 \<or> c = 63)"

text \<open>
  \<open>([,;:])\\s*\\n+\<close> to the mark and a blank. The greedy \<open>\\s*\<close> backtracks to the last line break of
  the run of whitespace after the mark; whitespace behind that line break stays.
\<close>

function sub_linebreaks :: "utext \<Rightarrow> utext" where
  "sub_linebreaks [] = []"
| "sub_linebreaks (c # cs) =
     (let ws = takeWhile space_cp cs in
      if (c = 44 \<or> c = 59 \<or> c = 58) \<and> 10 \<in> set ws
      then c # 32 # sub_linebreaks (drop (length ws - length (takeWhile (\<lambda>x. x \<noteq> 10) (rev ws))) cs)
      else c # sub_linebreaks cs)"
  by pat_completeness auto
termination
  by (relation "measure length") auto

definition clean_punctuation :: "utext \<Rightarrow> utext" where
  "clean_punctuation t =
     (let collapsed = sub_spaces t;
          no_duplicate_dots = dedup is_dot collapsed;
          no_duplicate_marks = dedup is_mark no_duplicate_dots;
          normalized_lines = sub_linebreaks no_duplicate_marks
      in tstrip normalized_lines)"

subsection \<open>Numbers and dates\<close>

definition number_to_words :: "num2words \<Rightarrow> int \<Rightarrow> string \<Rightarrow> utext res" where
  "number_to_words N v lang = (case N of
       None \<Rightarrow> Inr (ustr (int_str v))
     | Some f \<Rightarrow> (case f v lang of
         NwWords w \<Rightarrow> Inr w
       | NwRaises e \<Rightarrow> Inl e
       | NwNotImplemented \<Rightarrow> (case f v ''en'' of
           NwWords w \<Rightarrow> Inr w
         | NwRaises e \<Rightarrow> Inl e
         | NwNotImplemented \<Rightarrow> Inl (NotImplementedErr []))))"

definition date_to_words :: "num2words \<Rightarrow> nat \<Rightarrow> nat \<Rightarrow> nat \<Rightarrow> string \<Rightarrow> utext res" where
  "date_to_words N day month year lang = (case month_name lang month of
       None \<Rightarrow> Inr (ustr (nat_str day @ ''/'' @ nat_str month @ ''/'' @ nat_str year))
     | Some mn \<Rightarrow> (case number_to_words N (int day) lang of
         Inl e \<Rightarrow> Inl e
       | Inr dw \<Rightarrow> (case number_to_words N (int year) lang of
           Inl e \<Rightarrow> Inl e
         | Inr yw \<Rightarrow> Inr (dw @ [32] @ ustr mn @ [32] @ yw))))"

text \<open>\<open>int()\<close> of a run of decimal digits.\<close>

definition dval :: "unidata \<Rightarrow> utext \<Rightarrow> nat" where
  "dval U = foldl (\<lambda>n c. 10 * n + (case ud_digit U c of None \<Rightarrow> 0 | Some d \<Rightarrow> d)) 0"

text \<open>\<open>\\b\<close> after a digit: the end of the text or a character that is no word character.\<close>

fun word_end :: "unidata \<Rightarrow> utext \<Rightarrow> bool" where
  "word_end U [] = True"
| "word_end U (c # cs) = (\<not> ud_word U c)"

text \<open>
  \<open>pattern.sub(f, text)\<close> for a pattern that begins with \<open>\\b\\d\<close>. The flag says whether the
  character before is a word character; the matcher gives the replacement and the length of a match
  that begins here.
\<close>

fun re_sub :: "unidata \<Rightarrow> (utext \<Rightarrow> (utext res \<times> nat) option) \<Rightarrow> bool \<Rightarrow> utext \<Rightarrow> utext res" where
  "re_sub U M pw [] = Inr []"
| "re_sub U M pw (c # cs) =
     (case (if \<not> pw \<and> isd U c then M (c # cs) else None) of
        None \<Rightarrow> map_sum id ((#) c) (re_sub U M (ud_word U c) cs)
      | Some (r, n) \<Rightarrow> (case r of
          Inl e \<Rightarrow> Inl e
        | Inr w \<Rightarrow> map_sum id ((@) w) (re_sub U M True (drop (n - 1) cs))))"

text \<open>\<open>\\b\\d+\\b\<close>; \<open>int()\<close> refuses more than 4300 digits.\<close>

definition match_number :: "unidata \<Rightarrow> num2words \<Rightarrow> string \<Rightarrow> utext \<Rightarrow> (utext res \<times> nat) option" where
  "match_number U N lang s =
     (let ds = takeWhile (isd U) s in
      if word_end U (drop (length ds) s)
      then Some (if 4300 < length ds then Inl (ValueErr ''Exceeds the limit (4300 digits) for integer string conversion'')
                 else number_to_words N (int (dval U ds)) lang, length ds)
      else None)"

definition expand_numbers :: "unidata \<Rightarrow> num2words \<Rightarrow> utext \<Rightarrow> string \<Rightarrow> utext res" where
  "expand_numbers U N t lang = re_sub U (match_number U N lang) False t"

definition replace_date :: "unidata \<Rightarrow> num2words \<Rightarrow> string \<Rightarrow> utext \<Rightarrow> utext \<Rightarrow> utext \<Rightarrow> utext res" where
  "replace_date U N lang d m y =
     (let day = dval U d; month = dval U m; year = dval U y;
          normalized_year = (if year < 100 then year + 2000 else year)
      in if valid_date normalized_year month day
         then date_to_words N day month normalized_year lang
         else Inr (d @ [47] @ m @ [47] @ y))"

text \<open>\<open>\\b(\\d{1,2})/(\\d{1,2})/(\\d{2,4})\\b\<close>.\<close>

definition match_date :: "unidata \<Rightarrow> num2words \<Rightarrow> string \<Rightarrow> utext \<Rightarrow> (utext res \<times> nat) option" where
  "match_date U N lang s =
     (let d = takeWhile (isd U) s; r1 = drop (length d) s;
          m = takeWhile (isd U) (tl r1); r2 = drop (length m) (tl r1);
          y = takeWhile (isd U) (tl r2); r3 = drop (length y) (tl r2)
      in if 1 \<le> length d \<and> length d \<le> 2 \<and> r1 \<noteq> [] \<and> hd r1 = 47 \<and>
            1 \<le> length m \<and> length m \<le> 2 \<and> r2 \<noteq> [] \<and> hd r2 = 47 \<and>
            2 \<le> length y \<and> length y \<le> 4 \<and> word_end U r3
         then Some (replace_date U N lang d m y, length d + length m + length y + 2)
         else None)"

definition expand_dates :: "unidata \<Rightarrow> num2words \<Rightarrow> utext \<Rightarrow> string \<Rightarrow> utext res" where
  "expand_dates U N t lang = re_sub U (match_date U N lang) False t"

definition preprocess_for_tts :: "unidata \<Rightarrow> num2words \<Rightarrow> utext \<Rightarrow> string \<Rightarrow> utext res" where
  "preprocess_for_tts U N t language =
     (let lang = resolve_number_language language in
      case expand_dates U N t lang of
        Inl e \<Rightarrow> Inl e
      | Inr t1 \<Rightarrow> map_sum id clean_punctuation (expand_numbers U N t1 lang))"

subsection \<open>Sentence splitting and chunking\<close>

text \<open>\<open>re.split("\\n{2,}", s)\<close>.\<close>

function para_split :: "utext \<Rightarrow> utext list" where
  "para_split [] = [[]]"
| "para_split (c # cs) =
     (if c = 10 \<and> cs \<noteq> [] \<and> hd cs = 10 then [] # para_split (dropWhile (\<lambda>x. x = 10) cs)
      else (case para_split cs of [] \<Rightarrow> [[c]] | w # ws \<Rightarrow> (c # w) # ws))"
  by pat_completeness auto
termination
  by (relation "measure length") (auto simp: le_imp_less_Suc length_dropWhile_le)

definition sentence_end :: "nat \<Rightarrow> bool" where
  "sentence_end c = (c = 46 \<or> c = 33 \<or> c = 63 \<or> c = 8230)"

text \<open>\<open>(?<=[.!?\<dots>])\\s+\<close>: the flag says whether the character before is one of the marks.\<close>

function sent_split :: "bool \<Rightarrow> utext \<Rightarrow> utext list" where
  "sent_split pe [] = [[]]"
| "sent_split pe (c # cs) =
     (if pe \<and> space_cp c then [] # sent_split False (dropWhile space_cp cs)
      else (case sent_split (sentence_end c) cs of [] \<Rightarrow> [[c]] | w # ws \<Rightarrow> (c # w) # ws))"
  by pat_completeness auto
termination
  by (relation "measure (\<lambda>(pe, s). length s)") (auto simp: le_imp_less_Suc length_dropWhile_le)

definition paragraph_sentences :: "utext \<Rightarrow> utext list" where
  "paragraph_sentences p = filter (\<lambda>s. s \<noteq> []) (map tstrip (sent_split False p))"

definition split_sentences :: "utext \<Rightarrow> utext list" where
  "split_sentences cleaned =
     concat (map (\<lambda>p. if paragraph_sentences p = [] then [p] else paragraph_sentences p)
       (filter (\<lambda>p. p \<noteq> []) (map tstrip (para_split cleaned))))"

text \<open>The slices of a sentence longer than the limit.\<close>

function hard_split :: "nat \<Rightarrow> utext \<Rightarrow> utext list" where
  "hard_split m s =
     (if m = 0 \<or> s = [] then []
      else (if tstrip (take m s) = [] then [] else [tstrip (take m s)]) @ hard_split m (drop m s))"
  by pat_completeness auto
termination
  by (relation "measure (\<lambda>(m, s). length s)") auto

declare hard_split.simps [simp del]

definition flush :: "utext list \<Rightarrow> utext list" where
  "flush cur = (if cur = [] then [] else [tstrip (join [32] cur)])"

fun chunk_loop :: "nat \<Rightarrow> int \<Rightarrow> utext list \<Rightarrow> utext list \<Rightarrow> utext list" where
  "chunk_loop m k cur [] = flush cur"
| "chunk_loop m k cur (s # ss) =
     (if m < length s then flush cur @ hard_split m s @ chunk_loop m k [] ss
      else if cur \<noteq> [] \<and> (k \<le> int (length cur) \<or> m < length (tstrip (join [32] (cur @ [s]))))
      then flush cur @ chunk_loop m k [s] ss
      else chunk_loop m k (cur @ [s]) ss)"

definition split_text_semantic :: "utext \<Rightarrow> nat \<Rightarrow> int \<Rightarrow> utext list res" where
  "split_text_semantic t max_chars max_sentences =
     (let cleaned = tstrip t in
      if cleaned = [] then Inr []
      else if max_chars = 0 then Inl (ValueErr ''range() arg 3 must not be zero'')
      else Inr (chunk_loop max_chars max_sentences [] (split_sentences cleaned)))"

subsection \<open>No text is lost\<close>

abbreviation nonspace :: "utext \<Rightarrow> utext" where
  "nonspace \<equiv> filter (\<lambda>c. \<not> space_cp c)"

definition good_sentence :: "utext \<Rightarrow> bool" where
  "good_sentence s = (s \<noteq> [] \<and> tstrip s = s)"

lemma space_cp_consts [simp]: "space_cp 32" "space_cp 10"
  by (simp_all add: space_cp_def)

lemma nonspace_tstrip [simp]: "nonspace (tstrip s) = nonspace s"
  unfolding tstrip_def by (rule filter_strip_by)

lemma tstrip_idem [simp]: "tstrip (tstrip s) = tstrip s"
  by (simp add: tstrip_def)

lemma good_sentence_nonspace: "good_sentence s \<Longrightarrow> nonspace s \<noteq> []"
  unfolding good_sentence_def tstrip_def by (metis filter_empty_conv strip_by_Nil_iff)

lemma tstrip_Nil_iff: "tstrip s = [] \<longleftrightarrow> nonspace s = []"
  by (simp add: tstrip_def strip_by_Nil_iff filter_empty_conv)

lemma good_tstrip: "tstrip s \<noteq> [] \<Longrightarrow> good_sentence (tstrip s)"
  by (simp add: good_sentence_def)

lemma concat_nonspace_tstrip:
  "concat (map nonspace (filter (\<lambda>s. s \<noteq> []) (map tstrip xs))) = concat (map nonspace xs)"
  by (induction xs) (auto simp: tstrip_Nil_iff)

lemma dropWhile_newlines: "nonspace (dropWhile (\<lambda>x. x = 10) cs) = nonspace cs"
  by (induction cs) auto

lemma para_split_content: "concat (map nonspace (para_split s)) = nonspace s"
proof (induction s rule: para_split.induct)
  case (2 c cs)
  then show ?case
    by (cases "para_split cs") (auto simp: dropWhile_newlines)
qed simp

lemma sent_split_content: "concat (map nonspace (sent_split pe s)) = nonspace s"
proof (induction pe s rule: sent_split.induct)
  case (2 pe c cs)
  then show ?case
    by (cases "sent_split (sentence_end c) cs") (auto simp: filter_dropWhile)
qed simp

lemma paragraph_sentences_content: "concat (map nonspace (paragraph_sentences p)) = nonspace p"
  by (simp add: paragraph_sentences_def concat_nonspace_tstrip sent_split_content)

lemma concat_map_concat: "concat (map f (concat (map g xs))) = concat (map (\<lambda>x. concat (map f (g x))) xs)"
  by (induction xs) auto

lemma split_sentences_content: "concat (map nonspace (split_sentences s)) = nonspace s"
proof -
  have "concat (map nonspace (if paragraph_sentences p = [] then [p] else paragraph_sentences p)) = nonspace p" for p
    by (simp add: paragraph_sentences_content)
  then have "concat (map nonspace (split_sentences s)) =
      concat (map nonspace (filter (\<lambda>p. p \<noteq> []) (map tstrip (para_split s))))"
    unfolding split_sentences_def by (simp only: concat_map_concat)
  then show ?thesis by (simp only: concat_nonspace_tstrip para_split_content)
qed

lemma split_sentences_good: "s \<in> set (split_sentences t) \<Longrightarrow> good_sentence s"
  by (auto simp: split_sentences_def paragraph_sentences_def good_sentence_def split: if_splits)

lemma hard_split_content: "0 < m \<Longrightarrow> concat (map nonspace (hard_split m s)) = nonspace s"
proof (induction m s rule: hard_split.induct)
  case (1 m s)
  have split: "nonspace (take m s) @ nonspace (drop m s) = nonspace s"
    by (metis append_take_drop_id filter_append)
  show ?case
    using 1 split by (subst hard_split.simps) (auto simp: tstrip_Nil_iff)
qed

lemma hard_split_bound: "c \<in> set (hard_split m s) \<Longrightarrow> good_sentence c \<and> length c \<le> m"
proof (induction m s rule: hard_split.induct)
  case (1 m s)
  have "length (tstrip (take m s)) \<le> length (take m s)"
    unfolding tstrip_def by (rule length_strip_by)
  then have "length (tstrip (take m s)) \<le> m" by simp
  then have g: "tstrip (take m s) \<noteq> [] \<Longrightarrow> good_sentence (tstrip (take m s)) \<and> length (tstrip (take m s)) \<le> m"
    by (simp add: good_tstrip)
  have "m \<noteq> 0" "s \<noteq> []" using "1.prems" by (auto simp: hard_split.simps [of m s] split: if_splits)
  with "1.prems" have "c \<in> set (hard_split m (drop m s)) \<or> (tstrip (take m s) \<noteq> [] \<and> c = tstrip (take m s))"
    by (auto simp: hard_split.simps [of m s] split: if_splits)
  with "1.IH" \<open>m \<noteq> 0\<close> \<open>s \<noteq> []\<close> g show ?case by blast
qed

lemma flush_content: "concat (map nonspace (flush cur)) = concat (map nonspace cur)"
  by (simp add: flush_def filter_join)

lemma chunk_loop_content:
  "0 < m \<Longrightarrow> concat (map nonspace (chunk_loop m k cur ss)) = concat (map nonspace (cur @ ss))"
  by (induction m k cur ss rule: chunk_loop.induct) (auto simp: flush_content hard_split_content)

lemma split_text_semantic_content:
  "split_text_semantic t m k = Inr cs \<Longrightarrow> concat (map nonspace cs) = nonspace t"
  by (auto simp: split_text_semantic_def Let_def chunk_loop_content split_sentences_content tstrip_Nil_iff split: if_splits)

lemma flush_bound:
  assumes "\<forall>s\<in>set cur. good_sentence s" "length (tstrip (join [32] cur)) \<le> m" "c \<in> set (flush cur)"
  shows "good_sentence c \<and> length c \<le> m"
proof -
  have c: "c = tstrip (join [32] cur)" "cur \<noteq> []" using assms(3) by (auto simp: flush_def split: if_splits)
  then have "concat (map nonspace cur) \<noteq> []"
    using assms(1) good_sentence_nonspace by (cases cur) auto
  then have "nonspace (join [32] cur) \<noteq> []" by (simp add: filter_join)
  then have "tstrip (join [32] cur) \<noteq> []" by (simp add: tstrip_Nil_iff)
  with assms(2) c show ?thesis by (simp add: good_tstrip)
qed

definition fit :: "nat \<Rightarrow> utext \<Rightarrow> bool" where
  "fit m c = (good_sentence c \<and> length c \<le> m)"

lemma flush_fit:
  "\<forall>s\<in>set cur. good_sentence s \<Longrightarrow> length (tstrip (join [32] cur)) \<le> m \<Longrightarrow> list_all (fit m) (flush cur)"
  unfolding list_all_iff fit_def using flush_bound by blast

lemma hard_split_fit: "list_all (fit m) (hard_split m s)"
  unfolding list_all_iff fit_def using hard_split_bound by blast

lemma chunk_loop_bound:
  "\<forall>s\<in>set cur. good_sentence s \<Longrightarrow> \<forall>s\<in>set ss. good_sentence s \<Longrightarrow>
   length (tstrip (join [32] cur)) \<le> m \<Longrightarrow> list_all (fit m) (chunk_loop m k cur ss)"
proof (induction ss arbitrary: cur)
  case Nil
  then show ?case by (simp add: flush_fit)
next
  case (Cons s ss)
  have s: "good_sentence s" "tstrip s = s" and ss: "\<forall>x\<in>set ss. good_sentence x"
    using Cons.prems(2) by (auto simp: good_sentence_def)
  have fl: "list_all (fit m) (flush cur)"
    using Cons.prems by (intro flush_fit)
  have empty: "list_all (fit m) (chunk_loop m k [] ss)"
    using Cons.IH [of "[]"] ss by (simp add: tstrip_def)
  have single: "list_all (fit m) (chunk_loop m k [s] ss)" if "\<not> m < length s"
    using Cons.IH [of "[s]"] that s ss by simp
  have more: "list_all (fit m) (chunk_loop m k (cur @ [s]) ss)"
    if "length (tstrip (join [32] (cur @ [s]))) \<le> m"
    using Cons.IH [of "cur @ [s]"] that s ss Cons.prems(1) by simp
  show ?case
    using fl empty single more s hard_split_fit [of m s]
    by (cases "cur = []") (auto simp: not_less)
qed

text \<open>
  C7: the chunker loses and invents nothing. The characters of the chunks that are no whitespace are,
  in order, those of the text; every chunk is non-empty, stripped and within the limit.
\<close>

theorem split_text_semantic_correct:
  assumes "0 < max_chars"
  shows "\<exists>chunks. split_text_semantic t max_chars k = Inr chunks \<and>
    concat (map nonspace chunks) = nonspace t \<and>
    (\<forall>c\<in>set chunks. c \<noteq> [] \<and> tstrip c = c \<and> length c \<le> max_chars)"
proof (cases "tstrip t = []")
  case True
  then show ?thesis by (simp add: split_text_semantic_def tstrip_Nil_iff)
next
  case False
  let ?ss = "split_sentences (tstrip t)"
  let ?cs = "chunk_loop max_chars k [] ?ss"
  have "split_text_semantic t max_chars k = Inr ?cs"
    using False assms by (simp add: split_text_semantic_def)
  moreover have "concat (map nonspace ?cs) = nonspace t"
    using assms by (simp add: chunk_loop_content split_sentences_content)
  moreover have "list_all (fit max_chars) ?cs"
    using split_sentences_good by (intro chunk_loop_bound) (auto simp: tstrip_def)
  ultimately show ?thesis by (auto simp: list_all_iff fit_def good_sentence_def)
qed

theorem split_text_semantic_correct_witness:
  "\<exists>chunks. split_text_semantic (ustr ''Ciao a tutti. Fine!'') 8 3 = Inr chunks \<and>
    concat (map nonspace chunks) = nonspace (ustr ''Ciao a tutti. Fine!'') \<and>
    (\<forall>c\<in>set chunks. c \<noteq> [] \<and> tstrip c = c \<and> length c \<le> 8)"
  by (rule split_text_semantic_correct) simp

subsection \<open>Grouping of sentences\<close>

text \<open>
  What the loop computes, without its accumulator: a partition of the sentences into groups,
  each rendered as one chunk, and over-long sentences, each rendered as its slices.
\<close>

datatype group = Grp "utext list" | Long utext

fun group_sentences :: "group \<Rightarrow> utext list" where
  "group_sentences (Grp ss) = ss"
| "group_sentences (Long s) = [s]"

fun render :: "nat \<Rightarrow> group \<Rightarrow> utext list" where
  "render m (Grp ss) = [tstrip (join [32] ss)]"
| "render m (Long s) = hard_split m s"

fun group_ok :: "nat \<Rightarrow> int \<Rightarrow> group \<Rightarrow> bool" where
  "group_ok m k (Grp ss) = (ss \<noteq> [] \<and> int (length ss) \<le> max 1 k)"
| "group_ok m k (Long s) = (m < length s)"

text \<open>Two neighbouring groups could not have been merged even by one sentence.\<close>

fun greedy :: "nat \<Rightarrow> int \<Rightarrow> group list \<Rightarrow> bool" where
  "greedy m k (Grp ss # Grp ts # gs) =
     ((k \<le> int (length ss) \<or> m < length (tstrip (join [32] (ss @ [hd ts])))) \<and> greedy m k (Grp ts # gs))"
| "greedy m k (g # gs) = greedy m k gs"
| "greedy m k [] = True"

definition groups_of :: "nat \<Rightarrow> int \<Rightarrow> utext list \<Rightarrow> group list \<Rightarrow> bool" where
  "groups_of m k ss gs \<longleftrightarrow>
     concat (map group_sentences gs) = ss \<and> list_all (group_ok m k) gs \<and> greedy m k gs"

lemma greedy_Long: "greedy m k (g # Long s # gs) = greedy m k gs"
  by (cases g) auto

lemma chunk_loop_groups:
  "int (length cur) \<le> max 1 k \<Longrightarrow>
   \<exists>gs. groups_of m k (cur @ ss) gs \<and> chunk_loop m k cur ss = concat (map (render m) gs) \<and>
     (cur \<noteq> [] \<longrightarrow> (\<exists>ts gs'. gs = Grp (cur @ ts) # gs'))"
proof (induction ss arbitrary: cur)
  case Nil
  show ?case
  proof (cases "cur = []")
    case True
    then show ?thesis by (intro exI [of _ "[]"]) (simp add: groups_of_def flush_def)
  next
    case False
    with Nil show ?thesis
      by (intro exI [of _ "[Grp cur]"]) (simp add: groups_of_def flush_def)
  qed
next
  case (Cons s ss)
  have pre: "flush cur = concat (map (render m) (if cur = [] then [] else [Grp cur]))"
    by (simp add: flush_def)
  consider (long) "m < length s"
    | (full) "\<not> m < length s" "cur \<noteq> []" "k \<le> int (length cur) \<or> m < length (tstrip (join [32] (cur @ [s])))"
    | (add) "\<not> m < length s" "cur = [] \<or> \<not> k \<le> int (length cur) \<and> \<not> m < length (tstrip (join [32] (cur @ [s])))"
    by blast
  then show ?case
  proof cases
    case long
    obtain gs where gs: "groups_of m k ss gs" "chunk_loop m k [] ss = concat (map (render m) gs)"
      using Cons.IH [of "[]"] by (auto simp: le_max_iff_disj)
    let ?gs = "(if cur = [] then [] else [Grp cur]) @ Long s # gs"
    have "groups_of m k (cur @ s # ss) ?gs"
      using gs(1) long Cons.prems by (auto simp: groups_of_def greedy_Long)
    moreover have "chunk_loop m k cur (s # ss) = concat (map (render m) ?gs)"
      using long gs(2) pre by simp
    ultimately show ?thesis by (intro exI [of _ ?gs]) auto
  next
    case full
    obtain ts gs where gs: "groups_of m k (s # ss) (Grp (s # ts) # gs)"
        "chunk_loop m k [s] ss = concat (map (render m) (Grp (s # ts) # gs))"
      using Cons.IH [of "[s]"] by auto
    let ?gs = "Grp cur # Grp (s # ts) # gs"
    have "groups_of m k (cur @ s # ss) ?gs"
      using gs(1) full Cons.prems by (auto simp: groups_of_def)
    moreover have "chunk_loop m k cur (s # ss) = concat (map (render m) ?gs)"
      using full gs(2) pre by simp
    ultimately show ?thesis by (intro exI [of _ ?gs]) auto
  next
    case add
    have "int (length (cur @ [s])) \<le> max 1 k" using add by auto
    from Cons.IH [OF this] obtain ts gs where gs: "groups_of m k (cur @ s # ss) (Grp (cur @ s # ts) # gs)"
        "chunk_loop m k (cur @ [s]) ss = concat (map (render m) (Grp (cur @ s # ts) # gs))"
      by auto
    have "chunk_loop m k cur (s # ss) = chunk_loop m k (cur @ [s]) ss"
      using add by auto
    with gs show ?thesis by (intro exI [of _ "Grp (cur @ s # ts) # gs"]) auto
  qed
qed

text \<open>
  Sentences stay whole. The chunks of a text are the renderings of a partition of its
  sentences, in order, into groups of at most \<open>max_sentences\<close> sentences joined by a blank, and
  sentences longer than the limit, which alone are sliced; and the partition is greedy: no chunk
  could have taken in the first sentence of the next one.
\<close>

theorem split_text_semantic_groups:
  assumes "0 < max_chars" "tstrip t \<noteq> []"
  shows "\<exists>gs. groups_of max_chars k (split_sentences (tstrip t)) gs \<and>
    split_text_semantic t max_chars k = Inr (concat (map (render max_chars) gs))"
proof -
  obtain gs where "groups_of max_chars k (split_sentences (tstrip t)) gs"
      "chunk_loop max_chars k [] (split_sentences (tstrip t)) = concat (map (render max_chars) gs)"
    using chunk_loop_groups [of "[]" k max_chars "split_sentences (tstrip t)"] by (auto simp: le_max_iff_disj)
  with assms show ?thesis by (auto simp: split_text_semantic_def)
qed

theorem split_text_semantic_groups_witness:
  "\<exists>gs. groups_of 8 2 (split_sentences (tstrip (ustr ''Uno. Due. Tre''))) gs \<and>
    split_text_semantic (ustr ''Uno. Due. Tre'') 8 2 = Inr (concat (map (render 8) gs))"
  by (rule split_text_semantic_groups)
     (simp_all add: tstrip_def strip_by_def ustr_def space_cp_def)

subsection \<open>Clean text\<close>

text \<open>No two neighbouring characters the clean-up would merge.\<close>

definition settled :: "nat \<Rightarrow> nat \<Rightarrow> bool" where
  "settled a b \<longleftrightarrow> \<not> (space_cp a \<and> space_cp b) \<and> \<not> (a = b \<and> (is_dot a \<or> is_mark a))"

definition clean_text :: "utext \<Rightarrow> bool" where
  "clean_text t \<longleftrightarrow> successively settled t \<and> (\<forall>c\<in>set t. space_cp c \<longrightarrow> c = 32) \<and> tstrip t = t"

lemma successively_dropWhile: "successively R xs \<Longrightarrow> successively R (dropWhile P xs)"
  by (metis dropWhile_eq_drop successively_append_iff takeWhile_dropWhile_id)

lemma successively_strip_by: "successively R xs \<Longrightarrow> successively R (strip_by P xs)"
  unfolding strip_by_def
  by (metis successively_rev rev_rev_ident successively_dropWhile)


definition blanks_only :: "utext \<Rightarrow> bool" where
  "blanks_only t = (\<forall>c\<in>set t. space_cp c \<longrightarrow> c = 32)"

lemma set_sub_spaces: "c \<in> set (sub_spaces t) \<Longrightarrow> space_cp c \<Longrightarrow> c = 32"
  by (induction t rule: sub_spaces.induct) (auto split: if_splits)

lemma hd_sub_spaces: "sub_spaces (c # cs) = x # xs \<Longrightarrow> x = (if space_cp c then 32 else c)"
  by (simp split: if_splits)

lemma sub_spaces_settled: "successively (\<lambda>a b. \<not> (space_cp a \<and> space_cp b)) (sub_spaces t)"
proof (induction t rule: sub_spaces.induct)
  case (2 c cs)
  show ?case
  proof (cases "space_cp c")
    case True
    have "\<not> space_cp (hd (sub_spaces (dropWhile space_cp cs)))" if ne: "sub_spaces (dropWhile space_cp cs) \<noteq> []"
    proof -
      obtain x xs where x: "dropWhile space_cp cs = x # xs"
        using ne by (metis list.exhaust sub_spaces.simps(1))
      then have "\<not> space_cp x" by (simp add: dropWhile_eq_Cons_conv)
      with x show ?thesis by simp
    qed
    with True 2 show ?thesis by (auto simp: successively_Cons)
  next
    case False
    with 2 show ?thesis by (auto simp: successively_Cons)
  qed
qed simp

lemma set_dedup: "set (dedup P xs) \<subseteq> set xs"
  by (induction P xs rule: dedup.induct) (auto dest: set_dropWhileD)

lemma hd_dedup: "hd (dedup P xs) = hd xs"
  by (cases xs) auto

lemma dedup_Nil_iff [simp]: "dedup P xs = [] \<longleftrightarrow> xs = []"
  by (cases xs) auto

lemma successively_dropWhile_eq:
  "successively R (c # cs) \<Longrightarrow> successively R (c # dropWhile (\<lambda>x. x = c) cs)"
  by (induction cs) (auto simp: successively_Cons split: if_splits)

lemma dedup_successively: "successively R xs \<Longrightarrow> successively R (dedup P xs)"
proof (induction P xs rule: dedup.induct)
  case (2 P c cs)
  have "successively R (c # dropWhile (\<lambda>x. x = c) cs)"
    using "2.prems" by (rule successively_dropWhile_eq)
  with 2 show ?case by (auto simp: successively_Cons hd_dedup)
qed simp

lemma dedup_settled: "successively (\<lambda>a b. \<not> (a = b \<and> P a)) (dedup P xs)"
proof (induction P xs rule: dedup.induct)
  case (2 P c cs)
  have "hd (dropWhile (\<lambda>x. x = c) cs) \<noteq> c" if "dropWhile (\<lambda>x. x = c) cs \<noteq> []"
    using hd_dropWhile [OF that] by simp
  with 2 show ?case by (auto simp: successively_Cons hd_dedup simp del: dropWhile_eq_Nil_conv)
qed simp

lemma dedup_id: "successively (\<lambda>a b. \<not> (a = b \<and> P a)) xs \<Longrightarrow> dedup P xs = xs"
proof (induction P xs rule: dedup.induct)
  case (2 P c cs)
  have "dropWhile (\<lambda>x. x = c) cs = cs" if "P c"
    using that "2.prems" by (cases cs) auto
  with 2 show ?case by (auto simp: successively_Cons)
qed simp

lemma sub_spaces_id:
  "successively (\<lambda>a b. \<not> (space_cp a \<and> space_cp b)) t \<Longrightarrow> blanks_only t \<Longrightarrow> sub_spaces t = t"
proof (induction t rule: sub_spaces.induct)
  case (2 c cs)
  have "dropWhile space_cp cs = cs" if "space_cp c"
    using that "2.prems"(1) by (cases cs) auto
  with 2 show ?case by (auto simp: successively_Cons blanks_only_def)
qed simp

lemma sub_linebreaks_id: "10 \<notin> set t \<Longrightarrow> sub_linebreaks t = t"
proof (induction t rule: sub_linebreaks.induct)
  case (2 c cs)
  then have "10 \<notin> set (takeWhile space_cp cs)" by (auto dest: set_takeWhileD)
  with 2 show ?case by (auto simp: Let_def)
qed simp

lemma blanks_only_no_newline: "blanks_only t \<Longrightarrow> 10 \<notin> set t"
  by (auto simp: blanks_only_def)

lemma successively_conj: "successively R xs \<Longrightarrow> successively S xs \<Longrightarrow> successively (\<lambda>a b. R a b \<and> S a b) xs"
  by (induction xs rule: induct_list012) auto

lemma clean_punctuation_settles:
  "clean_text (clean_punctuation t) \<and>
   clean_punctuation (clean_punctuation t) = clean_punctuation t \<and>
   clean_punctuation t = tstrip (dedup is_mark (dedup is_dot (sub_spaces t)))"
proof -
  let ?u = "dedup is_mark (dedup is_dot (sub_spaces t))"
  have bl: "blanks_only ?u"
    unfolding blanks_only_def using set_dedup set_sub_spaces by blast
  have cp: "clean_punctuation t = tstrip ?u"
    by (simp add: clean_punctuation_def Let_def sub_linebreaks_id blanks_only_no_newline bl)
  have s1: "successively (\<lambda>a b. \<not> (space_cp a \<and> space_cp b)) ?u"
    by (intro dedup_successively sub_spaces_settled)
  have s2: "successively (\<lambda>a b. \<not> (a = b \<and> is_dot a)) ?u"
    by (intro dedup_successively dedup_settled)
  have s3: "successively (\<lambda>a b. \<not> (a = b \<and> is_mark a)) ?u"
    by (rule dedup_settled)
  have t1: "successively (\<lambda>a b. \<not> (space_cp a \<and> space_cp b)) (tstrip ?u)"
    and t2: "successively (\<lambda>a b. \<not> (a = b \<and> is_dot a)) (tstrip ?u)"
    and t3: "successively (\<lambda>a b. \<not> (a = b \<and> is_mark a)) (tstrip ?u)"
    unfolding tstrip_def by (intro successively_strip_by s1 s2 s3)+
  have bt: "blanks_only (tstrip ?u)"
    using bl set_strip_by by (fastforce simp: blanks_only_def tstrip_def)
  have "successively settled (tstrip ?u)"
    using successively_conj [OF t1 successively_conj [OF t2 t3]]
    by (rule successively_mono) (auto simp: settled_def)
  then have "clean_text (clean_punctuation t)"
    using bt by (simp add: clean_text_def cp blanks_only_def)
  moreover have "clean_punctuation (tstrip ?u) = tstrip ?u"
    unfolding clean_punctuation_def Let_def sub_spaces_id [OF t1 bt] dedup_id [OF t2] dedup_id [OF t3]
      sub_linebreaks_id [OF blanks_only_no_newline [OF bt]] by simp
  ultimately show ?thesis by (simp add: cp)
qed


text \<open>
  The clean-up reaches its normal form in one pass and is idempotent. Its result is stripped,
  has no whitespace but single blanks, and no run of dots, commas, semicolons, colons,
  exclamation or question marks; a text of that form is left as it is. In particular the result has
  no line break, so the pass for a line break after a mark never finds one.
\<close>

theorem clean_punctuation_normal:
  "clean_text (clean_punctuation t) \<and>
   clean_punctuation (clean_punctuation t) = clean_punctuation t \<and>
   clean_punctuation t = tstrip (dedup is_mark (dedup is_dot (sub_spaces t)))"
  by (rule clean_punctuation_settles)

subsection \<open>Dates\<close>

lemma re_sub_plain: "\<forall>c\<in>set t. \<not> isd U c \<Longrightarrow> re_sub U M pw t = Inr t"
  by (induction t arbitrary: pw) auto

lemma re_sub_prefix:
  "\<forall>c\<in>set pre. \<not> isd U c \<Longrightarrow> pre \<noteq> [] \<Longrightarrow>
   re_sub U M pw (pre @ t) = map_sum id ((@) pre) (re_sub U M (ud_word U (last pre)) t)"
proof (induction pre arbitrary: pw)
  case (Cons c pre)
  show ?case
  proof (cases "pre = []")
    case True
    with Cons.prems show ?thesis by (cases "re_sub U M (ud_word U c) t") auto
  next
    case False
    with Cons show ?thesis by (cases "re_sub U M (ud_word U (last pre)) t") auto
  qed
qed simp

lemma takeWhile_token:
  "\<forall>c\<in>set d. P c \<Longrightarrow> r = [] \<or> \<not> P (hd r) \<Longrightarrow> takeWhile P (d @ r) = d"
  by (induction d) (auto simp: takeWhile_eq_Nil_iff)

lemma match_date_token:
  assumes "\<forall>c\<in>set (d @ m @ y). isd U c" "\<not> isd U 47" "\<forall>c\<in>set post. \<not> isd U c" "word_end U post"
    and "1 \<le> length d" "length d \<le> 2" "1 \<le> length m" "length m \<le> 2" "2 \<le> length y" "length y \<le> 4"
  shows "match_date U N lang (d @ 47 # m @ 47 # y @ post) =
    Some (replace_date U N lang d m y, length d + length m + length y + 2)"
proof -
  have "takeWhile (isd U) (d @ 47 # m @ 47 # y @ post) = d"
    "takeWhile (isd U) (m @ 47 # y @ post) = m"
    "takeWhile (isd U) (y @ post) = y"
    using assms(1-3) by (auto intro!: takeWhile_token) (cases post; simp)
  with assms(4-) show ?thesis by (simp add: match_date_def Let_def)
qed

text \<open>
  A date token \<open>d/m/y\<close> with one or two digits, one or two digits and two to four digits,
  between characters that make it a word of its own, is replaced: a calendar date by its words, with
  2000 added to a year below 100, and anything else by the digits and slashes as they were; the text
  around it stays. The two exceptions that can escape are those of the number words.
\<close>

theorem expand_dates_token:
  assumes "\<forall>c\<in>set (d @ m @ y). isd U c" "\<not> isd U 47"
    and "\<forall>c\<in>set (pre @ post). \<not> isd U c" "pre = [] \<or> \<not> ud_word U (last pre)" "word_end U post"
    and "1 \<le> length d" "length d \<le> 2" "1 \<le> length m" "length m \<le> 2" "2 \<le> length y" "length y \<le> 4"
  shows "expand_dates U N (pre @ d @ 47 # m @ 47 # y @ post) lang =
    (let Y = (if dval U y < 100 then dval U y + 2000 else dval U y) in
     if valid_date Y (dval U m) (dval U d)
     then map_sum id (\<lambda>w. pre @ w @ post) (date_to_words N (dval U d) (dval U m) Y lang)
     else Inr (pre @ d @ 47 # m @ 47 # y @ post))"
proof -
  obtain c d' where d: "d = c # d'" using assms(6) by (cases d) auto
  have md: "match_date U N lang (d @ 47 # m @ 47 # y @ post) =
      Some (replace_date U N lang d m y, length d + length m + length y + 2)"
    using assms by (intro match_date_token) auto
  have tok: "re_sub U (match_date U N lang) False (d @ 47 # m @ 47 # y @ post) =
      map_sum id (\<lambda>w. w @ post) (replace_date U N lang d m y)"
    using md assms(1,3) by (cases "replace_date U N lang d m y") (simp_all add: d re_sub_plain)
  have "re_sub U (match_date U N lang) False (pre @ d @ 47 # m @ 47 # y @ post) =
      map_sum id (\<lambda>w. pre @ w @ post) (replace_date U N lang d m y)"
  proof (cases "pre = []")
    case True
    with tok show ?thesis by simp
  next
    case False
    with assms(3,4) have "re_sub U (match_date U N lang) False (pre @ d @ 47 # m @ 47 # y @ post) =
        map_sum id ((@) pre) (map_sum id (\<lambda>w. w @ post) (replace_date U N lang d m y))"
      by (simp add: re_sub_prefix tok)
    then show ?thesis by (cases "replace_date U N lang d m y") auto
  qed
  then show ?thesis by (simp add: expand_dates_def replace_date_def Let_def)
qed

definition ascii_unidata :: unidata where
  "ascii_unidata = \<lparr>ud_digit = (\<lambda>c. if 48 \<le> c \<and> c \<le> 57 then Some (c - 48) else None),
     ud_word = (\<lambda>c. (48 \<le> c \<and> c \<le> 57) \<or> (65 \<le> c \<and> c \<le> 90) \<or> (97 \<le> c \<and> c \<le> 122) \<or> c = 95)\<rparr>"

theorem expand_dates_token_witness:
  "expand_dates ascii_unidata None (ustr ''il '' @ ustr ''29'' @ 47 # ustr ''2'' @ 47 # ustr ''24'' @ ustr ''.'') ''it'' =
     Inr (ustr ''il 29 febbraio 2024.'')"
proof -
  have "expand_dates ascii_unidata None (ustr ''il '' @ ustr ''29'' @ 47 # ustr ''2'' @ 47 # ustr ''24'' @ ustr ''.'') ''it'' =
    (let Y = (if dval ascii_unidata (ustr ''24'') < 100 then dval ascii_unidata (ustr ''24'') + 2000 else dval ascii_unidata (ustr ''24'')) in
     if valid_date Y (dval ascii_unidata (ustr ''2'')) (dval ascii_unidata (ustr ''29''))
     then map_sum id (\<lambda>w. ustr ''il '' @ w @ ustr ''.'')
       (date_to_words None (dval ascii_unidata (ustr ''29'')) (dval ascii_unidata (ustr ''2'')) Y ''it'')
     else Inr (ustr ''il '' @ ustr ''29'' @ 47 # ustr ''2'' @ 47 # ustr ''24'' @ ustr ''.''))"
    by (rule expand_dates_token) (simp_all add: ascii_unidata_def ustr_def isd_def)
  also have "\<dots> = Inr (ustr ''il 29 febbraio 2024.'')"
    by (simp add: ascii_unidata_def ustr_def dval_def valid_date_def days_in_month_def leap_def
        date_to_words_def month_name_def month_names_def number_to_words_def int_str_def nat_str.simps Let_def)
  finally show ?thesis .
qed

text \<open>A text without digits only has its punctuation cleaned, in every language.\<close>

lemma preprocess_no_digits:
  "\<forall>c\<in>set t. \<not> isd U c \<Longrightarrow> preprocess_for_tts U N t language = Inr (clean_punctuation t)"
  by (simp add: preprocess_for_tts_def expand_dates_def expand_numbers_def re_sub_plain Let_def)

lemma preprocess_clean: "preprocess_for_tts U N t language = Inr t' \<Longrightarrow> \<exists>u. t' = clean_punctuation u"
  by (auto simp: preprocess_for_tts_def Let_def map_sum_def split: sum.splits)


lemma para_split_no_newline: "10 \<notin> set t \<Longrightarrow> para_split t = [t]"
  by (induction t rule: para_split.induct) auto

text \<open>
  After the pre-processing step the chunker never sees a paragraph: its text has no line break,
  so it is one paragraph, split at sentence ends only.
\<close>

theorem preprocess_single_paragraph:
  assumes "preprocess_for_tts U N t language = Inr t'"
  shows "para_split (tstrip t') = [t'] \<and> clean_text t'"
proof -
  obtain u where "t' = clean_punctuation u" using preprocess_clean [OF assms] by blast
  then have c: "clean_text t'" using clean_punctuation_settles by blast
  then have "10 \<notin> set t'" "tstrip t' = t'" by (auto simp: clean_text_def)
  with c show ?thesis by (simp add: para_split_no_newline)
qed

theorem preprocess_single_paragraph_witness:
  "para_split (tstrip (ustr ''Uno. Due.'')) = [ustr ''Uno. Due.''] \<and> clean_text (ustr ''Uno. Due.'')"
  by (rule preprocess_single_paragraph [of ascii_unidata None "ustr ''Uno.'' @ [10, 10] @ ustr ''Due.''" "''it''"])
     (simp add: preprocess_no_digits ascii_unidata_def isd_def ustr_def clean_punctuation_def is_dot_def is_mark_def
        tstrip_def strip_by_def space_cp_def Let_def)


end
