(* ===== verification/VoiceRecords.thy ===== *)
theory VoiceRecords
  imports Errors "HOL-Library.Monad_Syntax" "HOL-Library.Char_ord" "HOL-Library.List_Lexorder"
begin

text \<open>
  \<open>voice_store/records.py\<close>: the voice record and the validation of ids; and what the metadata
  repository needs of the standard library, \<open>datetime.isoformat\<close> and its inverse, and the
  conversions \<open>str()\<close>, \<open>float()\<close>, \<open>int()\<close>, \<open>bool()\<close> of JSON values.
\<close>

subsection \<open>Timestamps\<close>

text \<open>The offset from UTC is in seconds; \<open>None\<close> is a naive timestamp.\<close>

record datetime =
  dt_year :: nat
  dt_month :: nat
  dt_day :: nat
  dt_hour :: nat
  dt_minute :: nat
  dt_second :: nat
  dt_micro :: nat
  dt_offset :: "int option"

definition valid_datetime :: "datetime \<Rightarrow> bool" where
  "valid_datetime t \<longleftrightarrow> valid_date (dt_year t) (dt_month t) (dt_day t) \<and> dt_hour t < 24 \<and>
     dt_minute t < 60 \<and> dt_second t < 60 \<and> dt_micro t < 1000000 \<and>
     (case dt_offset t of None \<Rightarrow> True | Some off \<Rightarrow> - 86400 < off \<and> off < 86400)"

fun fixed :: "nat \<Rightarrow> nat \<Rightarrow> string" where
  "fixed 0 n = []"
| "fixed (Suc w) n = fixed w (n div 10) @ [digit_char (n mod 10)]"

definition offset_str :: "int \<Rightarrow> string" where
  "offset_str off = (let a = nat \<bar>off\<bar> in
     (if off < 0 then ''-'' else ''+'') @ fixed 2 (a div 3600) @ '':'' @ fixed 2 (a div 60 mod 60) @
     (if a mod 60 = 0 then [] else '':'' @ fixed 2 (a mod 60)))"

definition isoformat :: "datetime \<Rightarrow> string" where
  "isoformat t = fixed 4 (dt_year t) @ ''-'' @ fixed 2 (dt_month t) @ ''-'' @ fixed 2 (dt_day t) @ ''T'' @
     fixed 2 (dt_hour t) @ '':'' @ fixed 2 (dt_minute t) @ '':'' @ fixed 2 (dt_second t) @
     (if dt_micro t = 0 then [] else ''.'' @ fixed 6 (dt_micro t)) @
     (case dt_offset t of None \<Rightarrow> [] | Some off \<Rightarrow> offset_str off)"

definition num :: "nat \<Rightarrow> string \<Rightarrow> (nat \<times> string) option" where
  "num w s = (if w \<le> length s \<and> list_all is_digit (take w s)
     then Some (digits_val (take w s), drop w s) else None)"

definition lit :: "char \<Rightarrow> string \<Rightarrow> string option" where
  "lit c s = (case s of [] \<Rightarrow> None | d # r \<Rightarrow> if d = c then Some r else None)"

definition fraction :: "string \<Rightarrow> (nat \<times> string) option" where
  "fraction s = (case lit (CHR ''.'') s of None \<Rightarrow> Some (0, s) | Some r \<Rightarrow> num 6 r)"

definition offset_abs :: "string \<Rightarrow> int option" where
  "offset_abs s = do {
     (h, s) \<leftarrow> num 2 s; s \<leftarrow> lit (CHR '':'') s; (m, s) \<leftarrow> num 2 s;
     if s = [] then Some (int (3600 * h + 60 * m))
     else do { s \<leftarrow> lit (CHR '':'') s; (x, s) \<leftarrow> num 2 s;
       if s = [] then Some (int (3600 * h + 60 * m + x)) else None } }"

definition offset_of :: "string \<Rightarrow> int option option" where
  "offset_of s = (if s = [] then Some None
     else case lit (CHR ''-'') s of
       Some r \<Rightarrow> map_option (\<lambda>a. Some (- a)) (offset_abs r)
     | None \<Rightarrow> (case lit (CHR ''+'') s of
         Some r \<Rightarrow> map_option Some (offset_abs r)
       | None \<Rightarrow> None))"

text \<open>
  \<open>datetime.fromisoformat\<close> on the shape \<open>isoformat\<close> writes. The other notations it accepts are a
  parameter of the model (field \<open>iso_other\<close> below).
\<close>

definition parse_iso :: "string \<Rightarrow> datetime option" where
  "parse_iso s = do {
     (y, s) \<leftarrow> num 4 s; s \<leftarrow> lit (CHR ''-'') s; (mo, s) \<leftarrow> num 2 s; s \<leftarrow> lit (CHR ''-'') s;
     (d, s) \<leftarrow> num 2 s; s \<leftarrow> lit (CHR ''T'') s; (h, s) \<leftarrow> num 2 s; s \<leftarrow> lit (CHR '':'') s;
     (mi, s) \<leftarrow> num 2 s; s \<leftarrow> lit (CHR '':'') s; (x, s) \<leftarrow> num 2 s; (us, s) \<leftarrow> fraction s;
     off \<leftarrow> offset_of s;
     (let t = \<lparr>dt_year = y, dt_month = mo, dt_day = d, dt_hour = h, dt_minute = mi, dt_second = x,
              dt_micro = us, dt_offset = off\<rparr>
      in if valid_datetime t then Some t else None) }"

lemma length_fixed [simp]: "length (fixed w n) = w"
  by (induction w arbitrary: n) auto

lemma fixed_digits: "list_all is_digit (fixed w n)"
proof (induction w arbitrary: n)
  case (Suc w)
  have "is_digit (digit_char (n mod 10))"
    by (simp add: is_digit_def of_char_digit_char del: digit_char.simps)
  with Suc show ?case by simp
qed simp

lemma digits_val_fixed: "n < 10 ^ w \<Longrightarrow> digits_val (fixed w n) = n"
proof (induction w arbitrary: n)
  case 0
  then show ?case by (simp add: digits_val_def)
next
  case (Suc w)
  have "n div 10 < 10 ^ w" using Suc.prems by (simp add: less_mult_imp_div_less mult.commute)
  then have "digits_val (fixed w (n div 10)) = n div 10" by (rule Suc.IH)
  then show ?case
    by (simp add: digits_val_snoc digit_val_def of_char_digit_char del: digit_char.simps)
qed

lemma num_fixed [simp]: "n < 10 ^ w \<Longrightarrow> num w (fixed w n @ s) = Some (n, s)"
  by (simp add: num_def digits_val_fixed fixed_digits)

lemma num_fixed_end [simp]: "n < 10 ^ w \<Longrightarrow> num w (fixed w n) = Some (n, [])"
  using num_fixed [of n w "[]"] by simp

lemma lit_Cons [simp]: "lit c (d # s) = (if d = c then Some s else None)"
  by (simp add: lit_def)

lemma lit_Nil [simp]: "lit c [] = None"
  by (simp add: lit_def)

lemma offset_abs_fields:
  "h < 100 \<Longrightarrow> m < 100 \<Longrightarrow> x < 100 \<Longrightarrow>
   offset_abs (fixed 2 h @ '':'' @ fixed 2 m @ (if x = 0 then [] else '':'' @ fixed 2 x)) =
     Some (int (3600 * h + 60 * m + x))"
  by (simp add: offset_abs_def)

lemma offset_abs_str:
  assumes "a < 86400"
  shows "offset_abs (fixed 2 (a div 3600) @ '':'' @ fixed 2 (a div 60 mod 60) @
     (if a mod 60 = 0 then [] else '':'' @ fixed 2 (a mod 60))) = Some (int a)"
proof -
  have b: "a div 3600 < 100" using assms by auto
  have c: "a div 60 mod 60 < 100" "a mod 60 < 100"
    by (rule less_trans [OF mod_less_divisor]; simp)+
  obtain q h m x where q: "q = a div 60" "x = a mod 60" "h = q div 60" "m = q mod 60" by blast
  have "a = 60 * q + x" "q = 60 * h + m" unfolding q by (rule mult_div_mod_eq [symmetric])+
  then have "3600 * h + 60 * m + x = a" by simp
  moreover have "a div 3600 = h" unfolding q by (simp add: div_mult2_eq [symmetric])
  ultimately have eq: "3600 * (a div 3600) + 60 * (a div 60 mod 60) + a mod 60 = a"
    by (simp only: q)
  show ?thesis
    using offset_abs_fields [OF b c] unfolding eq .
qed

lemma offset_of_str:
  assumes "- 86400 < off" "off < 86400"
  shows "offset_of (offset_str off) = Some (Some off)"
proof -
  define r where "r = fixed 2 (nat \<bar>off\<bar> div 3600) @ '':'' @ fixed 2 (nat \<bar>off\<bar> div 60 mod 60) @
     (if nat \<bar>off\<bar> mod 60 = 0 then [] else '':'' @ fixed 2 (nat \<bar>off\<bar> mod 60))"
  have "nat \<bar>off\<bar> < 86400" using assms by auto
  then have "offset_abs r = Some (int (nat \<bar>off\<bar>))"
    unfolding r_def by (rule offset_abs_str)
  then have r: "offset_abs r = Some \<bar>off\<bar>" by simp
  have "offset_str off = (if off < 0 then ''-'' else ''+'') @ r"
    unfolding offset_str_def Let_def r_def by (rule refl)
  with r show ?thesis by (cases "off < 0") (simp_all add: offset_of_def)
qed

lemma offset_of_Nil [simp]: "offset_of [] = Some None"
  by (simp add: offset_of_def)

lemma lit_dot_offset: "lit (CHR ''.'') (offset_str off) = None"
  by (simp add: offset_str_def Let_def)


lemma fraction_str:
  "n < 1000000 \<Longrightarrow> lit (CHR ''.'') s = None \<Longrightarrow>
   fraction ((if n = 0 then [] else ''.'' @ fixed 6 n) @ s) = Some (n, s)"
  by (simp add: fraction_def)

text \<open>Parsing what was written gives the timestamp back.\<close>

lemma parse_isoformat:
  assumes "valid_datetime t"
  shows "parse_iso (isoformat t) = Some t"
proof -
  define tail where "tail = (case dt_offset t of None \<Rightarrow> [] | Some off \<Rightarrow> offset_str off)"
  define fr where "fr = (if dt_micro t = 0 then [] else ''.'' @ fixed 6 (dt_micro t)) @ tail"
  have b: "dt_year t < 10 ^ 4" "dt_month t < 10 ^ 2" "dt_day t < 10 ^ 2" "dt_hour t < 10 ^ 2"
      "dt_minute t < 10 ^ 2" "dt_second t < 10 ^ 2" "dt_micro t < 1000000"
    using assms by (auto simp: valid_datetime_def valid_date_def days_in_month_def split: if_splits)
  have tail: "offset_of tail = Some (dt_offset t)" "lit (CHR ''.'') tail = None"
    using assms by (auto simp: tail_def valid_datetime_def offset_of_str lit_dot_offset split: option.splits)
  then have fr: "fraction fr = Some (dt_micro t, tail)"
    unfolding fr_def using b by (intro fraction_str)
  have "isoformat t = fixed 4 (dt_year t) @ ''-'' @ fixed 2 (dt_month t) @ ''-'' @ fixed 2 (dt_day t) @ ''T'' @
     fixed 2 (dt_hour t) @ '':'' @ fixed 2 (dt_minute t) @ '':'' @ fixed 2 (dt_second t) @ fr"
    by (simp add: isoformat_def fr_def tail_def)
  moreover have "valid_datetime \<lparr>dt_year = dt_year t, dt_month = dt_month t, dt_day = dt_day t, dt_hour = dt_hour t,
      dt_minute = dt_minute t, dt_second = dt_second t, dt_micro = dt_micro t, dt_offset = dt_offset t\<rparr>"
    using assms by (cases t) simp
  ultimately show ?thesis
    using b fr tail by (simp add: parse_iso_def Let_def)
qed


subsection \<open>Conversions of JSON values\<close>

text \<open>
  The rendering of a float (\<open>repr(float)\<close>) and the ISO 8601 notations other than the one
  \<open>isoformat\<close> writes are the two parts of the standard library that stay parameters.
\<close>

record stdlib =
  float_repr :: "pyfloat \<Rightarrow> string"
  iso_other :: "string \<Rightarrow> datetime option"

text \<open>An instance for the witnesses.\<close>

definition sample_stdlib :: stdlib where
  "sample_stdlib = \<lparr>float_repr = (\<lambda>_. ''0.5''), iso_other = (\<lambda>_. None)\<rparr>"

fun json_repr :: "(pyfloat \<Rightarrow> string) \<Rightarrow> json \<Rightarrow> string" where
  "json_repr sf JNull = ''None''"
| "json_repr sf (JBool b) = (if b then ''True'' else ''False'')"
| "json_repr sf (JInt i) = int_str i"
| "json_repr sf (JFloat f) = sf f"
| "json_repr sf (JStr s) = repr_str s"
| "json_repr sf (JList xs) = ''['' @ join '', '' (map (json_repr sf) xs) @ '']''"
| "json_repr sf (JObj kvs) =
     ''{'' @ join '', '' (map (\<lambda>kv. repr_str (fst kv) @ '': '' @ json_repr sf (snd kv)) kvs) @ ''}''"

definition py_str :: "(pyfloat \<Rightarrow> string) \<Rightarrow> json \<Rightarrow> string" where
  "py_str sf j = (case j of JStr s \<Rightarrow> s | _ \<Rightarrow> json_repr sf j)"

definition trunc :: "rat \<Rightarrow> int" where
  "trunc q = (if 0 \<le> q then \<lfloor>q\<rfloor> else \<lceil>q\<rceil>)"

fun py_float :: "json \<Rightarrow> pyfloat res" where
  "py_float (JStr s) = (case parse_float s of Some f \<Rightarrow> Inr f
     | None \<Rightarrow> Inl (ValueErr (''could not convert string to float: '' @ repr_str s)))"
| "py_float j = (case json_number j of Some f \<Rightarrow> Inr f
     | None \<Rightarrow> Inl (TypeErr ''float() argument must be a string or a real number''))"

fun py_int :: "json \<Rightarrow> int res" where
  "py_int (JStr s) = (case parse_int s of Some i \<Rightarrow> Inr i
     | None \<Rightarrow> Inl (ValueErr (''invalid literal for int() with base 10: '' @ repr_str s)))"
| "py_int (JFloat (Fin q)) = Inr (trunc q)"
| "py_int (JFloat NaN) = Inl (ValueErr ''cannot convert float NaN to integer'')"
| "py_int (JFloat PInf) = Inl (OtherErr ''cannot convert float infinity to integer'')"
| "py_int (JFloat NInf) = Inl (OtherErr ''cannot convert float infinity to integer'')"
| "py_int j = (case json_int j of Some i \<Rightarrow> Inr i
     | None \<Rightarrow> Inl (TypeErr ''int() argument must be a string, a bytes-like object or a real number''))"

fun py_truth :: "json \<Rightarrow> bool" where
  "py_truth JNull = False"
| "py_truth (JBool b) = b"
| "py_truth (JInt i) = (i \<noteq> 0)"
| "py_truth (JFloat f) = (f \<noteq> Fin 0)"
| "py_truth (JStr s) = (s \<noteq> [])"
| "py_truth (JList xs) = (xs \<noteq> [])"
| "py_truth (JObj kvs) = (kvs \<noteq> [])"

subsection \<open>Voice records\<close>

text \<open>
  \<open>vr_source\<close> is a JSON value: the repository copies what the document holds without looking
  at it, and the type \<open>Literal["seed", "crud"]\<close> is not checked when a record is built.
\<close>

record voice_record =
  vr_id :: string
  vr_transcript :: string
  vr_language :: string
  vr_consent :: bool
  vr_number_lang :: string
  vr_target_db :: pyfloat
  vr_temperature :: pyfloat
  vr_top_p :: pyfloat
  vr_max_sentences :: int
  vr_source :: json
  vr_created_at :: datetime
  vr_updated_at :: datetime

definition id_char :: "char \<Rightarrow> bool" where
  "id_char c = ((97 \<le> (of_char c :: nat) \<and> (of_char c :: nat) \<le> 122) \<or> is_digit c \<or>
     c = CHR ''_'' \<or> c = CHR ''-'')"

definition id_core :: "string \<Rightarrow> bool" where
  "id_core s = (1 \<le> length s \<and> length s \<le> 64 \<and> list_all id_char s)"

text \<open>
  \<open>VOICE_ID_REGEX.match\<close>: the anchor \<open>$\<close> of \<open>re\<close> also matches before a line break that ends the text.
\<close>

definition voice_id_regex :: "string \<Rightarrow> bool" where
  "voice_id_regex s = (id_core s \<or> (s \<noteq> [] \<and> last s = CHR 0x0A \<and> id_core (butlast s)))"

definition voice_id_pattern :: string where
  "voice_id_pattern = ''^[a-z0-9_-]{1,64}$''"

definition validate_voice_id :: "string \<Rightarrow> string res" where
  "validate_voice_id v = (if voice_id_regex v then Inr v
     else Inl (VoiceIdInvalid (''voice id '' @ repr_str v @ '' must match '' @ voice_id_pattern)))"

lemma validate_voice_id_cases:
  "validate_voice_id v = Inr v \<and> voice_id_regex v \<or>
   (\<exists>m. validate_voice_id v = Inl (VoiceIdInvalid m)) \<and> \<not> voice_id_regex v"
  by (simp add: validate_voice_id_def)

lemma validate_voice_id_Inr [simp]: "validate_voice_id v = Inr w \<longleftrightarrow> w = v \<and> voice_id_regex v"
  by (auto simp: validate_voice_id_def)

lemma id_char_safe: "id_char c \<Longrightarrow> c \<noteq> CHR ''/'' \<and> c \<noteq> CHR ''.'' \<and> c \<noteq> CHR 0x00 \<and> c \<noteq> CHR 0x5C"
  by (auto simp: id_char_def is_digit_def)

lemma voice_id_regex_chars:
  "voice_id_regex v \<Longrightarrow> c \<in> set v \<Longrightarrow> id_char c \<or> c = CHR 0x0A"
proof -
  assume v: "voice_id_regex v" and c: "c \<in> set v"
  show ?thesis
  proof (cases "id_core v")
    case True
    with c show ?thesis by (auto simp: id_core_def list_all_iff)
  next
    case False
    with v have l: "v \<noteq> []" "last v = CHR 0x0A" "id_core (butlast v)"
      by (auto simp: voice_id_regex_def)
    then have "v = butlast v @ [CHR 0x0A]" by (metis append_butlast_last_id)
    with c have "c \<in> set (butlast v) \<or> c = CHR 0x0A" by (metis Un_iff empty_iff insert_iff list.set(1,2) set_append)
    with l(3) show ?thesis by (auto simp: id_core_def list_all_iff)
  qed
qed

lemma voice_id_regex_ne [simp]: "\<not> voice_id_regex []"
  by (simp add: voice_id_regex_def id_core_def)

text \<open>
  Path safety of a validated id. It is not empty and holds no path separator, no dot, no NUL
  and no backslash, whatever it is; but it need not match the documented pattern to the letter: a
  line break after a valid id is let through.
\<close>

theorem validated_id_path_safe:
  "(case validate_voice_id v of
      Inr w \<Rightarrow> w = v \<and> v \<noteq> [] \<and> length v \<le> 65 \<and>
        set v \<inter> {CHR ''/'', CHR ''.'', CHR 0x00, CHR 0x5C} = {} \<and>
        (id_core v \<or> (\<exists>u. id_core u \<and> v = u @ [CHR 0x0A]))
    | Inl e \<Rightarrow> \<not> id_core v \<and> (\<exists>m. e = VoiceIdInvalid m))"
proof (cases "voice_id_regex v")
  case True
  have "set v \<inter> {CHR ''/'', CHR ''.'', CHR 0x00, CHR 0x5C} = {}"
    using voice_id_regex_chars [OF True] id_char_safe by auto
  moreover have "id_core v \<or> (\<exists>u. id_core u \<and> v = u @ [CHR 0x0A])"
    using True unfolding voice_id_regex_def by (metis append_butlast_last_id)
  moreover from this have "length v \<le> 65" by (auto simp: id_core_def)
  ultimately show ?thesis using True by (auto simp: validate_voice_id_def)
next
  case False
  then show ?thesis by (auto simp: validate_voice_id_def voice_id_regex_def)
qed

text \<open>An id with a line break at its end passes the validation.\<close>

theorem validate_voice_id_newline:
  assumes "id_core v"
  shows "validate_voice_id (v @ [CHR 0x0A]) = Inr (v @ [CHR 0x0A])"
  using assms by (simp add: validate_voice_id_def voice_id_regex_def)

theorem validate_voice_id_newline_witness:
  "validate_voice_id (''mario'' @ [CHR 0x0A]) = Inr (''mario'' @ [CHR 0x0A])"
  by (rule validate_voice_id_newline) (simp add: id_core_def id_char_def is_digit_def)

end
