(* ===== verification/VoiceRepos.thy ===== *)
theory VoiceRepos
  imports VoiceRecords
begin

text \<open>
  \<open>voice_store/protocols.py\<close>: the two repository protocols. A repository is a record of operations
  on a state \<open>'s\<close>; every operation returns its result or exception and the new state, and
  takes the clock where it may read it. The locales state what the protocols promise, for every
  backend: which exception means what, and that an operation that raises leaves the stored
  records as they were. A backend may fail with exceptions of its own (\<open>backend_failure\<close>) at any
  time; \<open>stamp\<close> says which timestamps it keeps exactly.
\<close>

record 's metadata_ops =
  m_list :: "datetime \<Rightarrow> 's \<Rightarrow> voice_record list res \<times> 's"
  m_get :: "datetime \<Rightarrow> string \<Rightarrow> 's \<Rightarrow> voice_record res \<times> 's"
  m_exists :: "datetime \<Rightarrow> string \<Rightarrow> 's \<Rightarrow> bool res \<times> 's"
  m_create :: "datetime \<Rightarrow> voice_record \<Rightarrow> 's \<Rightarrow> voice_record res \<times> 's"
  m_update :: "datetime \<Rightarrow> voice_record \<Rightarrow> 's \<Rightarrow> voice_record res \<times> 's"
  m_delete :: "datetime \<Rightarrow> string \<Rightarrow> 's \<Rightarrow> unit res \<times> 's"

record 'b blob_ops =
  b_put :: "string \<Rightarrow> bytes \<Rightarrow> 'b \<Rightarrow> unit res \<times> 'b"
  b_get :: "string \<Rightarrow> 'b \<Rightarrow> bytes res \<times> 'b"
  b_exists :: "string \<Rightarrow> 'b \<Rightarrow> bool res \<times> 'b"
  b_delete :: "string \<Rightarrow> 'b \<Rightarrow> unit res \<times> 'b"

fun backend_failure :: "py_exc \<Rightarrow> bool" where
  "backend_failure (VoiceIdInvalid _) = False"
| "backend_failure (VoiceNotFound _) = False"
| "backend_failure (VoiceAlreadyExists _) = False"
| "backend_failure e = is_exception e"

text \<open>The records a backend is asked to keep: what the service builds.\<close>

definition source_ok :: "json \<Rightarrow> bool" where
  "source_ok j = (j = JStr ''seed'' \<or> j = JStr ''crud'')"

definition storable_at :: "(datetime \<Rightarrow> bool) \<Rightarrow> voice_record \<Rightarrow> bool" where
  "storable_at stamp r \<longleftrightarrow> voice_id_regex (vr_id r) \<and> source_ok (vr_source r) \<and>
     stamp (vr_created_at r) \<and> stamp (vr_updated_at r)"

abbreviation storable :: "voice_record \<Rightarrow> bool" where
  "storable \<equiv> storable_at valid_datetime"

lemmas storable_def = storable_at_def [where stamp = valid_datetime]

locale metadata_repo =
  fixes repo :: "'s metadata_ops"
    and inv :: "'s \<Rightarrow> bool"
    and abs :: "'s \<Rightarrow> string \<Rightarrow> voice_record option"
    and stamp :: "datetime \<Rightarrow> bool"
  assumes list_ok: "\<And>now s r s'. inv s \<Longrightarrow> m_list repo now s = (r, s') \<Longrightarrow> inv s' \<and> abs s' = abs s \<and>
      (case r of Inr xs \<Rightarrow> set xs = ran (abs s) \<and> distinct xs | Inl e \<Rightarrow> backend_failure e)"
    and get_ok: "\<And>now v s r s'. inv s \<Longrightarrow> m_get repo now v s = (r, s') \<Longrightarrow> voice_id_regex v \<Longrightarrow> inv s' \<and> abs s' = abs s \<and>
      (case r of Inr x \<Rightarrow> abs s v = Some x | Inl e \<Rightarrow> e = VoiceNotFound v \<and> abs s v = None \<or> backend_failure e)"
    and get_invalid: "\<And>now v s e. validate_voice_id v = Inl e \<Longrightarrow> m_get repo now v s = (Inl e, s)"
    and exists_ok: "\<And>now v s r s'. inv s \<Longrightarrow> m_exists repo now v s = (r, s') \<Longrightarrow> voice_id_regex v \<Longrightarrow> inv s' \<and> abs s' = abs s \<and>
      (case r of Inr b \<Rightarrow> b = (abs s v \<noteq> None) | Inl e \<Rightarrow> backend_failure e)"
    and create_ok: "\<And>now x s r s'. inv s \<Longrightarrow> m_create repo now x s = (r, s') \<Longrightarrow> storable_at stamp x \<Longrightarrow> inv s' \<and>
      (case r of Inr y \<Rightarrow> y = x \<and> abs s (vr_id x) = None \<and> abs s' = (abs s)(vr_id x \<mapsto> x)
       | Inl e \<Rightarrow> abs s' = abs s \<and> (e = VoiceAlreadyExists (vr_id x) \<and> abs s (vr_id x) \<noteq> None \<or> backend_failure e))"
    and update_ok: "\<And>now x s r s'. inv s \<Longrightarrow> m_update repo now x s = (r, s') \<Longrightarrow> storable_at stamp x \<Longrightarrow> inv s' \<and>
      (case r of Inr y \<Rightarrow> y = x \<and> abs s (vr_id x) \<noteq> None \<and> abs s' = (abs s)(vr_id x \<mapsto> x)
       | Inl e \<Rightarrow> abs s' = abs s \<and> (e = VoiceNotFound (vr_id x) \<and> abs s (vr_id x) = None \<or> backend_failure e))"
    and delete_ok: "\<And>now v s r s'. inv s \<Longrightarrow> m_delete repo now v s = (r, s') \<Longrightarrow> voice_id_regex v \<Longrightarrow> inv s' \<and>
      (case r of Inr _ \<Rightarrow> abs s v \<noteq> None \<and> abs s' = (abs s)(v := None)
       | Inl e \<Rightarrow> abs s' = abs s \<and> (e = VoiceNotFound v \<and> abs s v = None \<or> backend_failure e))"
    and abs_id: "inv s \<Longrightarrow> abs s v = Some x \<Longrightarrow> vr_id x = v \<and> storable_at stamp x"

locale blob_repo =
  fixes blobs :: "'b blob_ops"
    and binv :: "'b \<Rightarrow> bool"
    and babs :: "'b \<Rightarrow> string \<Rightarrow> bytes option"
  assumes put_ok: "\<And>v d b r b'. binv b \<Longrightarrow> b_put blobs v d b = (r, b') \<Longrightarrow> voice_id_regex v \<Longrightarrow> binv b' \<and>
      (case r of Inr _ \<Rightarrow> babs b' = (babs b)(v \<mapsto> d) | Inl e \<Rightarrow> babs b' = babs b \<and> backend_failure e)"
    and bget_ok: "\<And>v b r b'. binv b \<Longrightarrow> b_get blobs v b = (r, b') \<Longrightarrow> voice_id_regex v \<Longrightarrow> binv b' \<and> babs b' = babs b \<and>
      (case r of Inr d \<Rightarrow> babs b v = Some d | Inl e \<Rightarrow> e = VoiceNotFound v \<and> babs b v = None \<or> backend_failure e)"
    and bexists_ok: "\<And>v b r b'. binv b \<Longrightarrow> b_exists blobs v b = (r, b') \<Longrightarrow> voice_id_regex v \<Longrightarrow> binv b' \<and> babs b' = babs b \<and>
      (case r of Inr x \<Rightarrow> x = (babs b v \<noteq> None) | Inl e \<Rightarrow> backend_failure e)"
    and bdelete_ok: "\<And>v b r b'. binv b \<Longrightarrow> b_delete blobs v b = (r, b') \<Longrightarrow> voice_id_regex v \<Longrightarrow> binv b' \<and>
      (case r of Inr _ \<Rightarrow> babs b' = (babs b)(v := None)
       | Inl e \<Rightarrow> babs b' = babs b \<and> (e = VoiceNotFound v \<and> babs b v = None \<or> backend_failure e))"

text \<open>Both stores together, as the routers and the seed ingestion hold them.\<close>

locale voice_store = metadata_repo repo inv abs stamp + blob_repo blobs binv babs
  for repo :: "'s metadata_ops" and inv :: "'s \<Rightarrow> bool" and abs :: "'s \<Rightarrow> string \<Rightarrow> voice_record option"
    and stamp :: "datetime \<Rightarrow> bool"
    and blobs :: "'b blob_ops" and binv :: "'b \<Rightarrow> bool" and babs :: "'b \<Rightarrow> string \<Rightarrow> bytes option"

end
