(* ===== verification/FsMetadata.thy ===== *)
theory FsMetadata
  imports VoiceRepos
begin

text \<open>
  \<open>voice_store/fs_json_metadata.py\<close>: the metadata repository in one JSON document. The state is
  the document, the number of temporary files beside it, and what the next writes will meet on the
  disk. Every operation runs under the repository's lock and without a suspension point, so it is
  one step. The document is a value (see Prelude); \<open>json.dumps\<close> sorts its keys at every level.
\<close>

datatype doc = Absent | Blank | NotJson string | Doc json

datatype write_fault = NoFault | CreateFails | WriteFails | ReplaceFails

record meta_fs =
  mf_path :: string
  mf_doc :: doc
  mf_faults :: "write_fault list"
  mf_tmp :: nat

subsection \<open>Serialization\<close>

definition serialize_record :: "voice_record \<Rightarrow> json" where
  "serialize_record r = JObj
     [(''id'', JStr (vr_id r)),
      (''transcript'', JStr (vr_transcript r)),
      (''language'', JStr (vr_language r)),
      (''consent_acknowledged'', JBool (vr_consent r)),
      (''number_lang'', JStr (vr_number_lang r)),
      (''target_db'', JFloat (vr_target_db r)),
      (''temperature'', JFloat (vr_temperature r)),
      (''top_p'', JFloat (vr_top_p r)),
      (''max_sentences_per_chunk'', JInt (vr_max_sentences r)),
      (''source'', vr_source r),
      (''created_at'', JStr (isoformat (vr_created_at r))),
      (''updated_at'', JStr (isoformat (vr_updated_at r)))]"

definition parse_dt :: "stdlib \<Rightarrow> datetime \<Rightarrow> json option \<Rightarrow> datetime res" where
  "parse_dt L now v = (case v of
       Some (JStr s) \<Rightarrow>
         if s = [] then Inr now
         else (case parse_iso s of Some t \<Rightarrow> Inr t
           | None \<Rightarrow> (case iso_other L s of Some t \<Rightarrow> Inr t
             | None \<Rightarrow> Inl (ValueErr (''Invalid isoformat string: '' @ repr_str s))))
     | _ \<Rightarrow> Inr now)"

definition required :: "(string \<times> json) list \<Rightarrow> string \<Rightarrow> json res" where
  "required d k = (case map_of d k of Some v \<Rightarrow> Inr v | None \<Rightarrow> Inl (KeyErr k))"

definition deserialize_record :: "stdlib \<Rightarrow> datetime \<Rightarrow> json \<Rightarrow> voice_record res" where
  "deserialize_record L now raw = (case raw of
     JObj d \<Rightarrow>
       bindE (required d ''id'') (\<lambda>vid.
       bindE (required d ''language'') (\<lambda>lang.
       bindE (py_float (get_default d ''target_db'' (JFloat (Fin (- 20))))) (\<lambda>tdb.
       bindE (py_float (get_default d ''temperature'' (JFloat (Fin (4 / 5))))) (\<lambda>temp.
       bindE (py_float (get_default d ''top_p'' (JFloat (Fin (19 / 20))))) (\<lambda>topp.
       bindE (py_int (get_default d ''max_sentences_per_chunk'' (JInt 2))) (\<lambda>ms.
       bindE (parse_dt L now (map_of d ''created_at'')) (\<lambda>cr.
       bindE (parse_dt L now (map_of d ''updated_at'')) (\<lambda>up.
         Inr \<lparr>vr_id = py_str (float_repr L) vid,
              vr_transcript = py_str (float_repr L) (get_default d ''transcript'' (JStr [])),
              vr_language = py_str (float_repr L) lang,
              vr_consent = py_truth (get_default d ''consent_acknowledged'' (JBool False)),
              vr_number_lang = py_str (float_repr L) (get_default d ''number_lang'' (JStr [])),
              vr_target_db = tdb, vr_temperature = temp, vr_top_p = topp, vr_max_sentences = ms,
              vr_source = get_default d ''source'' (JStr ''crud''),
              vr_created_at = cr, vr_updated_at = up\<rparr>))))))))
   | _ \<Rightarrow> Inl (TypeErr ''entry is not a mapping''))"

text \<open>\<open>json.loads(json.dumps(payload, sort_keys=True))\<close>.\<close>

fun sort_json :: "json \<Rightarrow> json" where
  "sort_json (JList xs) = JList (map sort_json xs)"
| "sort_json (JObj kvs) = JObj (sort_key fst (map (\<lambda>kv. (fst kv, sort_json (snd kv))) kvs))"
| "sort_json j = j"

fun json_type :: "json \<Rightarrow> string" where
  "json_type JNull = ''NoneType''"
| "json_type (JBool _) = ''bool''"
| "json_type (JInt _) = ''int''"
| "json_type (JFloat _) = ''float''"
| "json_type (JStr _) = ''str''"
| "json_type (JList _) = ''list''"
| "json_type (JObj _) = ''dict''"

subsection \<open>The operations\<close>

definition load_all :: "stdlib \<Rightarrow> datetime \<Rightarrow> meta_fs \<Rightarrow> (string \<times> voice_record) list res" where
  "load_all L now fs = (case mf_doc fs of
       Absent \<Rightarrow> Inr []
     | Blank \<Rightarrow> Inr []
     | NotJson m \<Rightarrow> Inl (ValueErr m)
     | Doc (JObj kvs) \<Rightarrow>
         res_map (\<lambda>kv. bindE (deserialize_record L now (snd kv)) (\<lambda>r. Inr (fst kv, r))) kvs
     | Doc j \<Rightarrow> Inl (ValueErr (mf_path fs @ '' must contain a JSON object (got '' @ json_type j @ '')'')))"

definition write_payload :: "(string \<times> voice_record) list \<Rightarrow> json" where
  "write_payload recs = sort_json (JObj (map (\<lambda>kv. (fst kv, serialize_record (snd kv))) recs))"

definition atomic_write :: "(string \<times> voice_record) list \<Rightarrow> meta_fs \<Rightarrow> unit res \<times> meta_fs" where
  "atomic_write recs fs =
     (let fault = (case mf_faults fs of [] \<Rightarrow> NoFault | f # _ \<Rightarrow> f);
          fs1 = fs\<lparr>mf_faults := tl (mf_faults fs)\<rparr> in
      if fault = CreateFails then (Inl (OSErr ''temporary file''), fs1)
      else
        (let fs2 = fs1\<lparr>mf_tmp := mf_tmp fs1 + 1\<rparr> in
         if fault = WriteFails \<or> fault = ReplaceFails
         then (Inl (OSErr ''write''), fs2\<lparr>mf_tmp := mf_tmp fs2 - 1\<rparr>)
         else (Inr (), fs2\<lparr>mf_doc := Doc (write_payload recs), mf_tmp := mf_tmp fs2 - 1\<rparr>)))"

definition fs_list :: "stdlib \<Rightarrow> datetime \<Rightarrow> meta_fs \<Rightarrow> voice_record list res \<times> meta_fs" where
  "fs_list L now fs = (bindE (load_all L now fs) (\<lambda>recs. Inr (map snd recs)), fs)"

definition fs_get :: "stdlib \<Rightarrow> datetime \<Rightarrow> string \<Rightarrow> meta_fs \<Rightarrow> voice_record res \<times> meta_fs" where
  "fs_get L now v fs =
     (bindE (validate_voice_id v) (\<lambda>_. bindE (load_all L now fs) (\<lambda>recs.
        case map_of recs v of None \<Rightarrow> Inl (VoiceNotFound v) | Some r \<Rightarrow> Inr r)), fs)"

definition fs_exists :: "stdlib \<Rightarrow> datetime \<Rightarrow> string \<Rightarrow> meta_fs \<Rightarrow> bool res \<times> meta_fs" where
  "fs_exists L now v fs =
     (bindE (validate_voice_id v) (\<lambda>_. bindE (load_all L now fs) (\<lambda>recs.
        Inr (map_of recs v \<noteq> None))), fs)"

definition fs_create :: "stdlib \<Rightarrow> datetime \<Rightarrow> voice_record \<Rightarrow> meta_fs \<Rightarrow> voice_record res \<times> meta_fs" where
  "fs_create L now x fs = (case validate_voice_id (vr_id x) of
       Inl e \<Rightarrow> (Inl e, fs)
     | Inr _ \<Rightarrow> (case load_all L now fs of
         Inl e \<Rightarrow> (Inl e, fs)
       | Inr recs \<Rightarrow>
           if map_of recs (vr_id x) \<noteq> None then (Inl (VoiceAlreadyExists (vr_id x)), fs)
           else (case atomic_write (AList.update (vr_id x) x recs) fs of
               (Inl e, fs') \<Rightarrow> (Inl e, fs')
             | (Inr _, fs') \<Rightarrow> (Inr x, fs'))))"

definition fs_update :: "stdlib \<Rightarrow> datetime \<Rightarrow> voice_record \<Rightarrow> meta_fs \<Rightarrow> voice_record res \<times> meta_fs" where
  "fs_update L now x fs = (case validate_voice_id (vr_id x) of
       Inl e \<Rightarrow> (Inl e, fs)
     | Inr _ \<Rightarrow> (case load_all L now fs of
         Inl e \<Rightarrow> (Inl e, fs)
       | Inr recs \<Rightarrow>
           if map_of recs (vr_id x) = None then (Inl (VoiceNotFound (vr_id x)), fs)
           else (case atomic_write (AList.update (vr_id x) x recs) fs of
               (Inl e, fs') \<Rightarrow> (Inl e, fs')
             | (Inr _, fs') \<Rightarrow> (Inr x, fs'))))"

definition fs_delete :: "stdlib \<Rightarrow> datetime \<Rightarrow> string \<Rightarrow> meta_fs \<Rightarrow> unit res \<times> meta_fs" where
  "fs_delete L now v fs = (case validate_voice_id v of
       Inl e \<Rightarrow> (Inl e, fs)
     | Inr _ \<Rightarrow> (case load_all L now fs of
         Inl e \<Rightarrow> (Inl e, fs)
       | Inr recs \<Rightarrow>
           if map_of recs v = None then (Inl (VoiceNotFound v), fs)
           else atomic_write (AList.delete v recs) fs))"

definition fs_metadata_repo :: "stdlib \<Rightarrow> meta_fs metadata_ops" where
  "fs_metadata_repo L = \<lparr>m_list = fs_list L, m_get = fs_get L, m_exists = fs_exists L,
     m_create = fs_create L, m_update = fs_update L, m_delete = fs_delete L\<rparr>"

subsection \<open>Round trip of a record\<close>

lemma map_of_sort_key:
  "distinct (map fst kvs) \<Longrightarrow> map_of (sort_key fst kvs) = map_of kvs"
  by (rule map_of_inject_set [THEN iffD2]) (simp_all add: distinct_map inj_on_def)

lemma map_of_map_snd': "map_of (map (\<lambda>kv. (fst kv, f (snd kv))) al) k = map_option f (map_of al k)"
  by (induction al) auto

lemma map_fst_map_snd' [simp]: "map fst (map (\<lambda>kv. (fst kv, f (snd kv))) al) = map fst al"
  by (induction al) auto

definition sorted_fields :: "(string \<times> json) list \<Rightarrow> (string \<times> json) list" where
  "sorted_fields kvs = sort_key fst (map (\<lambda>kv. (fst kv, sort_json (snd kv))) kvs)"

lemma sort_json_JObj: "sort_json (JObj kvs) = JObj (sorted_fields kvs)"
  by (simp add: sorted_fields_def)

lemma map_of_sorted_fields:
  "distinct (map fst kvs) \<Longrightarrow> map_of (sorted_fields kvs) k = map_option sort_json (map_of kvs k)"
  unfolding sorted_fields_def by (simp add: map_of_sort_key map_of_map_snd' del: map_map)

lemma parse_dt_isoformat [simp]:
  "valid_datetime t \<Longrightarrow> parse_dt L now (Some (JStr (isoformat t))) = Inr t"
  by (simp add: parse_dt_def parse_isoformat) (simp add: isoformat_def)

lemma deserialize_serialize:
  assumes "storable r"
  shows "deserialize_record L now (sort_json (serialize_record r)) = Inr r"
proof -
  have s: "sort_json (vr_source r) = vr_source r"
    using assms by (auto simp: storable_def source_ok_def)
  have dt: "valid_datetime (vr_created_at r)" "valid_datetime (vr_updated_at r)"
    using assms by (auto simp: storable_def)
  obtain kvs where kvs: "serialize_record r = JObj kvs" "distinct (map fst kvs)"
    by (simp add: serialize_record_def)
  have look: "map_of (sorted_fields kvs) k = map_option sort_json (map_of kvs k)" for k
    using kvs(2) by (rule map_of_sorted_fields)
  have "deserialize_record L now (JObj (sorted_fields kvs)) = Inr r"
    using kvs(1) dt s
    by (cases r) (auto simp: deserialize_record_def required_def get_default_def look serialize_record_def py_str_def)
  with kvs(1) show ?thesis by (simp add: sort_json_JObj del: sort_json.simps)
qed

text \<open>
  C33: writing a record to the document and reading it back gives the same record, field by
  field, whatever the floats are (infinities and NaN included) and at every clock.
\<close>

theorem record_roundtrip:
  assumes "voice_id_regex (vr_id r)" "vr_source r = JStr ''seed'' \<or> vr_source r = JStr ''crud''"
    and "valid_datetime (vr_created_at r)" "valid_datetime (vr_updated_at r)"
  shows "deserialize_record L now (sort_json (serialize_record r)) = Inr r"
  using assms by (intro deserialize_serialize) (simp add: storable_def source_ok_def)

definition sample_time :: datetime where
  "sample_time = \<lparr>dt_year = 2026, dt_month = 5, dt_day = 11, dt_hour = 9, dt_minute = 30, dt_second = 7,
     dt_micro = 250, dt_offset = Some 0\<rparr>"

definition sample_voice :: voice_record where
  "sample_voice = \<lparr>vr_id = ''mario'', vr_transcript = ''ciao'', vr_language = ''it'', vr_consent = True,
     vr_number_lang = [], vr_target_db = NInf, vr_temperature = Fin (4 / 5), vr_top_p = Fin 1,
     vr_max_sentences = 2, vr_source = JStr ''crud'', vr_created_at = sample_time, vr_updated_at = sample_time\<rparr>"

lemma sample_time_valid [simp]: "valid_datetime sample_time"
  by (simp add: valid_datetime_def sample_time_def valid_date_def days_in_month_def)

lemma sample_voice_storable [simp]: "storable sample_voice"
  by (simp add: storable_def sample_voice_def source_ok_def voice_id_regex_def id_core_def id_char_def is_digit_def)

theorem record_roundtrip_witness:
  "deserialize_record sample_stdlib sample_time (sort_json (serialize_record sample_voice)) = Inr sample_voice"
  using sample_voice_storable unfolding storable_def source_ok_def by (intro record_roundtrip) auto

subsection \<open>The document invariant\<close>

definition meta_inv :: "stdlib \<Rightarrow> meta_fs \<Rightarrow> bool" where
  "meta_inv L fs = (\<exists>al. (\<forall>now. load_all L now fs = Inr al) \<and> distinct (map fst al) \<and>
     (\<forall>(k, r)\<in>set al. vr_id r = k \<and> storable r))"

definition meta_abs :: "stdlib \<Rightarrow> meta_fs \<Rightarrow> string \<Rightarrow> voice_record option" where
  "meta_abs L fs = (case load_all L sample_time fs of Inl _ \<Rightarrow> (\<lambda>_. None) | Inr al \<Rightarrow> map_of al)"

lemma meta_invE:
  assumes "meta_inv L fs"
  obtains al where "\<And>now. load_all L now fs = Inr al" "distinct (map fst al)" "meta_abs L fs = map_of al"
    "\<And>k r. (k, r) \<in> set al \<Longrightarrow> vr_id r = k \<and> storable r"
  using assms unfolding meta_inv_def meta_abs_def by force

lemma insort_key_map:
  "insort_key fst (fst kv, h (snd kv)) (map (\<lambda>kv. (fst kv, h (snd kv))) xs) =
   map (\<lambda>kv. (fst kv, h (snd kv))) (insort_key fst kv xs)"
  by (induction xs) auto

lemma sort_key_map:
  "sort_key fst (map (\<lambda>kv. (fst kv, h (snd kv))) xs) = map (\<lambda>kv. (fst kv, h (snd kv))) (sort_key fst xs)"
  by (induction xs) (auto simp: insort_key_map)

lemma load_after_write:
  assumes "\<And>k r. (k, r) \<in> set al \<Longrightarrow> storable r" "mf_doc fs = Doc (write_payload al)"
  shows "load_all L now fs = Inr (sort_key fst al)"
proof -
  let ?f = "\<lambda>kv. bindE (deserialize_record L now (snd kv)) (\<lambda>r. Inr (fst kv, r))"
  let ?h = "\<lambda>kv :: string \<times> voice_record. (fst kv, sort_json (serialize_record (snd kv)))"
  have "write_payload al = JObj (map ?h (sort_key fst al))"
    using sort_key_map [of "\<lambda>r. sort_json (serialize_record r)" al]
    by (simp add: write_payload_def comp_def)
  moreover have "res_map (\<lambda>kv. ?f (?h kv)) (sort_key fst al) = Inr (map id (sort_key fst al))"
    using assms(1) by (intro res_map_all) (auto simp: deserialize_serialize)
  ultimately show ?thesis using assms(2) by (simp add: load_all_def res_map_map)
qed

definition all_storable :: "(string \<times> voice_record) list \<Rightarrow> bool" where
  "all_storable al = (distinct (map fst al) \<and> (\<forall>(k, r)\<in>set al. vr_id r = k \<and> storable r))"

lemma meta_inv_load:
  "meta_inv L fs \<longleftrightarrow> (\<exists>al. (\<forall>now. load_all L now fs = Inr al) \<and> all_storable al)"
  by (simp add: meta_inv_def all_storable_def)

lemma meta_abs_load: "load_all L sample_time fs = Inr al \<Longrightarrow> meta_abs L fs = map_of al"
  by (simp add: meta_abs_def)

lemma load_same_doc: "mf_doc fs' = mf_doc fs \<Longrightarrow> mf_path fs' = mf_path fs \<Longrightarrow> load_all L now fs' = load_all L now fs"
  by (simp add: load_all_def split: doc.splits json.splits)

lemma all_storable_update: "all_storable al \<Longrightarrow> storable x \<Longrightarrow> all_storable (AList.update (vr_id x) x al)"
  unfolding all_storable_def
proof (intro conjI ballI)
  assume a: "distinct (map fst al) \<and> (\<forall>(k, r)\<in>set al. vr_id r = k \<and> storable r)" and x: "storable x"
  show d: "distinct (map fst (AList.update (vr_id x) x al))" using a by (simp add: distinct_update)
  fix kr assume kr: "kr \<in> set (AList.update (vr_id x) x al)"
  obtain k r where p: "kr = (k, r)" by (cases kr)
  then have "map_of (AList.update (vr_id x) x al) k = Some r" 
    using kr d by (metis map_of_is_SomeI)
  then have "k = vr_id x \<and> r = x \<or> map_of al k = Some r" by (auto split: if_splits)
  then show "case kr of (k, r) \<Rightarrow> vr_id r = k \<and> storable r" using a x p by (auto dest: map_of_SomeD)
qed

lemma all_storable_delete: "all_storable al \<Longrightarrow> all_storable (AList.delete v al)"
  unfolding all_storable_def by (auto simp: AList.delete_eq distinct_map inj_on_def)

lemma all_storable_sort: "all_storable al \<Longrightarrow> all_storable (sort_key fst al)"
  by (simp add: all_storable_def distinct_map inj_on_def)

text \<open>A write either replaces the document or fails and leaves it, and no temporary file, behind.\<close>

lemma atomic_write_outcome:
  assumes "all_storable al" "atomic_write al fs = (r, fs')"
  shows "mf_tmp fs' = mf_tmp fs \<and> mf_path fs' = mf_path fs \<and> mf_faults fs' = tl (mf_faults fs) \<and>
    (r = Inr () \<and> (\<forall>now. load_all L now fs' = Inr (sort_key fst al)) \<and>
       (mf_faults fs = [] \<or> hd (mf_faults fs) = NoFault) \<or>
     (\<exists>m. r = Inl (OSErr m)) \<and> mf_doc fs' = mf_doc fs \<and> mf_faults fs \<noteq> [] \<and> hd (mf_faults fs) \<noteq> NoFault)"
proof -
  have st: "\<And>k r. (k, r) \<in> set al \<Longrightarrow> storable r" using assms(1) by (auto simp: all_storable_def)
  have load: "mf_doc g = Doc (write_payload al) \<Longrightarrow> load_all L now g = Inr (sort_key fst al)" for now g
    using st by (rule load_after_write)
  show ?thesis
  proof (cases "mf_faults fs")
    case Nil
    with assms(2) show ?thesis by (auto simp: atomic_write_def Let_def load)
  next
    case (Cons f fl)
    with assms(2) show ?thesis by (cases f) (auto simp: atomic_write_def Let_def load)
  qed
qed

subsection \<open>The repository implements its protocol\<close>

lemma meta_inv_obtain:
  assumes "meta_inv L fs"
  obtains al where "all_storable al" "meta_abs L fs = map_of al" "\<And>now. load_all L now fs = Inr al"
  using assms by (auto simp: meta_inv_load meta_abs_load)

lemma ran_map_of_alist: "distinct (map fst al) \<Longrightarrow> ran (map_of al) = snd ` set al"
  by (rule ran_distinct)

lemma all_storable_values_distinct: "all_storable al \<Longrightarrow> distinct (map snd al)"
proof -
  assume a: "all_storable al"
  then have eq: "map vr_id (map snd al) = map fst al" by (auto simp: all_storable_def)
  from a have "distinct (map fst al)" by (simp add: all_storable_def)
  then have "distinct (map vr_id (map snd al))" by (simp only: eq)
  then show ?thesis using distinct_map [of vr_id "map snd al"] by blast
qed

lemma meta_write_ok:
  assumes "all_storable al" "atomic_write al fs = (r, fs')" "meta_inv L fs"
  shows "meta_inv L fs' \<and> mf_tmp fs' = mf_tmp fs \<and> (case r of Inr _ \<Rightarrow> meta_abs L fs' = map_of al
     | Inl e \<Rightarrow> meta_abs L fs' = meta_abs L fs \<and> (\<exists>m. e = OSErr m))"
proof -
  note w = atomic_write_outcome [OF assms(1,2), of L]
  show ?thesis
  proof (cases r)
    case (Inr u)
    with w have ld: "\<And>now. load_all L now fs' = Inr (sort_key fst al)" by auto
    then have "meta_inv L fs'" using all_storable_sort [OF assms(1)] by (auto simp: meta_inv_load)
    moreover have "meta_abs L fs' = map_of al"
      using ld assms(1) by (simp add: meta_abs_load map_of_sort_key all_storable_def)
    ultimately show ?thesis using w Inr by simp
  next
    case (Inl e)
    with w have "mf_doc fs' = mf_doc fs" "mf_path fs' = mf_path fs" "\<exists>m. e = OSErr m" by auto
    then have "load_all L now fs' = load_all L now fs" for now by (intro load_same_doc)
    then show ?thesis using w Inl assms(3) \<open>\<exists>m. e = OSErr m\<close> by (simp add: meta_inv_def meta_abs_def)
  qed
qed

definition is_write_error :: "py_exc \<Rightarrow> bool" where
  "is_write_error e = (\<exists>m. e = OSErr m)"

lemma fs_list_ok:
  assumes "meta_inv L fs"
  shows "\<exists>xs. fs_list L now fs = (Inr xs, fs) \<and> set xs = ran (meta_abs L fs) \<and> distinct xs"
  using assms
  by (elim meta_inv_obtain)
     (auto simp: fs_list_def all_storable_values_distinct ran_map_of_alist all_storable_def)

lemma fs_get_ok:
  assumes "meta_inv L fs" "voice_id_regex v"
  shows "fs_get L now v fs = (case meta_abs L fs v of None \<Rightarrow> Inl (VoiceNotFound v) | Some r \<Rightarrow> Inr r, fs)"
  using assms by (elim meta_inv_obtain) (simp add: fs_get_def validate_voice_id_def)

lemma fs_exists_ok:
  assumes "meta_inv L fs" "voice_id_regex v"
  shows "fs_exists L now v fs = (Inr (meta_abs L fs v \<noteq> None), fs)"
  using assms by (elim meta_inv_obtain) (simp add: fs_exists_def validate_voice_id_def)

lemma fs_create_ok:
  assumes "meta_inv L fs" "storable x" "fs_create L now x fs = (r, fs')"
  shows "meta_inv L fs' \<and> mf_tmp fs' = mf_tmp fs \<and> (case r of
      Inr y \<Rightarrow> y = x \<and> meta_abs L fs (vr_id x) = None \<and> meta_abs L fs' = (meta_abs L fs)(vr_id x \<mapsto> x)
    | Inl e \<Rightarrow> meta_abs L fs' = meta_abs L fs \<and>
        (if meta_abs L fs (vr_id x) \<noteq> None then e = VoiceAlreadyExists (vr_id x) \<and> fs' = fs else is_write_error e))"
proof -
  obtain al where al: "all_storable al" "meta_abs L fs = map_of al" "\<And>now. load_all L now fs = Inr al"
    using assms(1) by (elim meta_inv_obtain) blast
  have v: "voice_id_regex (vr_id x)" using assms(2) by (simp add: storable_def)
  show ?thesis
  proof (cases "map_of al (vr_id x)")
    case None
    obtain r0 where w: "atomic_write (AList.update (vr_id x) x al) fs = (r0, fs')"
        "r = (case r0 of Inl e \<Rightarrow> Inl e | Inr _ \<Rightarrow> Inr x)"
      using assms(3) al(3) v None
      by (auto simp: fs_create_def validate_voice_id_def split: prod.splits sum.splits)
    from meta_write_ok [OF all_storable_update [OF al(1) assms(2)] w(1) assms(1)] w(2) None al(2)
    show ?thesis by (auto simp: is_write_error_def split: sum.splits)
  next
    case (Some y)
    with assms al v show ?thesis by (auto simp: fs_create_def validate_voice_id_def)
  qed
qed

lemma fs_update_ok:
  assumes "meta_inv L fs" "storable x" "fs_update L now x fs = (r, fs')"
  shows "meta_inv L fs' \<and> mf_tmp fs' = mf_tmp fs \<and> (case r of
      Inr y \<Rightarrow> y = x \<and> meta_abs L fs (vr_id x) \<noteq> None \<and> meta_abs L fs' = (meta_abs L fs)(vr_id x \<mapsto> x)
    | Inl e \<Rightarrow> meta_abs L fs' = meta_abs L fs \<and>
        (if meta_abs L fs (vr_id x) = None then e = VoiceNotFound (vr_id x) \<and> fs' = fs else is_write_error e))"
proof -
  obtain al where al: "all_storable al" "meta_abs L fs = map_of al" "\<And>now. load_all L now fs = Inr al"
    using assms(1) by (elim meta_inv_obtain) blast
  have v: "voice_id_regex (vr_id x)" using assms(2) by (simp add: storable_def)
  show ?thesis
  proof (cases "map_of al (vr_id x)")
    case None
    with assms al v show ?thesis by (auto simp: fs_update_def validate_voice_id_def)
  next
    case (Some y)
    obtain r0 where w: "atomic_write (AList.update (vr_id x) x al) fs = (r0, fs')"
        "r = (case r0 of Inl e \<Rightarrow> Inl e | Inr _ \<Rightarrow> Inr x)"
      using assms(3) al(3) v Some
      by (auto simp: fs_update_def validate_voice_id_def split: prod.splits sum.splits)
    from meta_write_ok [OF all_storable_update [OF al(1) assms(2)] w(1) assms(1)] w(2) Some al(2)
    show ?thesis by (auto simp: is_write_error_def split: sum.splits)
  qed
qed

lemma fs_delete_ok:
  assumes "meta_inv L fs" "voice_id_regex v" "fs_delete L now v fs = (r, fs')"
  shows "meta_inv L fs' \<and> mf_tmp fs' = mf_tmp fs \<and> (case r of
      Inr _ \<Rightarrow> meta_abs L fs v \<noteq> None \<and> meta_abs L fs' = (meta_abs L fs)(v := None)
    | Inl e \<Rightarrow> meta_abs L fs' = meta_abs L fs \<and>
        (if meta_abs L fs v = None then e = VoiceNotFound v \<and> fs' = fs else is_write_error e))"
proof -
  obtain al where al: "all_storable al" "meta_abs L fs = map_of al" "\<And>now. load_all L now fs = Inr al"
    using assms(1) by (elim meta_inv_obtain) blast
  show ?thesis
  proof (cases "map_of al v")
    case None
    with assms al show ?thesis by (auto simp: fs_delete_def validate_voice_id_def)
  next
    case (Some y)
    have w: "atomic_write (AList.delete v al) fs = (r, fs')"
      using assms(2,3) al(3) Some by (simp add: fs_delete_def validate_voice_id_def)
    from meta_write_ok [OF all_storable_delete [OF al(1)] w assms(1)] Some al(2)
    show ?thesis by (auto simp: is_write_error_def split: sum.splits)
  qed
qed

lemma write_error_failure: "is_write_error e \<Longrightarrow> backend_failure e"
  by (auto simp: is_write_error_def)

lemmas fs_metadata_ok = fs_get_ok fs_exists_ok
lemmas fs_metadata_repo_sel = fs_metadata_repo_def metadata_ops.simps

interpretation fsmeta: metadata_repo "fs_metadata_repo L" "meta_inv L" "meta_abs L" valid_datetime for L
proof
  show "validate_voice_id v = Inl e \<Longrightarrow> m_get (fs_metadata_repo L) now v s = (Inl e, s)" for now v e and s :: meta_fs
    by (simp add: fs_metadata_repo_sel fs_get_def)
  fix now s r s' v x
  assume i: "meta_inv L s"
  show "m_list (fs_metadata_repo L) now s = (r :: voice_record list res, s') \<Longrightarrow> meta_inv L s' \<and> meta_abs L s' = meta_abs L s \<and>
      (case r of Inr xs \<Rightarrow> set xs = ran (meta_abs L s) \<and> distinct xs | Inl e \<Rightarrow> backend_failure e)" for r
    using fs_list_ok [OF i, of now] i by (auto simp: fs_metadata_repo_sel)
  show "m_get (fs_metadata_repo L) now v s = (r :: voice_record res, s') \<Longrightarrow> voice_id_regex v \<Longrightarrow>
      meta_inv L s' \<and> meta_abs L s' = meta_abs L s \<and>
      (case r of Inr x \<Rightarrow> meta_abs L s v = Some x
       | Inl e \<Rightarrow> e = VoiceNotFound v \<and> meta_abs L s v = None \<or> backend_failure e)" for r
    using i by (auto simp: fs_metadata_repo_sel fs_metadata_ok split: option.splits)
  show "m_exists (fs_metadata_repo L) now v s = (r :: bool res, s') \<Longrightarrow> voice_id_regex v \<Longrightarrow>
      meta_inv L s' \<and> meta_abs L s' = meta_abs L s \<and>
      (case r of Inr b \<Rightarrow> b = (meta_abs L s v \<noteq> None) | Inl e \<Rightarrow> backend_failure e)" for r
    using i by (auto simp: fs_metadata_repo_sel fs_metadata_ok)
  show "m_create (fs_metadata_repo L) now x s = (r :: voice_record res, s') \<Longrightarrow> storable x \<Longrightarrow> meta_inv L s' \<and>
      (case r of Inr y \<Rightarrow> y = x \<and> meta_abs L s (vr_id x) = None \<and> meta_abs L s' = (meta_abs L s)(vr_id x \<mapsto> x)
       | Inl e \<Rightarrow> meta_abs L s' = meta_abs L s \<and>
           (e = VoiceAlreadyExists (vr_id x) \<and> meta_abs L s (vr_id x) \<noteq> None \<or> backend_failure e))" for r
    using fs_create_ok [OF i, of x now r s']
    by (auto simp: fs_metadata_repo_sel write_error_failure split: sum.splits if_splits)
  show "m_update (fs_metadata_repo L) now x s = (r :: voice_record res, s') \<Longrightarrow> storable x \<Longrightarrow> meta_inv L s' \<and>
      (case r of Inr y \<Rightarrow> y = x \<and> meta_abs L s (vr_id x) \<noteq> None \<and> meta_abs L s' = (meta_abs L s)(vr_id x \<mapsto> x)
       | Inl e \<Rightarrow> meta_abs L s' = meta_abs L s \<and>
           (e = VoiceNotFound (vr_id x) \<and> meta_abs L s (vr_id x) = None \<or> backend_failure e))" for r
    using fs_update_ok [OF i, of x now r s']
    by (auto simp: fs_metadata_repo_sel write_error_failure split: sum.splits if_splits)
  show "m_delete (fs_metadata_repo L) now v s = (r :: unit res, s') \<Longrightarrow> voice_id_regex v \<Longrightarrow> meta_inv L s' \<and>
      (case r of Inr _ \<Rightarrow> meta_abs L s v \<noteq> None \<and> meta_abs L s' = (meta_abs L s)(v := None)
       | Inl e \<Rightarrow> meta_abs L s' = meta_abs L s \<and>
           (e = VoiceNotFound v \<and> meta_abs L s v = None \<or> backend_failure e))" for r
    using fs_delete_ok [OF i, of v now r s']
    by (auto simp: fs_metadata_repo_sel write_error_failure split: sum.splits if_splits)
  show "meta_abs L s v = Some x \<Longrightarrow> vr_id x = v \<and> storable x"
    using i by (elim meta_inv_obtain) (auto simp: all_storable_def dest: map_of_SomeD)
qed

subsection \<open>Refinement of a finite map\<close>

text \<open>The repository as a command interpreter, and the same commands on a map.\<close>

datatype meta_cmd =
    MList
  | MGet string
  | MExists string
  | MCreate voice_record
  | MUpdate voice_record
  | MDelete string

datatype meta_out = ORecords "voice_record set" | ORecord voice_record | OBool bool | OUnit

fun fs_exec :: "stdlib \<Rightarrow> datetime \<Rightarrow> meta_cmd \<Rightarrow> meta_fs \<Rightarrow> meta_out res \<times> meta_fs" where
  "fs_exec L now MList fs = apfst (map_sum id (\<lambda>xs. ORecords (set xs))) (m_list (fs_metadata_repo L) now fs)"
| "fs_exec L now (MGet v) fs = apfst (map_sum id ORecord) (m_get (fs_metadata_repo L) now v fs)"
| "fs_exec L now (MExists v) fs = apfst (map_sum id OBool) (m_exists (fs_metadata_repo L) now v fs)"
| "fs_exec L now (MCreate x) fs = apfst (map_sum id ORecord) (m_create (fs_metadata_repo L) now x fs)"
| "fs_exec L now (MUpdate x) fs = apfst (map_sum id ORecord) (m_update (fs_metadata_repo L) now x fs)"
| "fs_exec L now (MDelete v) fs = apfst (map_sum id (\<lambda>_. OUnit)) (m_delete (fs_metadata_repo L) now v fs)"

type_synonym voice_map = "string \<Rightarrow> voice_record option"

fun map_exec :: "meta_cmd \<Rightarrow> voice_map \<Rightarrow> meta_out res \<times> voice_map" where
  "map_exec MList m = (Inr (ORecords (ran m)), m)"
| "map_exec (MGet v) m = (case m v of None \<Rightarrow> Inl (VoiceNotFound v) | Some x \<Rightarrow> Inr (ORecord x), m)"
| "map_exec (MExists v) m = (Inr (OBool (m v \<noteq> None)), m)"
| "map_exec (MCreate x) m = (if m (vr_id x) \<noteq> None then (Inl (VoiceAlreadyExists (vr_id x)), m)
     else (Inr (ORecord x), m(vr_id x \<mapsto> x)))"
| "map_exec (MUpdate x) m = (if m (vr_id x) = None then (Inl (VoiceNotFound (vr_id x)), m)
     else (Inr (ORecord x), m(vr_id x \<mapsto> x)))"
| "map_exec (MDelete v) m = (if m v = None then (Inl (VoiceNotFound v), m) else (Inr OUnit, m(v := None)))"

fun cmd_ok :: "meta_cmd \<Rightarrow> bool" where
  "cmd_ok MList = True"
| "cmd_ok (MGet v) = voice_id_regex v"
| "cmd_ok (MExists v) = voice_id_regex v"
| "cmd_ok (MCreate x) = storable x"
| "cmd_ok (MUpdate x) = storable x"
| "cmd_ok (MDelete v) = voice_id_regex v"

fun fs_run :: "stdlib \<Rightarrow> (datetime \<times> meta_cmd) list \<Rightarrow> meta_fs \<Rightarrow> meta_out res list \<times> meta_fs" where
  "fs_run L [] fs = ([], fs)"
| "fs_run L ((now, c) # cs) fs =
     (let (r, fs1) = fs_exec L now c fs; (rs, fs2) = fs_run L cs fs1 in (r # rs, fs2))"

text \<open>
  The specification of a run: each answer is the map's, or the command failed on the disk and
  left the map as it was.
\<close>

inductive map_run :: "meta_cmd list \<Rightarrow> voice_map \<Rightarrow> meta_out res list \<Rightarrow> voice_map \<Rightarrow> bool" where
  finished: "map_run [] m [] m"
| answers: "map_exec c m = (r, m1) \<Longrightarrow> map_run cs m1 rs m2 \<Longrightarrow> map_run (c # cs) m (r # rs) m2"
| fails: "map_run cs m rs m2 \<Longrightarrow> map_run (c # cs) m (Inl (OSErr msg) # rs) m2"

inductive_cases map_run_ConsE: "map_run (c # cs) m rs m2"

lemma fs_exec_step:
  assumes "meta_inv L fs" "cmd_ok c" "fs_exec L now c fs = (r, fs')"
  shows "meta_inv L fs' \<and> mf_tmp fs' = mf_tmp fs \<and>
    (map_exec c (meta_abs L fs) = (r, meta_abs L fs') \<or>
     (\<exists>msg. r = Inl (OSErr msg)) \<and> meta_abs L fs' = meta_abs L fs)"
proof (cases c)
  case MList
  with assms fs_list_ok [OF assms(1), of now] show ?thesis by (auto simp: fs_metadata_repo_sel)
next
  case (MGet v)
  with assms show ?thesis by (auto simp: fs_metadata_repo_sel fs_get_ok split: option.splits)
next
  case (MExists v)
  with assms show ?thesis by (auto simp: fs_metadata_repo_sel fs_exists_ok)
next
  case (MCreate x)
  obtain r0 where "fs_create L now x fs = (r0, fs')" "r = map_sum id ORecord r0"
    using assms(3) MCreate by (cases "fs_create L now x fs") (auto simp: fs_metadata_repo_sel)
  with MCreate assms(1,2) fs_create_ok [OF assms(1), of x now r0 fs'] show ?thesis
    by (cases r0) (auto simp: is_write_error_def split: if_splits)
next
  case (MUpdate x)
  obtain r0 where "fs_update L now x fs = (r0, fs')" "r = map_sum id ORecord r0"
    using assms(3) MUpdate by (cases "fs_update L now x fs") (auto simp: fs_metadata_repo_sel)
  with MUpdate assms(1,2) fs_update_ok [OF assms(1), of x now r0 fs'] show ?thesis
    by (cases r0) (auto simp: is_write_error_def split: if_splits)
next
  case (MDelete v)
  obtain r0 where "fs_delete L now v fs = (r0, fs')" "r = map_sum id (\<lambda>_. OUnit) r0"
    using assms(3) MDelete by (cases "fs_delete L now v fs") (auto simp: fs_metadata_repo_sel)
  with MDelete assms(1,2) fs_delete_ok [OF assms(1), of v now r0 fs'] show ?thesis
    by (cases r0) (auto simp: is_write_error_def split: if_splits)
qed

text \<open>
  C1: the repository in a file refines a finite map. Started on a sound document, every sequence of
  commands, with every sequence of disk failures, answers as the map does; a command that fails on
  the disk raises and changes nothing; the document stays sound and no temporary file is left.
\<close>

theorem fs_metadata_refines_map:
  assumes "meta_inv L fs" "\<forall>(now, c)\<in>set cs. cmd_ok c" "fs_run L cs fs = (rs, fs')"
  shows "meta_inv L fs' \<and> mf_tmp fs' = mf_tmp fs \<and> map_run (map snd cs) (meta_abs L fs) rs (meta_abs L fs')"
  using assms
proof (induction cs arbitrary: fs rs)
  case Nil
  then show ?case by (auto intro: map_run.finished)
next
  case (Cons nc cs)
  obtain now c where nc: "nc = (now, c)" by (cases nc)
  obtain r fs1 where 1: "fs_exec L now c fs = (r, fs1)" by fastforce
  obtain rs' where 2: "fs_run L cs fs1 = (rs', fs')" "rs = r # rs'"
    using Cons.prems(3) 1 nc by (auto split: prod.splits)
  have step: "meta_inv L fs1 \<and> mf_tmp fs1 = mf_tmp fs \<and>
    (map_exec c (meta_abs L fs) = (r, meta_abs L fs1) \<or>
     (\<exists>msg. r = Inl (OSErr msg)) \<and> meta_abs L fs1 = meta_abs L fs)"
    using Cons.prems(1,2) nc 1 by (intro fs_exec_step) auto
  with Cons.IH [OF _ _ 2(1)] Cons.prems(2)
  have ih: "meta_inv L fs'" "mf_tmp fs' = mf_tmp fs1" "map_run (map snd cs) (meta_abs L fs1) rs' (meta_abs L fs')"
    by auto
  with step 2(2) nc show ?case by (auto intro: map_run.answers map_run.fails)
qed

definition empty_fs :: "string \<Rightarrow> meta_fs" where
  "empty_fs path = \<lparr>mf_path = path, mf_doc = Absent, mf_faults = [NoFault, WriteFails], mf_tmp = 0\<rparr>"

lemma empty_fs_inv [simp]: "meta_inv L (empty_fs p)" "meta_abs L (empty_fs p) = Map.empty" "mf_tmp (empty_fs p) = 0"
  by (simp_all add: meta_inv_def meta_abs_def load_all_def empty_fs_def)

theorem fs_metadata_refines_map_witness:
  "(case fs_run sample_stdlib [(sample_time, MCreate sample_voice), (sample_time, MDelete ''mario''), (sample_time, MGet ''mario'')]
      (empty_fs ''metadata.json'') of (rs, fs') \<Rightarrow>
    meta_inv sample_stdlib fs' \<and> mf_tmp fs' = 0 \<and>
    map_run [MCreate sample_voice, MDelete ''mario'', MGet ''mario''] Map.empty rs (meta_abs sample_stdlib fs'))"
proof -
  have "voice_id_regex ''mario''"
    using sample_voice_storable by (simp add: storable_def sample_voice_def)
  then show ?thesis
    using fs_metadata_refines_map [of sample_stdlib "empty_fs ''metadata.json''"
      "[(sample_time, MCreate sample_voice), (sample_time, MDelete ''mario''), (sample_time, MGet ''mario'')]"]
    by (auto simp del: fs_run.simps split: prod.split)
qed

end
