(* ===== verification/FsBlob.thy ===== *)
theory FsBlob
  imports FsMetadata
begin

text \<open>
  \<open>voice_store/fs_blob.py\<close>: one file per voice under \<open>blobs/\<close>. The state holds the files of that
  directory by name, the number of temporary files, and what the next writes will meet.
\<close>

record blob_fs =
  bf_files :: "(string \<times> bytes) list"
  bf_faults :: "write_fault list"
  bf_tmp :: nat

definition blob_suffix :: string where
  "blob_suffix = ''.wav''"

definition path_for :: "string \<Rightarrow> string res" where
  "path_for v = bindE (validate_voice_id v) (\<lambda>_. Inr (v @ blob_suffix))"

definition fsb_put :: "string \<Rightarrow> bytes \<Rightarrow> blob_fs \<Rightarrow> unit res \<times> blob_fs" where
  "fsb_put v data fs = (case path_for v of
       Inl e \<Rightarrow> (Inl e, fs)
     | Inr target \<Rightarrow>
         (let fault = (case bf_faults fs of [] \<Rightarrow> NoFault | f # _ \<Rightarrow> f);
              fs1 = fs\<lparr>bf_faults := tl (bf_faults fs)\<rparr> in
          if fault = CreateFails then (Inl (OSErr ''temporary file''), fs1)
          else
            (let fs2 = fs1\<lparr>bf_tmp := bf_tmp fs1 + 1\<rparr> in
             if fault = WriteFails \<or> fault = ReplaceFails
             then (Inl (OSErr ''write''), fs2\<lparr>bf_tmp := bf_tmp fs2 - 1\<rparr>)
             else (Inr (), fs2\<lparr>bf_files := AList.update target data (bf_files fs2), bf_tmp := bf_tmp fs2 - 1\<rparr>))))"

definition fsb_get :: "string \<Rightarrow> blob_fs \<Rightarrow> bytes res \<times> blob_fs" where
  "fsb_get v fs = (bindE (path_for v) (\<lambda>target. case map_of (bf_files fs) target of
       None \<Rightarrow> Inl (VoiceNotFound v) | Some d \<Rightarrow> Inr d), fs)"

definition fsb_exists :: "string \<Rightarrow> blob_fs \<Rightarrow> bool res \<times> blob_fs" where
  "fsb_exists v fs = (bindE (path_for v) (\<lambda>target. Inr (map_of (bf_files fs) target \<noteq> None)), fs)"

definition fsb_delete :: "string \<Rightarrow> blob_fs \<Rightarrow> unit res \<times> blob_fs" where
  "fsb_delete v fs = (case path_for v of
       Inl e \<Rightarrow> (Inl e, fs)
     | Inr target \<Rightarrow>
         if map_of (bf_files fs) target = None then (Inl (VoiceNotFound v), fs)
         else (Inr (), fs\<lparr>bf_files := AList.delete target (bf_files fs)\<rparr>))"

definition fs_blob_repo :: "blob_fs blob_ops" where
  "fs_blob_repo = \<lparr>b_put = fsb_put, b_get = fsb_get, b_exists = fsb_exists, b_delete = fsb_delete\<rparr>"

subsection \<open>The repository implements its protocol\<close>

definition blob_abs :: "blob_fs \<Rightarrow> string \<Rightarrow> bytes option" where
  "blob_abs fs v = map_of (bf_files fs) (v @ blob_suffix)"

lemma path_for_valid [simp]: "voice_id_regex v \<Longrightarrow> path_for v = Inr (v @ blob_suffix)"
  by (simp add: path_for_def validate_voice_id_def)

lemma fsb_put_ok:
  assumes "voice_id_regex v" "fsb_put v d fs = (r, fs')"
  shows "bf_tmp fs' = bf_tmp fs \<and> (case r of Inr _ \<Rightarrow> blob_abs fs' = (blob_abs fs)(v \<mapsto> d)
     | Inl e \<Rightarrow> bf_files fs' = bf_files fs \<and> blob_abs fs' = blob_abs fs \<and> is_write_error e)"
proof (cases "bf_faults fs")
  case Nil
  with assms show ?thesis by (auto simp: fsb_put_def Let_def blob_abs_def fun_eq_iff)
next
  case (Cons f fl)
  with assms show ?thesis by (cases f) (auto simp: fsb_put_def Let_def blob_abs_def is_write_error_def fun_eq_iff)
qed

lemma fsb_delete_ok:
  assumes "voice_id_regex v" "fsb_delete v fs = (r, fs')"
  shows "bf_tmp fs' = bf_tmp fs \<and> (case r of
      Inr _ \<Rightarrow> blob_abs fs v \<noteq> None \<and> blob_abs fs' = (blob_abs fs)(v := None)
    | Inl e \<Rightarrow> fs' = fs \<and> e = VoiceNotFound v \<and> blob_abs fs v = None)"
  using assms by (auto simp: fsb_delete_def blob_abs_def fun_eq_iff split: if_splits)

lemma fsb_get_ok:
  "voice_id_regex v \<Longrightarrow> fsb_get v fs = (case blob_abs fs v of None \<Rightarrow> Inl (VoiceNotFound v) | Some d \<Rightarrow> Inr d, fs)"
  by (simp add: fsb_get_def blob_abs_def)

lemma fsb_exists_ok: "voice_id_regex v \<Longrightarrow> fsb_exists v fs = (Inr (blob_abs fs v \<noteq> None), fs)"
  by (simp add: fsb_exists_def blob_abs_def)

lemmas fs_blob_repo_sel = fs_blob_repo_def blob_ops.simps

interpretation fsblob: blob_repo fs_blob_repo "\<lambda>_. True" blob_abs
proof
  fix v d b b'
  show "b_put fs_blob_repo v d b = (r, b') \<Longrightarrow> voice_id_regex v \<Longrightarrow> True \<and>
      (case r of Inr _ \<Rightarrow> blob_abs b' = (blob_abs b)(v \<mapsto> d)
       | Inl e \<Rightarrow> blob_abs b' = blob_abs b \<and> backend_failure e)" for r
    using fsb_put_ok [of v d b r b']
    by (auto simp: fs_blob_repo_sel write_error_failure split: sum.splits)
  show "b_get fs_blob_repo v b = (r, b') \<Longrightarrow> voice_id_regex v \<Longrightarrow> True \<and> blob_abs b' = blob_abs b \<and>
      (case r of Inr d \<Rightarrow> blob_abs b v = Some d
       | Inl e \<Rightarrow> e = VoiceNotFound v \<and> blob_abs b v = None \<or> backend_failure e)" for r
    by (auto simp: fs_blob_repo_sel fsb_get_ok split: option.splits)
  show "b_exists fs_blob_repo v b = (r, b') \<Longrightarrow> voice_id_regex v \<Longrightarrow> True \<and> blob_abs b' = blob_abs b \<and>
      (case r of Inr x \<Rightarrow> x = (blob_abs b v \<noteq> None) | Inl e \<Rightarrow> backend_failure e)" for r
    by (auto simp: fs_blob_repo_sel fsb_exists_ok)
  show "b_delete fs_blob_repo v b = (r, b') \<Longrightarrow> voice_id_regex v \<Longrightarrow> True \<and>
      (case r of Inr _ \<Rightarrow> blob_abs b' = (blob_abs b)(v := None)
       | Inl e \<Rightarrow> blob_abs b' = blob_abs b \<and> (e = VoiceNotFound v \<and> blob_abs b v = None \<or> backend_failure e))" for r
    using fsb_delete_ok [of v b r b'] by (auto simp: fs_blob_repo_sel split: sum.splits)
qed

interpretation fsstore: voice_store "fs_metadata_repo L" "meta_inv L" "meta_abs L" valid_datetime fs_blob_repo "\<lambda>_. True" blob_abs for L
  by unfold_locales

text \<open>
  The blob store after a write. A blob that was put is what the next read of its id returns, the
  blobs of all other ids stay, a failed write changes no blob, no temporary file is left, and the file
  lies in the blob directory: its name has no separator and is neither dot nor dot-dot.
\<close>

theorem fsb_put_get:
  "(case fsb_put v d fs of (r, fs') \<Rightarrow>
     bf_tmp fs' = bf_tmp fs \<and>
     (case r of
        Inr _ \<Rightarrow> fst (fsb_get v fs') = Inr d \<and> (\<forall>w. w \<noteq> v \<longrightarrow> fst (fsb_get w fs') = fst (fsb_get w fs)) \<and>
          (\<exists>name. path_for v = Inr name \<and> CHR ''/'' \<notin> set name \<and> name \<notin> {''.'', ''..''})
      | Inl e \<Rightarrow> bf_files fs' = bf_files fs \<and> (voice_id_regex v \<longrightarrow> is_write_error e)))"
proof (cases "voice_id_regex v")
  case True
  obtain r fs' where p: "fsb_put v d fs = (r, fs')" by fastforce
  have name: "CHR ''/'' \<notin> set (v @ blob_suffix)" "v @ blob_suffix \<notin> {''.'', ''..''}"
    using voice_id_regex_chars [OF True, of "CHR ''/''"] id_char_safe [of "CHR ''/''"] True
    by (auto simp: blob_suffix_def append_eq_Cons_conv)
  have other: "fst (fsb_get w fs') = fst (fsb_get w fs)" if "w \<noteq> v" "r = Inr u" for w u
  proof (cases "voice_id_regex w")
    case True
    then show ?thesis using fsb_put_ok [OF \<open>voice_id_regex v\<close> p] that by (simp add: fsb_get_ok)
  next
    case False
    then show ?thesis by (auto simp: fsb_get_def path_for_def validate_voice_id_def)
  qed
  show ?thesis
    using fsb_put_ok [OF True p] name other True by (auto simp: p fsb_get_ok split: sum.splits)
next
  case False
  then show ?thesis by (simp add: fsb_put_def path_for_def validate_voice_id_def)
qed

theorem fsb_put_get_witness:
  "(case fsb_put ''mario'' [1, 2] \<lparr>bf_files = [(''anna.wav'', [7])], bf_faults = [], bf_tmp = 0\<rparr> of (r, fs') \<Rightarrow>
     r = Inr () \<and> fst (fsb_get ''mario'' fs') = Inr [1, 2] \<and> fst (fsb_get ''anna'' fs') = Inr [7])"
proof -
  have "voice_id_regex ''mario''" "voice_id_regex ''anna''"
    by (simp_all add: voice_id_regex_def id_core_def id_char_def is_digit_def)
  then show ?thesis
    using fsb_put_get [where v = "''mario''" and d = "[1, 2]" and fs = "\<lparr>bf_files = [(''anna.wav'', [7])], bf_faults = [], bf_tmp = 0\<rparr>"]
    by (auto simp: fsb_put_def fsb_get_def Let_def blob_suffix_def)
qed

end
