(* ===== verification/VoicesRouter.thy ===== *)
theory VoicesRouter
  imports FsBlob
begin

text \<open>
  \<open>routers/voices.py\<close> and \<open>schemas/voices.py\<close>: the voice endpoints over the two repositories. A
  handler takes the repositories as records of operations and their states as a pair, and returns
  its result, or the exception the error layer renders, with the new states. Parameters: \<open>pydantic\<close> (the
  coercion of a JSON value to a field's type under the declared constraints), SHA-256, and the JSON text
  of the form field, given as the value it parses to or the parser's message.
\<close>

record pydantic =
  pd_str :: "string option \<Rightarrow> nat \<Rightarrow> json \<Rightarrow> string + string"
  pd_bool :: "json \<Rightarrow> string + bool"
  pd_float :: "json \<Rightarrow> string + pyfloat"
  pd_int :: "json \<Rightarrow> string + int"
  pd_missing :: string
  pd_extra :: string

subsection \<open>Schemas\<close>

record voice_payload =
  vp_transcript :: string
  vp_language :: string
  vp_consent :: bool
  vp_number_lang :: string
  vp_target_db :: pyfloat
  vp_temperature :: pyfloat
  vp_top_p :: pyfloat
  vp_max_sentences :: int

record voice_response =
  vs_id :: string
  vs_transcript :: string
  vs_language :: string
  vs_consent :: bool
  vs_number_lang :: string
  vs_target_db :: pyfloat
  vs_temperature :: pyfloat
  vs_top_p :: pyfloat
  vs_max_sentences :: int
  vs_source :: json
  vs_created_at :: datetime
  vs_updated_at :: datetime

record voice_summary =
  sm_id :: string
  sm_language :: string
  sm_source :: json
  sm_created_at :: datetime

text \<open>The first error of a validation: the field and the message.\<close>

type_synonym 'a checked = "(string \<times> string) + 'a"

fun bindV :: "'a checked \<Rightarrow> ('a \<Rightarrow> 'b checked) \<Rightarrow> 'b checked" where
  "bindV (Inl e) f = Inl e"
| "bindV (Inr x) f = f x"

definition field :: "(json \<Rightarrow> string + 'a) \<Rightarrow> string \<Rightarrow> (string \<times> json) list \<Rightarrow> string \<Rightarrow> 'a option \<Rightarrow> 'a checked" where
  "field coerce missing d name dflt = (case map_of d name of
       Some v \<Rightarrow> (case coerce v of Inl m \<Rightarrow> Inl (name, m) | Inr x \<Rightarrow> Inr x)
     | None \<Rightarrow> (case dflt of Some x \<Rightarrow> Inr x | None \<Rightarrow> Inl (name, missing)))"

definition update_fields :: "string list" where
  "update_fields = [''transcript'', ''language'', ''consent_acknowledged'', ''number_lang'', ''target_db'',
     ''temperature'', ''top_p'', ''max_sentences_per_chunk'']"

text \<open>\<open>extra="forbid"\<close>.\<close>

definition no_extra :: "pydantic \<Rightarrow> string list \<Rightarrow> (string \<times> json) list \<Rightarrow> 'a \<Rightarrow> 'a checked" where
  "no_extra P names d x = (case filter (\<lambda>kv. fst kv \<notin> set names) d of
       [] \<Rightarrow> Inr x | kv # _ \<Rightarrow> Inl (fst kv, pd_extra P))"

definition payload_fields :: "pydantic \<Rightarrow> (string \<times> json) list \<Rightarrow> voice_payload checked" where
  "payload_fields P d =
     bindV (field (pd_str P None 1) (pd_missing P) d ''transcript'' None) (\<lambda>tr.
     bindV (field (pd_str P None 1) (pd_missing P) d ''language'' None) (\<lambda>la.
     bindV (field (pd_bool P) (pd_missing P) d ''consent_acknowledged'' None) (\<lambda>co.
     bindV (field (pd_str P None 0) (pd_missing P) d ''number_lang'' (Some [])) (\<lambda>nl.
     bindV (field (pd_float P) (pd_missing P) d ''target_db'' (Some (Fin (- 20)))) (\<lambda>td.
     bindV (field (pd_float P) (pd_missing P) d ''temperature'' (Some (Fin (4 / 5)))) (\<lambda>te.
     bindV (field (pd_float P) (pd_missing P) d ''top_p'' (Some (Fin (19 / 20)))) (\<lambda>tp.
     bindV (field (pd_int P) (pd_missing P) d ''max_sentences_per_chunk'' (Some 2)) (\<lambda>ms.
       Inr \<lparr>vp_transcript = tr, vp_language = la, vp_consent = co, vp_number_lang = nl,
            vp_target_db = td, vp_temperature = te, vp_top_p = tp, vp_max_sentences = ms\<rparr>))))))))"

definition voice_create_model :: "pydantic \<Rightarrow> (string \<times> json) list \<Rightarrow> (string \<times> voice_payload) checked" where
  "voice_create_model P d =
     bindV (field (pd_str P (Some voice_id_pattern) 0) (pd_missing P) d ''id'' None) (\<lambda>i.
     bindV (payload_fields P d) (\<lambda>p. no_extra P (''id'' # update_fields) d (i, p)))"

definition voice_update_model :: "pydantic \<Rightarrow> (string \<times> json) list \<Rightarrow> voice_payload checked" where
  "voice_update_model P d = bindV (payload_fields P d) (no_extra P update_fields d)"

subsection \<open>Validation of the two parts of the form\<close>

definition allowed_content_types :: "string list" where
  "allowed_content_types = [''audio/wav'', ''audio/x-wav'', ''audio/flac'', ''audio/mpeg'']"

definition check_magic_bytes :: "string \<Rightarrow> bytes \<Rightarrow> bool" where
  "check_magic_bytes ct data =
     (if ct = ''audio/wav'' \<or> ct = ''audio/x-wav'' then
        12 \<le> length data \<and> take 4 data = ascii ''RIFF'' \<and> take 4 (drop 8 data) = ascii ''WAVE''
      else if ct = ''audio/flac'' then take 4 data = ascii ''fLaC''
      else if ct = ''audio/mpeg'' then
        take 3 data = ascii ''ID3'' \<or>
        (2 \<le> length data \<and> data ! 0 = 0xFF \<and> and (data ! 1) 0xE0 = 0xE0)
      else False)"

definition ref_audio_invalid :: "string \<Rightarrow> py_exc" where
  "ref_audio_invalid msg = invalid_request_code msg (Some ''audio'') ''ref_audio_invalid''"

record upload =
  up_filename :: "string option"
  up_content_type :: "string option"
  up_data :: bytes

definition read_audio_validated :: "upload \<Rightarrow> nat \<Rightarrow> bytes res" where
  "read_audio_validated audio max_bytes =
     (let ct = lower (case up_content_type audio of None \<Rightarrow> [] | Some c \<Rightarrow> c) in
      if ct \<notin> set allowed_content_types then Inl (ref_audio_invalid ''audio content-type is not allowed'')
      else
        (let data = take (max_bytes + 1) (up_data audio) in
         if max_bytes < length data
         then Inl (ref_audio_invalid (''audio exceeds maximum size of '' @ nat_str max_bytes @ '' bytes''))
         else if data = [] then Inl (ref_audio_invalid ''audio body is empty'')
         else if \<not> check_magic_bytes ct data
         then Inl (ref_audio_invalid ''audio magic bytes do not match declared content-type'')
         else Inr data))"

definition parse_metadata_json :: "((string \<times> json) list \<Rightarrow> 'a checked) \<Rightarrow> string + json \<Rightarrow> 'a res" where
  "parse_metadata_json model raw = (case raw of
       Inl msg \<Rightarrow> Inl (invalid_request_code (''metadata is not valid JSON: '' @ msg) (Some ''metadata'') ''invalid_parameter'')
     | Inr (JObj d) \<Rightarrow> (case model d of
           Inr x \<Rightarrow> Inr x
         | Inl (param, msg) \<Rightarrow>
             if param = ''consent_acknowledged''
             then Inl (invalid_request_code ''consent_acknowledged must be true'' (Some param) ''consent_required'')
             else Inl (invalid_request_code msg (Some param) ''invalid_parameter''))
     | Inr _ \<Rightarrow> Inl (invalid_request_code ''metadata must be a JSON object'' (Some ''metadata'') ''invalid_parameter''))"

definition record_to_response :: "voice_record \<Rightarrow> voice_response res" where
  "record_to_response r = (if source_ok (vr_source r) then
       Inr \<lparr>vs_id = vr_id r, vs_transcript = vr_transcript r, vs_language = vr_language r,
         vs_consent = vr_consent r, vs_number_lang = vr_number_lang r, vs_target_db = vr_target_db r,
         vs_temperature = vr_temperature r, vs_top_p = vr_top_p r, vs_max_sentences = vr_max_sentences r,
         vs_source = vr_source r, vs_created_at = vr_created_at r, vs_updated_at = vr_updated_at r\<rparr>
     else Inl (OtherErr ''1 validation error for VoiceResponse''))"

definition record_to_summary :: "voice_record \<Rightarrow> voice_summary res" where
  "record_to_summary r = (if source_ok (vr_source r) then
       Inr \<lparr>sm_id = vr_id r, sm_language = vr_language r, sm_source = vr_source r, sm_created_at = vr_created_at r\<rparr>
     else Inl (OtherErr ''1 validation error for VoiceSummary''))"

subsection \<open>The handlers\<close>

definition consent_required :: py_exc where
  "consent_required =
     invalid_request_code ''consent_acknowledged must be true'' (Some ''consent_acknowledged'') ''consent_required''"

definition voice_not_found :: "string \<Rightarrow> py_exc" where
  "voice_not_found v = voice_error ''voice_not_found'' (''voice '' @ repr_str v @ '' not found'') 404 None"

text \<open>\<open>validate_voice_id\<close> on a path parameter.\<close>

definition check_path_id :: "string \<Rightarrow> string res" where
  "check_path_id v = (case validate_voice_id v of
       Inl e \<Rightarrow> Inl (invalid_request (exc_str e) (Some ''voice_id'')) | Inr w \<Rightarrow> Inr w)"

text \<open>\<open>except VoiceNotFoundError\<close> around a repository call.\<close>

fun map_not_found :: "py_exc \<Rightarrow> py_exc \<Rightarrow> py_exc" where
  "map_not_found e' (VoiceNotFound _) = e'"
| "map_not_found e' e = e"

definition list_voices :: "'s metadata_ops \<Rightarrow> datetime \<Rightarrow> 's \<Rightarrow> voice_summary list res \<times> 's" where
  "list_voices repo now s = (case m_list repo now s of
       (Inl e, s') \<Rightarrow> (Inl e, s')
     | (Inr rs, s') \<Rightarrow> (res_map record_to_summary rs, s'))"

definition new_record :: "string \<Rightarrow> voice_payload \<Rightarrow> json \<Rightarrow> datetime \<Rightarrow> datetime \<Rightarrow> voice_record" where
  "new_record vid p src created updated =
     \<lparr>vr_id = vid, vr_transcript = vp_transcript p, vr_language = vp_language p, vr_consent = True,
      vr_number_lang = vp_number_lang p, vr_target_db = vp_target_db p, vr_temperature = vp_temperature p,
      vr_top_p = vp_top_p p, vr_max_sentences = vp_max_sentences p, vr_source = src,
      vr_created_at = created, vr_updated_at = updated\<rparr>"

text \<open>
  \<open>create_voice\<close>. The rollback after a failed blob write is for an \<open>Exception\<close> only, and its own
  failure is logged and dropped.
\<close>

definition create_voice :: "pydantic \<Rightarrow> 's metadata_ops \<Rightarrow> 'b blob_ops \<Rightarrow> nat \<Rightarrow> datetime \<Rightarrow>
    string + json \<Rightarrow> upload \<Rightarrow> 's \<times> 'b \<Rightarrow> voice_response res \<times> ('s \<times> 'b)" where
  "create_voice P repo blobs max_bytes now metadata audio st = (case st of (s, b) \<Rightarrow>
     (case parse_metadata_json (voice_create_model P) metadata of
        Inl e \<Rightarrow> (Inl e, (s, b))
      | Inr (vid, p) \<Rightarrow>
          if \<not> vp_consent p then (Inl consent_required, (s, b))
          else (case read_audio_validated audio max_bytes of
              Inl e \<Rightarrow> (Inl e, (s, b))
            | Inr data \<Rightarrow>
                (case m_create repo now (new_record vid p (JStr ''crud'') now now) s of
                   (Inl (VoiceAlreadyExists _), s1) \<Rightarrow>
                     (Inl (invalid_request_with (''voice id '' @ repr_str vid @ '' already exists'')
                        (Some ''id'') ''voice_id_exists'' 409), (s1, b))
                 | (Inl (VoiceIdInvalid m), s1) \<Rightarrow>
                     (Inl (invalid_request_code m (Some ''id'') ''invalid_parameter''), (s1, b))
                 | (Inl e, s1) \<Rightarrow> (Inl e, (s1, b))
                 | (Inr created, s1) \<Rightarrow>
                     (case b_put blobs vid data b of
                        (Inl e, b1) \<Rightarrow>
                          if is_exception e
                          then (Inl e, (snd (m_delete repo now vid s1), b1))
                          else (Inl e, (s1, b1))
                      | (Inr _, b1) \<Rightarrow> (record_to_response created, (s1, b1)))))))"

definition get_voice :: "'s metadata_ops \<Rightarrow> datetime \<Rightarrow> string \<Rightarrow> 's \<Rightarrow> voice_response res \<times> 's" where
  "get_voice repo now v s = (case check_path_id v of
       Inl e \<Rightarrow> (Inl e, s)
     | Inr _ \<Rightarrow> (case m_get repo now v s of
         (Inl e, s1) \<Rightarrow> (Inl (map_not_found (voice_not_found v) e), s1)
       | (Inr r, s1) \<Rightarrow> (record_to_response r, s1)))"

definition audio_response :: "(bytes \<Rightarrow> string) \<Rightarrow> voice_record \<Rightarrow> bytes \<Rightarrow> response res" where
  "audio_response sha256 r data = (case vr_source r of
       JStr src \<Rightarrow> Inr \<lparr>resp_status = 200,
         resp_headers = [(''X-Voice-Id'', vr_id r), (''X-Voice-Source'', src),
           (''X-Content-Sha256'', sha256 data), (''content-type'', ''audio/wav'')],
         resp_body = BytesBody data\<rparr>
     | _ \<Rightarrow> Inl (OtherErr ''header value is not a string''))"

definition get_voice_audio :: "(bytes \<Rightarrow> string) \<Rightarrow> 's metadata_ops \<Rightarrow> 'b blob_ops \<Rightarrow> datetime \<Rightarrow> string \<Rightarrow>
    's \<times> 'b \<Rightarrow> response res \<times> ('s \<times> 'b)" where
  "get_voice_audio sha256 repo blobs now v st = (case st of (s, b) \<Rightarrow>
     (case check_path_id v of
        Inl e \<Rightarrow> (Inl e, (s, b))
      | Inr _ \<Rightarrow> (case m_get repo now v s of
          (Inl e, s1) \<Rightarrow> (Inl (map_not_found (voice_not_found v) e), (s1, b))
        | (Inr r, s1) \<Rightarrow> (case b_get blobs v b of
            (Inl e, b1) \<Rightarrow>
              (Inl (map_not_found (voice_error ''voice_blob_missing''
                 (''audio for voice '' @ repr_str v @ '' not found'') 404 None) e), (s1, b1))
          | (Inr data, b1) \<Rightarrow> (audio_response sha256 r data, (s1, b1))))))"

text \<open>The three steps of \<open>update_voice\<close>: the optional audio part, the blob first, then the record.\<close>

definition uploaded_blob :: "upload option \<Rightarrow> nat \<Rightarrow> bytes option res" where
  "uploaded_blob audio max_bytes = (case audio of
       None \<Rightarrow> Inr None
     | Some a \<Rightarrow> if up_filename a = None \<or> up_filename a = Some [] then Inr None
                else map_sum id Some (read_audio_validated a max_bytes))"

definition put_optional :: "'b blob_ops \<Rightarrow> string \<Rightarrow> bytes option \<Rightarrow> 'b \<Rightarrow> unit res \<times> 'b" where
  "put_optional blobs v data b = (case data of None \<Rightarrow> (Inr (), b) | Some d \<Rightarrow> b_put blobs v d b)"

definition update_record :: "'s metadata_ops \<Rightarrow> datetime \<Rightarrow> voice_record \<Rightarrow> voice_payload \<Rightarrow> 's \<Rightarrow> voice_response res \<times> 's" where
  "update_record repo now existing p s =
     (case m_update repo now (new_record (vr_id existing) p (vr_source existing) (vr_created_at existing) now) s of
        (Inl e, s2) \<Rightarrow> (Inl e, s2)
      | (Inr saved, s2) \<Rightarrow> (record_to_response saved, s2))"

definition update_voice :: "pydantic \<Rightarrow> 's metadata_ops \<Rightarrow> 'b blob_ops \<Rightarrow> nat \<Rightarrow> datetime \<Rightarrow> string \<Rightarrow>
    string + json \<Rightarrow> upload option \<Rightarrow> 's \<times> 'b \<Rightarrow> voice_response res \<times> ('s \<times> 'b)" where
  "update_voice P repo blobs max_bytes now v metadata audio st = (case st of (s, b) \<Rightarrow>
     (case check_path_id v of
        Inl e \<Rightarrow> (Inl e, (s, b))
      | Inr _ \<Rightarrow> (case parse_metadata_json (voice_update_model P) metadata of
          Inl e \<Rightarrow> (Inl e, (s, b))
        | Inr p \<Rightarrow>
            if \<not> vp_consent p then (Inl consent_required, (s, b))
            else (case m_get repo now v s of
                (Inl e, s1) \<Rightarrow> (Inl (map_not_found (voice_not_found v) e), (s1, b))
              | (Inr existing, s1) \<Rightarrow> (case uploaded_blob audio max_bytes of
                  Inl e \<Rightarrow> (Inl e, (s1, b))
                | Inr new_blob \<Rightarrow> (case put_optional blobs v new_blob b of
                    (Inl e, b1) \<Rightarrow> (Inl e, (s1, b1))
                  | (Inr _, b1) \<Rightarrow> (case update_record repo now existing p s1 of (r, s2) \<Rightarrow> (r, (s2, b1)))))))))"

text \<open>\<open>delete_voice\<close>: the second component of the result is the 204.\<close>

definition delete_voice :: "'s metadata_ops \<Rightarrow> 'b blob_ops \<Rightarrow> datetime \<Rightarrow> string \<Rightarrow>
    's \<times> 'b \<Rightarrow> response res \<times> ('s \<times> 'b)" where
  "delete_voice repo blobs now v st = (case st of (s, b) \<Rightarrow>
     (let ok = Inr \<lparr>resp_status = 204, resp_headers = [], resp_body = EmptyBody\<rparr> in
      case check_path_id v of
        Inl e \<Rightarrow> (Inl e, (s, b))
      | Inr _ \<Rightarrow> (case m_delete repo now v s of
          (Inl e, s1) \<Rightarrow> (Inl (map_not_found (voice_not_found v) e), (s1, b))
        | (Inr _, s1) \<Rightarrow> (case b_exists blobs v b of
            (Inl (VoiceNotFound _), b1) \<Rightarrow> (ok, (s1, b1))
          | (Inl e, b1) \<Rightarrow> (Inl e, (s1, b1))
          | (Inr False, b1) \<Rightarrow> (ok, (s1, b1))
          | (Inr True, b1) \<Rightarrow> (case b_delete blobs v b1 of
              (Inl (VoiceNotFound _), b2) \<Rightarrow> (ok, (s1, b2))
            | (Inl e, b2) \<Rightarrow> (Inl e, (s1, b2))
            | (Inr _, b2) \<Rightarrow> (ok, (s1, b2)))))))"

subsection \<open>What validation lets through\<close>

text \<open>
  The one fact about pydantic that is used: a string accepted for the field with the id pattern matches
  it. (Its regular expressions have no line-break exception at the end, unlike \<open>re\<close>.)
\<close>

definition pattern_law :: "pydantic \<Rightarrow> bool" where
  "pattern_law P \<longleftrightarrow> (\<forall>j v. pd_str P (Some voice_id_pattern) 0 j = Inr v \<longrightarrow> id_core v)"

lemma bindV_Inr_iff: "bindV r f = Inr y \<longleftrightarrow> (\<exists>x. r = Inr x \<and> f x = Inr y)"
  by (cases r) auto

lemma no_extra_Inr: "no_extra P names d x = Inr y \<Longrightarrow> y = x"
  by (cases "filter (\<lambda>kv. fst kv \<notin> set names) d") (simp_all add: no_extra_def)

lemma id_core_regex: "id_core v \<Longrightarrow> voice_id_regex v"
  by (simp add: voice_id_regex_def)

lemma create_model_id:
  assumes "pattern_law P" "voice_create_model P d = Inr (v, p)"
  shows "id_core v"
proof -
  have "field (pd_str P (Some voice_id_pattern) 0) (pd_missing P) d ''id'' None = Inr v"
    using assms(2) by (auto simp: voice_create_model_def bindV_Inr_iff dest!: no_extra_Inr)
  with assms(1) show ?thesis by (auto simp: field_def pattern_law_def split: option.splits sum.splits)
qed

lemma parse_metadata_Inr:
  "parse_metadata_json model raw = Inr x \<Longrightarrow> \<exists>d. raw = Inr (JObj d) \<and> model d = Inr x"
  by (auto simp: parse_metadata_json_def split: sum.splits json.splits prod.splits if_splits)

definition http_error :: "py_exc \<Rightarrow> bool" where
  "http_error e = (\<exists>st er. e = HTTPErr st er)"

lemma http_error_facts [simp]:
  "http_error (invalid_request_with m p c st)" "http_error (voice_error c m st p)" "http_error consent_required"
  by (simp_all add: http_error_def factory_defs consent_required_def)

lemma parse_metadata_Inl: "parse_metadata_json model raw = Inl e \<Longrightarrow> http_error e"
  by (auto simp: parse_metadata_json_def split: sum.splits json.splits prod.splits if_splits)

lemma check_path_id_cases:
  "check_path_id v = Inr v \<and> voice_id_regex v \<or> (\<exists>e. check_path_id v = Inl e \<and> http_error e) \<and> \<not> voice_id_regex v"
  by (auto simp: check_path_id_def validate_voice_id_def)

lemma read_audio_Inl: "read_audio_validated a n = Inl e \<Longrightarrow> http_error e"
  by (auto simp: read_audio_validated_def Let_def ref_audio_invalid_def split: if_splits)

text \<open>
  What a reference audio that is accepted looks like. It is the whole upload, non-empty and no
  longer than the configured limit, under an allowed content type, and its first bytes are those of that
  type; every refusal is a 400 with the code \<open>ref_audio_invalid\<close> on the parameter \<open>audio\<close>.
\<close>

theorem read_audio_validated_sound:
  "(case read_audio_validated a max_bytes of
     Inr data \<Rightarrow> data = up_data a \<and> 0 < length data \<and> length data \<le> max_bytes \<and>
       (\<exists>ct. up_content_type a = Some ct \<and> lower ct \<in> set allowed_content_types \<and>
          check_magic_bytes (lower ct) data \<and>
          (lower ct = ''audio/wav'' \<or> lower ct = ''audio/x-wav'' \<or> lower ct = ''audio/flac'' \<or> lower ct = ''audio/mpeg''))
   | Inl e \<Rightarrow> (\<exists>er. e = HTTPErr 400 er \<and> oe_code er = ''ref_audio_invalid'' \<and> oe_param er = Some ''audio'' \<and>
       oe_type er = ValidationError \<and> registered er))"
proof (cases "read_audio_validated a max_bytes")
  case (Inl e)
  then show ?thesis
    by (auto simp: read_audio_validated_def Let_def ref_audio_invalid_def invalid_request_with_def make_err_def
        registered_def split: if_splits)
next
  case (Inr data)
  then have d: "data = take (max_bytes + 1) (up_data a)" "length data \<le> max_bytes" "data \<noteq> []"
    "lower (case up_content_type a of None \<Rightarrow> [] | Some c \<Rightarrow> c) \<in> set allowed_content_types"
    "check_magic_bytes (lower (case up_content_type a of None \<Rightarrow> [] | Some c \<Rightarrow> c)) data"
    by (auto simp: read_audio_validated_def Let_def split: if_splits)
  then have "length (up_data a) \<le> max_bytes" by auto
  with d(1) have "data = up_data a" by simp
  moreover obtain ct where "up_content_type a = Some ct"
    using d(4) by (cases "up_content_type a") (auto simp: allowed_content_types_def lower_def)
  ultimately show ?thesis using d Inr by (auto simp: allowed_content_types_def)
qed

subsection \<open>The handlers over any two repositories\<close>

context voice_store
begin

lemma read_only_list:
  "inv s \<Longrightarrow> list_voices repo now s = (r, s') \<Longrightarrow> inv s' \<and> abs s' = abs s \<and>
    (case r of Inr xs \<Rightarrow> sm_id ` set xs = dom (abs s) | Inl e \<Rightarrow> backend_failure e)"
proof -
  assume i: "inv s" and l: "list_voices repo now s = (r, s')"
  obtain r0 where r0: "m_list repo now s = (r0, s')"
    using l by (auto simp: list_voices_def split: prod.splits sum.splits)
  note ok = list_ok [OF i r0]
  show ?thesis
  proof (cases r0)
    case (Inl e)
    with r0 l ok show ?thesis by (auto simp: list_voices_def)
  next
    case (Inr rs)
    have src: "source_ok (vr_source x)" if "x \<in> set rs" for x
    proof -
      from that ok Inr obtain v where "abs s v = Some x" by (auto simp: ran_def)
      with abs_id [OF i] show ?thesis by (auto simp: storable_at_def)
    qed
    let ?sum = "\<lambda>x. \<lparr>sm_id = vr_id x, sm_language = vr_language x, sm_source = vr_source x, sm_created_at = vr_created_at x\<rparr>"
    have "res_map record_to_summary rs = Inr (map ?sum rs)"
      by (rule res_map_all) (simp add: record_to_summary_def src)
    with r0 l Inr have r: "r = Inr (map ?sum rs)" by (simp add: list_voices_def)
    have "vr_id ` ran (abs s) = dom (abs s)"
      using abs_id [OF i] by (force simp: ran_def dom_def)
    with ok Inr r show ?thesis by (simp add: image_image)
  qed
qed

lemma get_voice_spec:
  "inv s \<Longrightarrow> get_voice repo now v s = (r, s') \<Longrightarrow> inv s' \<and> abs s' = abs s \<and>
    (case r of
       Inr resp \<Rightarrow> voice_id_regex v \<and> (\<exists>x. abs s v = Some x \<and> record_to_response x = Inr resp \<and> vs_id resp = v)
     | Inl e \<Rightarrow> \<not> voice_id_regex v \<and> http_error e \<or> e = voice_not_found v \<and> abs s v = None \<or> backend_failure e)"
proof -
  assume i: "inv s" and g: "get_voice repo now v s = (r, s')"
  show ?thesis
  proof (cases "voice_id_regex v")
    case False
    with g i check_path_id_cases [of v] show ?thesis by (auto simp: get_voice_def)
  next
    case True
    then have c: "check_path_id v = Inr v" using check_path_id_cases [of v] by auto
    obtain r0 where r0: "m_get repo now v s = (r0, s')"
      using g c by (auto simp: get_voice_def split: prod.splits sum.splits)
    note ok = get_ok [OF i r0 True]
    show ?thesis
    proof (cases r0)
      case (Inl e)
      then have r: "r = Inl (map_not_found (voice_not_found v) e)" using g c r0 by (simp add: get_voice_def)
      have "map_not_found (voice_not_found v) e = e" if "backend_failure e" using that by (cases e) auto
      with ok Inl r show ?thesis by auto
    next
      case (Inr x)
      then have "r = record_to_response x" using g c r0 by (simp add: get_voice_def)
      moreover have "vr_id x = v" "source_ok (vr_source x)"
        using abs_id [OF i, of v x] ok Inr by (auto simp: storable_at_def)
      ultimately show ?thesis using ok Inr True by (auto simp: record_to_response_def)
    qed
  qed
qed

end

lemma new_record_storable:
  "voice_id_regex v \<Longrightarrow> source_ok src \<Longrightarrow> stamp t \<Longrightarrow> stamp u \<Longrightarrow> storable_at stamp (new_record v p src t u)"
  by (simp add: storable_at_def new_record_def)

lemma new_record_id [simp]: "vr_id (new_record v p src t u) = v"
  by (simp add: new_record_def)

lemma record_to_response_ok:
  "source_ok (vr_source x) \<Longrightarrow> \<exists>resp. record_to_response x = Inr resp \<and> vs_id resp = vr_id x"
  by (simp add: record_to_response_def)

lemma backend_failure_mapped: "backend_failure e \<Longrightarrow> map_not_found e' e = e"
  by (cases e) auto

context voice_store
begin

text \<open>
  The outcomes of \<open>create_voice\<close>: both stores take the voice; or neither changes; or the blob write
  failed, the metadata was already in, and the roll-back is what became of it.
\<close>

lemma create_voice_spec:
  assumes "pattern_law P" "stamp now" "inv s" "binv b"
    and "create_voice P repo blobs n now metadata audio (s, b) = (r, (s', b'))"
  shows "inv s' \<and> binv b' \<and> (case r of
      Inr resp \<Rightarrow> (\<exists>x data. read_audio_validated audio n = Inr data \<and> abs s (vr_id x) = None \<and> id_core (vr_id x) \<and>
         abs s' = (abs s)(vr_id x \<mapsto> x) \<and> babs b' = (babs b)(vr_id x \<mapsto> data) \<and> vr_consent x \<and>
         vr_source x = JStr ''crud'' \<and> vr_created_at x = now \<and> record_to_response x = Inr resp)
    | Inl e \<Rightarrow> babs b' = babs b \<and> (abs s' = abs s \<and> (http_error e \<or> backend_failure e) \<or>
         (\<exists>x s1 r1. abs s (vr_id x) = None \<and> storable_at stamp x \<and> m_create repo now x s = (Inr x, s1) \<and>
            m_delete repo now (vr_id x) s1 = (r1, s') \<and> backend_failure e \<and>
            abs s1 = (abs s)(vr_id x \<mapsto> x) \<and> abs s' = (case r1 of Inr _ \<Rightarrow> abs s | Inl _ \<Rightarrow> abs s1))))"
proof (cases "parse_metadata_json (voice_create_model P) metadata")
  case (Inl e)
  then show ?thesis using assms(3-) parse_metadata_Inl [OF Inl] by (auto simp: create_voice_def)
next
  case (Inr vp)
  obtain v p where vp: "vp = (v, p)" by (cases vp)
  from parse_metadata_Inr [OF Inr] vp create_model_id [OF assms(1)] have v: "id_core v" by auto
  let ?x = "new_record v p (JStr ''crud'') now now"
  have x: "storable_at stamp ?x" using v assms(2) by (simp add: new_record_storable id_core_regex source_ok_def)
  show ?thesis
  proof (cases "vp_consent p")
    case False
    then show ?thesis using assms(3-) Inr vp by (auto simp: create_voice_def)
  next
    case True
    show ?thesis
    proof (cases "read_audio_validated audio n")
      case (Inl e)
      then show ?thesis using assms(3-) Inr vp True read_audio_Inl [OF Inl] by (auto simp: create_voice_def)
    next
      case data: (Inr data)
      obtain r0 s1 where m: "m_create repo now ?x s = (r0, s1)" by fastforce
      note mok = create_ok [OF assms(3) m x]
      have eval: "create_voice P repo blobs n now metadata audio (s, b) =
        (case r0 of Inl (VoiceAlreadyExists _) \<Rightarrow>
            (Inl (invalid_request_with (''voice id '' @ repr_str v @ '' already exists'') (Some ''id'') ''voice_id_exists'' 409), (s1, b))
         | Inl (VoiceIdInvalid msg) \<Rightarrow> (Inl (invalid_request_code msg (Some ''id'') ''invalid_parameter''), (s1, b))
         | Inl e \<Rightarrow> (Inl e, (s1, b))
         | Inr created \<Rightarrow> (case b_put blobs v data b of
             (Inl e, b1) \<Rightarrow> if is_exception e then (Inl e, (snd (m_delete repo now v s1), b1)) else (Inl e, (s1, b1))
           | (Inr _, b1) \<Rightarrow> (record_to_response created, (s1, b1))))"
        using Inr vp True data m by (simp add: create_voice_def split: sum.split)
      show ?thesis
      proof (cases r0)
        case (Inl e)
        then show ?thesis using eval assms(4,5) mok by (cases e) auto
      next
        case (Inr y)
        with mok have y: "y = ?x" "abs s v = None" "abs s1 = (abs s)(v \<mapsto> ?x)" "inv s1" by auto
        obtain r1 b1 where p: "b_put blobs v data b = (r1, b1)" by fastforce
        note pok = put_ok [OF assms(4) p id_core_regex [OF v]]
        show ?thesis
        proof (cases r1)
          case (Inr u)
          obtain resp where resp: "record_to_response ?x = Inr resp"
            using x by (auto simp: record_to_response_def storable_at_def)
          have "r = Inr resp" "s' = s1" "b' = b1"
            using eval assms(5) \<open>r0 = Inr y\<close> p Inr y resp by auto
          with y pok Inr resp data v show ?thesis
            by (auto intro!: exI [of _ ?x] simp: new_record_def)
        next
          case (Inl e)
          with pok have e: "backend_failure e" "babs b1 = babs b" "binv b1" by auto
          then have "is_exception e" by (cases e) auto
          obtain r2 s2 where d: "m_delete repo now v s1 = (r2, s2)" by fastforce
          note dok = delete_ok [OF y(4) d id_core_regex [OF v]]
          have res: "r = Inl e" "s' = s2" "b' = b1"
            using eval assms(5) \<open>r0 = Inr y\<close> p Inl y \<open>is_exception e\<close> d by auto
          have "abs s2 = (case r2 of Inr _ \<Rightarrow> abs s | Inl _ \<Rightarrow> abs s1)"
            using dok y(2,3) by (auto split: sum.splits simp: fun_eq_iff)
          with res e dok d y m \<open>r0 = Inr y\<close> x show ?thesis
            by (auto intro!: exI [of _ ?x])
        qed
      qed
    qed
  qed
qed

text \<open>
  The outcomes of \<open>delete_voice\<close>: both are gone; or nothing changes; or the metadata is gone and the
  blob backend failed.
\<close>

lemma delete_voice_spec:
  assumes "inv s" "binv b" "delete_voice repo blobs now v (s, b) = (r, (s', b'))"
  shows "inv s' \<and> binv b' \<and> (case r of
      Inr resp \<Rightarrow> voice_id_regex v \<and> resp_status resp = 204 \<and> abs s v \<noteq> None \<and> abs s' = (abs s)(v := None) \<and>
        babs b' = (babs b)(v := None)
    | Inl e \<Rightarrow> babs b' = babs b \<and>
        (abs s' = abs s \<and> (\<not> voice_id_regex v \<and> http_error e \<or> e = voice_not_found v \<and> abs s v = None \<or> backend_failure e) \<or>
         abs s v \<noteq> None \<and> abs s' = (abs s)(v := None) \<and> backend_failure e \<and>
           (\<exists>b1. fst (b_exists blobs v b) = Inl e \<or> b_exists blobs v b = (Inr True, b1) \<and> fst (b_delete blobs v b1) = Inl e)))"
proof (cases "voice_id_regex v")
  case False
  with assms check_path_id_cases [of v] show ?thesis by (auto simp: delete_voice_def Let_def)
next
  case True
  then have c: "check_path_id v = Inr v" using check_path_id_cases [of v] by auto
  obtain r0 s1 where m: "m_delete repo now v s = (r0, s1)" by fastforce
  note mok = delete_ok [OF assms(1) m True]
  show ?thesis
  proof (cases r0)
    case (Inl e)
    then have "r = Inl (map_not_found (voice_not_found v) e)" "s' = s1" "b' = b"
      using assms(3) c m by (auto simp: delete_voice_def Let_def)
    with mok Inl assms(2) show ?thesis by (auto simp: backend_failure_mapped)
  next
    case (Inr u)
    obtain r1 b1 where e: "b_exists blobs v b = (r1, b1)" by fastforce
    note eok = bexists_ok [OF assms(2) e True]
    obtain r2 b2 where d: "b_delete blobs v b1 = (r2, b2)" by fastforce
    from eok have "binv b1" by blast
    note dok = bdelete_ok [OF this d True]
    have noop: "babs b = (babs b)(v := None)" if "babs b v = None" using that by auto
    show ?thesis
    proof (cases r1)
      case r1: (Inl e1)
      with eok have "backend_failure e1" by auto
      moreover from this have "r = Inl e1" "s' = s1" "b' = b1"
        using assms(3) c m e r1 Inr by (cases e1; simp add: delete_voice_def Let_def)+
      ultimately show ?thesis using mok Inr eok e r1 by auto
    next
      case r1: (Inr ex)
      show ?thesis
      proof (cases ex)
        case False
        then have "r = Inr \<lparr>resp_status = 204, resp_headers = [], resp_body = EmptyBody\<rparr>" "s' = s1" "b' = b1"
          using assms(3) c m e r1 Inr by (auto simp: delete_voice_def Let_def)
        with mok Inr eok r1 False True noop show ?thesis by auto
      next
        case ex: True
        show ?thesis
        proof (cases r2)
          case r2: (Inr u2)
          then have "r = Inr \<lparr>resp_status = 204, resp_headers = [], resp_body = EmptyBody\<rparr>" "s' = s1" "b' = b2"
            using assms(3) c m e r1 Inr ex d by (auto simp: delete_voice_def Let_def)
          with mok Inr eok r1 dok r2 True show ?thesis by auto
        next
          case r2: (Inl e2)
          with dok eok r1 ex have f: "backend_failure e2" "babs b2 = babs b" "binv b2" by auto
          then have "r = Inl e2" "s' = s1" "b' = b2"
            using assms(3) c m e r1 Inr ex d r2 by (cases e2; simp add: delete_voice_def Let_def)+
          with mok Inr f e r1 ex d r2 show ?thesis by auto
        qed
      qed
    qed
  qed
qed

end

lemma uploaded_blob_Inl: "uploaded_blob audio n = Inl e \<Longrightarrow> http_error e"
  by (cases audio; cases "read_audio_validated (the audio) n")
     (auto simp: uploaded_blob_def read_audio_Inl split: if_splits)

lemma uploaded_blob_Inr:
  "uploaded_blob audio n = Inr nb \<Longrightarrow> nb = None \<or> (\<exists>a d. audio = Some a \<and> read_audio_validated a n = Inr d \<and> nb = Some d)"
  by (cases audio; cases "read_audio_validated (the audio) n")
     (auto simp: uploaded_blob_def split: if_splits)

context voice_store
begin

lemma put_optional_ok:
  "binv b \<Longrightarrow> put_optional blobs v nb b = (r, b') \<Longrightarrow> voice_id_regex v \<Longrightarrow> binv b' \<and>
    (case r of Inr _ \<Rightarrow> babs b' = (case nb of None \<Rightarrow> babs b | Some d \<Rightarrow> (babs b)(v \<mapsto> d))
     | Inl e \<Rightarrow> babs b' = babs b \<and> backend_failure e)"
  by (cases nb) (auto simp: put_optional_def dest: put_ok split: sum.splits)

lemma update_record_ok:
  assumes "inv s" "update_record repo now x p s = (r, s')" "abs s (vr_id x) = Some x" "storable_at stamp x" "stamp now"
  shows "inv s' \<and> (case r of
      Inr resp \<Rightarrow> record_to_response (new_record (vr_id x) p (vr_source x) (vr_created_at x) now) = Inr resp \<and>
        abs s' = (abs s)(vr_id x \<mapsto> new_record (vr_id x) p (vr_source x) (vr_created_at x) now)
    | Inl e \<Rightarrow> abs s' = abs s \<and> backend_failure e)"
proof -
  let ?y = "new_record (vr_id x) p (vr_source x) (vr_created_at x) now"
  have y: "storable_at stamp ?y" using assms(4,5) by (auto simp: storable_at_def new_record_def)
  obtain r0 where r0: "m_update repo now ?y s = (r0, s')"
    using assms(2) by (auto simp: update_record_def split: prod.splits sum.splits)
  note uok = update_ok [OF assms(1) r0 y]
  have "source_ok (vr_source ?y)" using y by (simp add: storable_at_def)
  then have "r = (case r0 of Inl e \<Rightarrow> Inl e | Inr saved \<Rightarrow> record_to_response saved)"
    using assms(2) r0 by (simp add: update_record_def split: sum.splits)
  with uok assms(3) record_to_response_ok [OF \<open>source_ok (vr_source ?y)\<close>] show ?thesis
    by (cases r0) auto
qed

text \<open>
  The outcomes of \<open>update_voice\<close>: the record is replaced, its provenance and creation time kept, and
  the blob with it if one was uploaded; or the record stays.
\<close>

lemma update_voice_spec:
  assumes "stamp now" "inv s" "binv b"
    and "update_voice P repo blobs n now v metadata audio (s, b) = (r, (s', b'))"
  shows "inv s' \<and> binv b' \<and> (case r of
      Inr resp \<Rightarrow> voice_id_regex v \<and> (\<exists>x p. abs s v = Some x \<and>
         abs s' = (abs s)(v \<mapsto> new_record v p (vr_source x) (vr_created_at x) now) \<and>
         record_to_response (new_record v p (vr_source x) (vr_created_at x) now) = Inr resp \<and>
         (babs b' = babs b \<or> (\<exists>a data. audio = Some a \<and> read_audio_validated a n = Inr data \<and> babs b' = (babs b)(v \<mapsto> data))))
    | Inl e \<Rightarrow> abs s' = abs s \<and> (babs b' = babs b \<and> (http_error e \<or> backend_failure e) \<or>
         abs s v \<noteq> None \<and> backend_failure e \<and>
         (\<exists>a data. audio = Some a \<and> read_audio_validated a n = Inr data \<and> babs b' = (babs b)(v \<mapsto> data))))"
proof (cases "voice_id_regex v")
  case False
  with assms(2-) check_path_id_cases [of v] show ?thesis by (auto simp: update_voice_def)
next
  case True
  then have c: "check_path_id v = Inr v" using check_path_id_cases [of v] by auto
  show ?thesis
  proof (cases "parse_metadata_json (voice_update_model P) metadata")
    case (Inl e)
    with parse_metadata_Inl [OF Inl] c assms(2-) show ?thesis by (auto simp: update_voice_def)
  next
    case p: (Inr p)
    show ?thesis
    proof (cases "vp_consent p")
      case False
      with p c assms(2-) show ?thesis by (auto simp: update_voice_def)
    next
      case consent: True
      obtain r0 s1 where m: "m_get repo now v s = (r0, s1)" by fastforce
      note mok = get_ok [OF assms(2) m True]
      show ?thesis
      proof (cases r0)
        case (Inl e)
        then have "r = Inl (map_not_found (voice_not_found v) e)" "s' = s1" "b' = b"
          using assms(4) c p consent m by (auto simp: update_voice_def)
        with mok Inl assms(3) show ?thesis by (auto simp: backend_failure_mapped voice_not_found_def)
      next
        case (Inr x)
        with mok have x: "abs s v = Some x" "inv s1" "abs s1 = abs s" by auto
        with abs_id [OF assms(2), of v x] have xi: "vr_id x = v" "storable_at stamp x" by auto
        show ?thesis
        proof (cases "uploaded_blob audio n")
          case nb: (Inl e)
          from uploaded_blob_Inl [OF nb] c p consent m Inr nb assms(3,4) x show ?thesis
            by (auto simp: update_voice_def)
        next
          case nb: (Inr new_blob)
          obtain r1 b1 where put: "put_optional blobs v new_blob b = (r1, b1)" by fastforce
          obtain r2 s2 where upd: "update_record repo now x p s1 = (r2, s2)" by fastforce
          have eval: "update_voice P repo blobs n now v metadata audio (s, b) =
              (case r1 of Inl e \<Rightarrow> (Inl e, (s1, b1)) | Inr _ \<Rightarrow> (r2, (s2, b1)))"
            using c p consent m Inr nb put upd by (simp add: update_voice_def split: sum.split)
          have stored: "babs b1 = babs b \<or> (\<exists>a data. audio = Some a \<and> read_audio_validated a n = Inr data \<and> babs b1 = (babs b)(v \<mapsto> data))"
              if "r1 = Inr u" for u
            using put_optional_ok [OF assms(3) put True] uploaded_blob_Inr [OF nb] that by auto
          show ?thesis
          proof (cases r1)
            case r1: (Inl e)
            with put_optional_ok [OF assms(3) put True] eval assms(4) x show ?thesis by auto
          next
            case r1: (Inr u)
            have "binv b1" using put_optional_ok [OF assms(3) put True] by auto
            with update_record_ok [OF x(2) upd _ xi(2) assms(1)] stored [OF r1] eval r1 assms(4) x xi(1) True show ?thesis
              by (cases r2) auto
          qed
        qed
      qed
    qed
  qed
qed

end

subsection \<open>The handlers on the file-system stores\<close>

lemma atomic_write_no_fault:
  "atomic_write al fs = (r, fs') \<Longrightarrow> mf_faults fs = [] \<Longrightarrow> r = Inr () \<and> mf_faults fs' = []"
  by (auto simp: atomic_write_def Let_def)

lemma fs_create_faults:
  "fs_create L now x fs = (r, fs') \<Longrightarrow> mf_faults fs = [] \<Longrightarrow> mf_faults fs' = []"
  by (auto simp: fs_create_def split: sum.splits if_splits prod.splits dest: atomic_write_no_fault)

lemma fs_update_faults:
  "fs_update L now x fs = (r, fs') \<Longrightarrow> mf_faults fs = [] \<Longrightarrow> mf_faults fs' = []"
  by (auto simp: fs_update_def split: sum.splits if_splits prod.splits dest: atomic_write_no_fault)

lemma fs_delete_faults:
  "fs_delete L now v fs = (r, fs') \<Longrightarrow> mf_faults fs = [] \<Longrightarrow> mf_faults fs' = []"
  by (auto simp: fs_delete_def split: sum.splits if_splits dest: atomic_write_no_fault)

lemma fs_delete_no_fault:
  assumes "meta_inv L fs" "voice_id_regex v" "mf_faults fs = []" "fs_delete L now v fs = (Inl e, fs')"
  shows "e = VoiceNotFound v \<and> fs' = fs"
  using assms(1)
proof (elim meta_inv_obtain)
  fix al assume "\<And>now. load_all L now fs = Inr al"
  with assms(2-4) show ?thesis
    by (auto simp: fs_delete_def validate_voice_id_def split: if_splits dest: atomic_write_no_fault)
qed

abbreviation fs_create_voice where
  "fs_create_voice P L \<equiv> create_voice P (fs_metadata_repo L) fs_blob_repo"

abbreviation fs_delete_voice where
  "fs_delete_voice L \<equiv> delete_voice (fs_metadata_repo L) fs_blob_repo"

abbreviation fs_update_voice where
  "fs_update_voice P L \<equiv> update_voice P (fs_metadata_repo L) fs_blob_repo"

lemma fs_create_voice_outcome:
  assumes "pattern_law P" "valid_datetime now" "meta_inv L s" "mf_faults s = []"
    and c: "fs_create_voice P L n now metadata audio (s, b) = (r, (s', b'))"
  shows "meta_inv L s' \<and> (case r of
      Inr resp \<Rightarrow> (\<exists>x data. read_audio_validated audio n = Inr data \<and> meta_abs L s (vr_id x) = None \<and> id_core (vr_id x) \<and>
         meta_abs L s' = (meta_abs L s)(vr_id x \<mapsto> x) \<and> blob_abs b' = (blob_abs b)(vr_id x \<mapsto> data) \<and> vr_consent x \<and>
         vr_source x = JStr ''crud'' \<and> vr_created_at x = now \<and> record_to_response x = Inr resp)
    | Inl e \<Rightarrow> blob_abs b' = blob_abs b \<and> meta_abs L s' = meta_abs L s)"
proof (cases r)
  case (Inr resp)
  with fsstore.create_voice_spec [OF assms(1-3) TrueI c] show ?thesis by auto
next
  case (Inl e)
  have "meta_abs L s' = meta_abs L s" if
      x: "meta_abs L s (vr_id x) = None" "storable x" "m_create (fs_metadata_repo L) now x s = (Inr x, s1)"
         "m_delete (fs_metadata_repo L) now (vr_id x) s1 = (r1, s')"
         "meta_abs L s1 = (meta_abs L s)(vr_id x \<mapsto> x)"
         "meta_abs L s' = (case r1 of Inr _ \<Rightarrow> meta_abs L s | Inl _ \<Rightarrow> meta_abs L s1)" for x s1 r1
  proof (cases r1)
    case (Inl e2)
    have c1: "fs_create L now x s = (Inr x, s1)" using x(3) by (simp add: fs_metadata_repo_sel)
    have f: "mf_faults s1 = []" using fs_create_faults [OF c1 assms(4)] .
    have i: "meta_inv L s1" using fs_create_ok [OF assms(3) x(2) c1] by auto
    have v: "voice_id_regex (vr_id x)" using x(2) by (simp add: storable_def)
    from fs_delete_ok [OF i v, of now r1 s'] fs_delete_no_fault [OF i v f, of now e2 s'] Inl x(4,5)
    show ?thesis by (auto simp: fs_metadata_repo_sel is_write_error_def)
  qed (use x in simp)
  with Inl fsstore.create_voice_spec [OF assms(1-3) TrueI c] show ?thesis by auto
qed


text \<open>A pydantic that accepts strings as they are, and no other type for another.\<close>

definition strict_pydantic :: pydantic where
  "strict_pydantic = \<lparr>
     pd_str = (\<lambda>pat k j. case j of JStr s \<Rightarrow> if k \<le> length s \<and> (pat = None \<or> id_core s) then Inr s else Inl ''String should match pattern''
       | _ \<Rightarrow> Inl ''Input should be a valid string''),
     pd_bool = (\<lambda>j. case j of JBool b \<Rightarrow> Inr b | _ \<Rightarrow> Inl ''Input should be a valid boolean''),
     pd_float = (\<lambda>j. case json_number j of Some f \<Rightarrow> Inr f | None \<Rightarrow> Inl ''Input should be a valid number''),
     pd_int = (\<lambda>j. case json_int j of Some i \<Rightarrow> Inr i | None \<Rightarrow> Inl ''Input should be a valid integer''),
     pd_missing = ''Field required'', pd_extra = ''Extra inputs are not permitted''\<rparr>"

lemma strict_pydantic_law: "\<forall>j v. pd_str strict_pydantic (Some voice_id_pattern) 0 j = Inr v \<longrightarrow> id_core v"
  by (auto simp: strict_pydantic_def split: json.splits if_splits)

definition sample_metadata :: json where
  "sample_metadata = JObj [(''id'', JStr ''mario''), (''transcript'', JStr ''ciao''), (''language'', JStr ''it''),
     (''consent_acknowledged'', JBool True)]"

definition sample_upload :: upload where
  "sample_upload = \<lparr>up_filename = Some ''m.flac'', up_content_type = Some ''audio/flac'', up_data = ascii ''fLaC''\<rparr>"

definition sample_blobs :: "write_fault list \<Rightarrow> blob_fs" where
  "sample_blobs fl = \<lparr>bf_files = [], bf_faults = fl, bf_tmp = 0\<rparr>"

definition sample_meta :: meta_fs where
  "sample_meta = (empty_fs ''metadata.json'')\<lparr>mf_faults := []\<rparr>"

lemma sample_meta_facts [simp]:
  "meta_inv L sample_meta" "meta_abs L sample_meta = Map.empty" "mf_faults sample_meta = []"
  by (simp_all add: sample_meta_def meta_inv_def meta_abs_def load_all_def empty_fs_def)

lemma sample_read_audio: "read_audio_validated sample_upload 10 = Inr (ascii ''fLaC'')"
proof -
  have "lower ''audio/flac'' = ''audio/flac''" by (rule lower_id) (simp add: lower_cp_def)
  then show ?thesis
    by (simp add: read_audio_validated_def sample_upload_def allowed_content_types_def
        ascii_def check_magic_bytes_def Let_def)
qed

lemma sample_metadata_parses:
  "parse_metadata_json (voice_create_model strict_pydantic) (Inr sample_metadata) =
     Inr (''mario'', \<lparr>vp_transcript = ''ciao'', vp_language = ''it'', vp_consent = True, vp_number_lang = [],
       vp_target_db = Fin (- 20), vp_temperature = Fin (4 / 5), vp_top_p = Fin (19 / 20), vp_max_sentences = 2\<rparr>)"
  by (simp add: parse_metadata_json_def sample_metadata_def voice_create_model_def payload_fields_def field_def
        strict_pydantic_def no_extra_def update_fields_def id_core_def id_char_def is_digit_def)


text \<open>
  C14: \<open>DELETE /v1/tts/voices/{id}\<close>. The answer 204 means that the voice was there and is gone from
  both stores; every other answer leaves both stores as they were, and on a working disk a well-formed
  id is refused, with 404 and \<open>voice_not_found\<close>, exactly when there is no such voice.
\<close>

theorem delete_voice_atomic:
  assumes "meta_inv L s" "delete_voice (fs_metadata_repo L) fs_blob_repo now v (s, b) = (r, (s', b'))"
  shows "meta_inv L s' \<and> (case r of
      Inr resp \<Rightarrow> resp_status resp = 204 \<and> meta_abs L s v \<noteq> None \<and>
        meta_abs L s' = (meta_abs L s)(v := None) \<and> blob_abs b' = (blob_abs b)(v := None)
    | Inl e \<Rightarrow> meta_abs L s' = meta_abs L s \<and> blob_abs b' = blob_abs b \<and>
        (voice_id_regex v \<and> mf_faults s = [] \<longrightarrow> e = voice_not_found v \<and> meta_abs L s v = None))"
proof (cases "voice_id_regex v")
  case False
  with assms check_path_id_cases [of v] show ?thesis by (auto simp: delete_voice_def Let_def)
next
  case True
  have "\<not> (fst (b_exists fs_blob_repo v b) = Inl e \<or> b_exists fs_blob_repo v b = (Inr True, b1) \<and> fst (b_delete fs_blob_repo v b1) = Inl e)" for e b1
    using True by (auto simp: fs_blob_repo_sel fsb_exists_ok fsb_delete_def blob_abs_def)
  note spec = fsstore.delete_voice_spec [OF assms(1) TrueI assms(2)] this
  have "e = voice_not_found v \<and> meta_abs L s v = None" if r: "r = Inl e" and f: "mf_faults s = []" for e
  proof -
    obtain r0 s1 where d: "fs_delete L now v s = (r0, s1)" by fastforce
    have c: "check_path_id v = Inr v" using True check_path_id_cases [of v] by auto
    show ?thesis
    proof (cases r0)
      case (Inl e0)
      from fs_delete_no_fault [OF assms(1) True f, of now e0 s1] d Inl have "e0 = VoiceNotFound v" by auto
      with d Inl c assms(2) r fs_delete_ok [OF assms(1) True d] show ?thesis
        by (auto simp: delete_voice_def fs_metadata_repo_sel is_write_error_def Let_def split: if_splits)
    next
      case (Inr u)
      then show ?thesis
        using d c assms(2) r True
        by (auto simp: delete_voice_def fs_metadata_repo_sel fs_blob_repo_sel Let_def fsb_exists_ok fsb_delete_def
            blob_abs_def split: if_splits bool.splits)
    qed
  qed
  with spec show ?thesis by (auto split: sum.splits)
qed

theorem delete_voice_atomic_witness:
  "(case delete_voice (fs_metadata_repo sample_stdlib) fs_blob_repo sample_time ''mario'' (sample_meta, sample_blobs []) of
     (r, (s', b')) \<Rightarrow> r = Inl (voice_not_found ''mario'') \<and> meta_abs sample_stdlib s' = Map.empty)"
proof -
  obtain r s' b' where e: "delete_voice (fs_metadata_repo sample_stdlib) fs_blob_repo sample_time ''mario'' (sample_meta, sample_blobs []) = (r, (s', b'))"
    by (metis prod.exhaust)
  have v: "voice_id_regex ''mario''" using sample_voice_storable by (simp add: storable_def sample_voice_def)
  show ?thesis
    using delete_voice_atomic [OF sample_meta_facts(1) e] v by (auto simp: e split: sum.splits)
qed


lemma sample_update_eval:
  "update_voice strict_pydantic (fs_metadata_repo L) fs_blob_repo 10 sample_time ''mario'' (Inl ''Expecting value'') None
     (sample_meta, sample_blobs []) =
   (Inl (invalid_request_code ''metadata is not valid JSON: Expecting value'' (Some ''metadata'') ''invalid_parameter''),
     (sample_meta, sample_blobs []))"
proof -
  have "voice_id_regex ''mario''" using sample_voice_storable by (simp add: storable_def sample_voice_def)
  then show ?thesis by (simp add: update_voice_def parse_metadata_json_def check_path_id_def validate_voice_id_def)
qed


subsection \<open>Every voice has its audio\<close>

datatype voice_request =
    ListVoices
  | CreateVoice "string + json" upload
  | GetVoice string
  | GetVoiceAudio string
  | UpdateVoice string "string + json" "upload option"
  | DeleteVoice string

fun voice_effect :: "pydantic \<Rightarrow> stdlib \<Rightarrow> nat \<Rightarrow> datetime \<times> voice_request \<Rightarrow> meta_fs \<times> blob_fs \<Rightarrow> meta_fs \<times> blob_fs" where
  "voice_effect P L n (now, ListVoices) (s, b) = (snd (list_voices (fs_metadata_repo L) now s), b)"
| "voice_effect P L n (now, CreateVoice m a) st = snd (create_voice P (fs_metadata_repo L) fs_blob_repo n now m a st)"
| "voice_effect P L n (now, GetVoice v) (s, b) = (snd (get_voice (fs_metadata_repo L) now v s), b)"
| "voice_effect P L n (now, GetVoiceAudio v) st =
     snd (get_voice_audio (\<lambda>_. []) (fs_metadata_repo L) fs_blob_repo now v st)"
| "voice_effect P L n (now, UpdateVoice v m a) st = snd (update_voice P (fs_metadata_repo L) fs_blob_repo n now v m a st)"
| "voice_effect P L n (now, DeleteVoice v) st = snd (delete_voice (fs_metadata_repo L) fs_blob_repo now v st)"

definition paired :: "stdlib \<Rightarrow> meta_fs \<times> blob_fs \<Rightarrow> bool" where
  "paired L st = (meta_inv L (fst st) \<and> mf_faults (fst st) = [] \<and> dom (meta_abs L (fst st)) \<subseteq> dom (blob_abs (snd st)))"

lemma m_get_state: "m_get (fs_metadata_repo L) now v s = (r, s') \<Longrightarrow> s' = s"
  by (auto simp: fs_metadata_repo_sel fs_get_def)

lemma b_get_state: "b_get fs_blob_repo v b = (r, b') \<Longrightarrow> b' = b"
  by (auto simp: fs_blob_repo_sel fsb_get_def)

lemma get_voice_audio_state: "get_voice_audio h (fs_metadata_repo L) fs_blob_repo now v (s, b) = (r, st) \<Longrightarrow> st = (s, b)"
  by (auto simp: get_voice_audio_def dest!: m_get_state b_get_state split: sum.splits prod.splits)

lemma get_voice_state: "get_voice (fs_metadata_repo L) now v s = (r, s') \<Longrightarrow> s' = s"
  by (auto simp: get_voice_def dest!: m_get_state split: sum.splits prod.splits)

lemma list_voices_state: "list_voices (fs_metadata_repo L) now s = (r, s') \<Longrightarrow> s' = s"
  by (auto simp: list_voices_def fs_metadata_repo_sel fs_list_def split: sum.splits prod.splits)

lemma m_delete_faults: "m_delete (fs_metadata_repo L) now v s = (r, s') \<Longrightarrow> mf_faults s = [] \<Longrightarrow> mf_faults s' = []"
  by (simp add: fs_metadata_repo_sel fs_delete_faults)

lemma delete_voice_faults:
  assumes "delete_voice (fs_metadata_repo L) fs_blob_repo now v (s, b) = (r, (s', b'))" "mf_faults s = []"
  shows "mf_faults s' = []"
proof (cases "check_path_id v")
  case (Inl e)
  with assms show ?thesis by (simp add: delete_voice_def Let_def)
next
  case (Inr w)
  obtain r0 s1 where d: "m_delete (fs_metadata_repo L) now v s = (r0, s1)" by fastforce
  have "s' = s1"
    using assms(1) Inr d
    by (auto simp: delete_voice_def Let_def split: sum.splits prod.splits py_exc.splits bool.splits)
  with m_delete_faults [OF d assms(2)] show ?thesis by simp
qed

lemma create_voice_faults:
  assumes "create_voice P (fs_metadata_repo L) fs_blob_repo n now m a (s, b) = (r, (s', b'))" "mf_faults s = []"
  shows "mf_faults s' = []"
proof (cases "parse_metadata_json (voice_create_model P) m")
  case (Inl e)
  with assms show ?thesis by (simp add: create_voice_def)
next
  case (Inr vp)
  obtain v p where vp: "vp = (v, p)" by (cases vp)
  let ?x = "new_record v p (JStr ''crud'') now now"
  obtain r0 s1 where m: "m_create (fs_metadata_repo L) now ?x s = (r0, s1)" by fastforce
  then have f1: "mf_faults s1 = []" using assms(2) by (simp add: fs_metadata_repo_sel fs_create_faults)
  obtain r2 s2 where d: "m_delete (fs_metadata_repo L) now v s1 = (r2, s2)" by fastforce
  have "s' = s \<or> s' = s1 \<or> s' = s2"
    using assms(1) Inr vp m d
    by (auto simp: create_voice_def split: sum.splits prod.splits py_exc.splits if_splits)
  with assms(2) f1 m_delete_faults [OF d f1] show ?thesis by auto
qed

lemma update_voice_faults:
  assumes "update_voice P (fs_metadata_repo L) fs_blob_repo n now v m a (s, b) = (r, (s', b'))" "mf_faults s = []"
  shows "mf_faults s' = []"
proof -
  have u: "update_record (fs_metadata_repo L) now x p s = (r', s'') \<Longrightarrow> mf_faults s'' = []" for x p r' s''
    using assms(2)
    by (auto simp: update_record_def fs_metadata_repo_sel dest: fs_update_faults split: prod.splits sum.splits)
  show ?thesis
    using assms(1,2)
    by (auto simp: update_voice_def dest!: m_get_state dest: u split: sum.splits prod.splits if_splits)
qed

lemma voice_effect_paired:
  assumes "pattern_law P" "valid_datetime now" "paired L st"
  shows "paired L (voice_effect P L n (now, rq) st)"
proof -
  obtain s b where st: "st = (s, b)" by (cases st)
  have inv: "meta_inv L s" "mf_faults s = []" "dom (meta_abs L s) \<subseteq> dom (blob_abs b)"
    using assms(3) by (auto simp: paired_def st)
  have has: "\<And>x y. meta_abs L s x = Some y \<Longrightarrow> \<exists>z. blob_abs b x = Some z" using inv(3) by blast
  show ?thesis
  proof (cases rq)
    case ListVoices
    obtain r s' where "list_voices (fs_metadata_repo L) now s = (r, s')" by fastforce
    with ListVoices assms(3) show ?thesis by (auto simp: st dest: list_voices_state)
  next
    case (CreateVoice m a)
    obtain r s' b' where e: "create_voice P (fs_metadata_repo L) fs_blob_repo n now m a (s, b) = (r, (s', b'))"
      by (metis prod.exhaust)
    from fs_create_voice_outcome [OF assms(1,2) inv(1,2) e] create_voice_faults [OF e inv(2)] inv(3) CreateVoice
    show ?thesis by (cases r) (auto simp: st paired_def e split: if_splits dest!: has)
  next
    case (GetVoice v)
    obtain r s' where "get_voice (fs_metadata_repo L) now v s = (r, s')" by fastforce
    with GetVoice assms(3) show ?thesis by (auto simp: st dest: get_voice_state)
  next
    case (GetVoiceAudio v)
    obtain r st' where e: "get_voice_audio (\<lambda>_. []) (fs_metadata_repo L) fs_blob_repo now v (s, b) = (r, st')"
      by (meson surj_pair)
    from get_voice_audio_state [OF e] GetVoiceAudio assms(3) show ?thesis by (simp add: st e)
  next
    case (UpdateVoice v m a)
    obtain r s' b' where e: "update_voice P (fs_metadata_repo L) fs_blob_repo n now v m a (s, b) = (r, (s', b'))"
      by (metis prod.exhaust)
    from fsstore.update_voice_spec [OF assms(2) inv(1) TrueI e] update_voice_faults [OF e inv(2)] inv(3) UpdateVoice
    show ?thesis by (cases r) (auto simp: st paired_def e split: if_splits dest!: has)
  next
    case (DeleteVoice v)
    obtain r s' b' where e: "delete_voice (fs_metadata_repo L) fs_blob_repo now v (s, b) = (r, (s', b'))"
      by (metis prod.exhaust)
    have noblob: "\<not> (fst (b_exists fs_blob_repo v b) = Inl e \<or> b_exists fs_blob_repo v b = (Inr True, b1) \<and> fst (b_delete fs_blob_repo v b1) = Inl e)"
      if "voice_id_regex v" for e b1
      using that by (auto simp: fs_blob_repo_sel fsb_exists_ok fsb_delete_def blob_abs_def)
    have "(case r of Inr _ \<Rightarrow> meta_abs L s' = (meta_abs L s)(v := None) \<and> blob_abs b' = (blob_abs b)(v := None)
        | Inl _ \<Rightarrow> meta_abs L s' = meta_abs L s \<and> blob_abs b' = blob_abs b) \<and> meta_inv L s'"
    proof (cases "voice_id_regex v")
      case True
      with fsstore.delete_voice_spec [OF inv(1) TrueI e] noblob show ?thesis by (auto split: sum.splits)
    next
      case False
      with fsstore.delete_voice_spec [OF inv(1) TrueI e] e check_path_id_cases [of v] show ?thesis
        by (auto simp: delete_voice_def Let_def split: sum.splits)
    qed
    with delete_voice_faults [OF e inv(2)] inv(3) DeleteVoice show ?thesis
      by (cases r) (auto simp: st paired_def e split: if_splits dest!: has)
  qed
qed

text \<open>
  C9: on a working metadata disk, through every sequence of requests to the voice endpoints and
  whatever the blob disk does, every voice in the metadata has its audio in the blob store.
\<close>

theorem voices_keep_audio:
  assumes "\<forall>j v. pd_str P (Some voice_id_pattern) 0 j = Inr v \<longrightarrow> id_core v"
    and "\<forall>(now, rq)\<in>set rqs. valid_datetime now" "paired L st"
  shows "paired L (fold (voice_effect P L n) rqs st)"
  using assms(2,3)
proof (induction rqs arbitrary: st)
  case (Cons nr rqs)
  have "pattern_law P" using assms(1) by (simp add: pattern_law_def)
  with Cons.prems have "paired L (voice_effect P L n nr st)"
    by (cases nr) (auto intro: voice_effect_paired)
  with Cons show ?case by simp
qed simp

theorem voices_keep_audio_witness:
  "paired sample_stdlib (fold (voice_effect strict_pydantic sample_stdlib 10)
     [(sample_time, CreateVoice (Inr sample_metadata) sample_upload), (sample_time, DeleteVoice ''anna'')]
     (sample_meta, sample_blobs [WriteFails]))"
  by (rule voices_keep_audio [OF strict_pydantic_law]) (simp_all add: paired_def)

end
