(* ===== verification/SeedIngestion.thy ===== *)
theory SeedIngestion
  imports VoicesRouter
begin

text \<open>
  \<open>voice_store/seed_ingestion.py\<close>: one validate-then-write pass of the voice map into the stores. The
  seed file is what its text parses to; the reference audio files are a function from paths. An
  ingestion returns the number of new voices, or the exception that escapes, the new states and the
  log lines.
\<close>

record parsed_seed_entry =
  se_voice_id :: string
  se_ref_audio_path :: string
  se_transcript :: string
  se_language :: string
  se_number_lang :: string
  se_temperature :: pyfloat
  se_top_p :: pyfloat
  se_target_db :: pyfloat
  se_max_sentences :: int

record audio_file =
  af_exists :: bool
  af_is_file :: bool
  af_readable :: bool
  af_read :: "bytes res"

text \<open>The seed path: unset, absent, unreadable (the exception of \<open>read_text\<close>), not JSON, or a value.\<close>

datatype seed_file = SeedUnset | SeedAbsent | SeedUnreadable py_exc | SeedNotJson string | SeedJson json

datatype ingest_log = LogNoFile | LogFailed string | LogReadFailed string | LogCreated string

subsection \<open>Validation\<close>

definition in_range :: "json \<Rightarrow> (pyfloat \<Rightarrow> bool) \<Rightarrow> pyfloat option" where
  "in_range j ok = (case json_number j of Some f \<Rightarrow> if ok f then Some f else None | None \<Rightarrow> None)"

definition vid_msg :: "string \<Rightarrow> string \<Rightarrow> string" where
  "vid_msg reason v = reason @ '' voice_id='' @ repr_str v"

definition audio_check :: "(string \<Rightarrow> audio_file) \<Rightarrow> string \<Rightarrow> string \<Rightarrow> string option" where
  "audio_check files v path =
     (if \<not> af_exists (files path) \<or> \<not> af_is_file (files path)
      then Some (vid_msg ''ref_audio_missing'' v @ '' path='' @ path)
      else if \<not> af_readable (files path)
      then Some (vid_msg ''ref_audio_unreadable'' v @ '' path='' @ path)
      else None)"

text \<open>\<open>_validate_entry\<close>; the left injection is the text of a \<open>_SeedValidationError\<close>.\<close>

definition validate_entry :: "(string \<Rightarrow> audio_file) \<Rightarrow> string \<Rightarrow> json \<Rightarrow> string + parsed_seed_entry" where
  "validate_entry files v body = (case validate_voice_id v of
       Inl e \<Rightarrow> Inl (''voice_id_invalid voice_id='' @ repr_str v @ '' reason='' @ exc_str e)
     | Inr _ \<Rightarrow> (case body of
         JObj d \<Rightarrow>
           (case json_str (get_default d ''ref_audio_path'' JNull) of
              None \<Rightarrow> Inl (vid_msg ''missing_ref_audio_path'' v)
            | Some path \<Rightarrow> if path = [] then Inl (vid_msg ''missing_ref_audio_path'' v) else
            (case json_str (get_default d ''ref_text'' (JStr [])) of
              None \<Rightarrow> Inl (vid_msg ''transcript_not_string'' v)
            | Some tr \<Rightarrow>
            (case json_str (get_default d ''language'' JNull) of
              None \<Rightarrow> Inl (vid_msg ''missing_language'' v)
            | Some la \<Rightarrow> if strip la = [] then Inl (vid_msg ''missing_language'' v) else
            (case json_str (get_default d ''number_lang'' (JStr [])) of
              None \<Rightarrow> Inl (vid_msg ''number_lang_not_string'' v)
            | Some nl \<Rightarrow>
            (case in_range (get_default d ''temperature'' (JFloat (Fin (4 / 5)))) (\<lambda>f. fle (Fin 0) f \<and> fle f (Fin 2)) of
              None \<Rightarrow> Inl (vid_msg ''temperature_invalid'' v)
            | Some te \<Rightarrow>
            (case in_range (get_default d ''top_p'' (JFloat (Fin (19 / 20)))) (\<lambda>f. flt (Fin 0) f \<and> fle f (Fin 1)) of
              None \<Rightarrow> Inl (vid_msg ''top_p_invalid'' v)
            | Some tp \<Rightarrow>
            (case in_range (get_default d ''target_db'' (JFloat (Fin (- 20)))) (\<lambda>_. True) of
              None \<Rightarrow> Inl (vid_msg ''target_db_not_numeric'' v)
            | Some td \<Rightarrow>
            (case json_int (get_default d ''max_sentences_per_chunk'' (JInt 2)) of
              None \<Rightarrow> Inl (vid_msg ''max_sentences_per_chunk_invalid'' v)
            | Some ms \<Rightarrow> if ms < 1 then Inl (vid_msg ''max_sentences_per_chunk_invalid'' v) else
            (case audio_check files v path of
              Some msg \<Rightarrow> Inl msg
            | None \<Rightarrow> Inr \<lparr>se_voice_id = v, se_ref_audio_path = path, se_transcript = tr, se_language = la,
                se_number_lang = nl, se_temperature = te, se_top_p = tp, se_target_db = td,
                se_max_sentences = ms\<rparr>)))))))))
       | _ \<Rightarrow> Inl (vid_msg ''entry_not_object'' v)))"

definition parse_and_validate :: "(string \<Rightarrow> audio_file) \<Rightarrow> string + json \<Rightarrow> string + parsed_seed_entry list" where
  "parse_and_validate files text = (case text of
       Inl msg \<Rightarrow> Inl (''invalid_json: '' @ msg)
     | Inr (JObj kvs) \<Rightarrow> res_map (\<lambda>kv. validate_entry files (fst kv) (snd kv)) kvs
     | Inr _ \<Rightarrow> Inl ''root_not_object'')"

subsection \<open>Ingestion\<close>

definition seed_record :: "parsed_seed_entry \<Rightarrow> datetime \<Rightarrow> voice_record" where
  "seed_record e now =
     \<lparr>vr_id = se_voice_id e, vr_transcript = se_transcript e, vr_language = se_language e, vr_consent = True,
      vr_number_lang = se_number_lang e, vr_target_db = se_target_db e, vr_temperature = se_temperature e,
      vr_top_p = se_top_p e, vr_max_sentences = se_max_sentences e, vr_source = JStr ''seed'',
      vr_created_at = now, vr_updated_at = now\<rparr>"

fun is_os_error :: "py_exc \<Rightarrow> bool" where
  "is_os_error (OSErr _) = True"
| "is_os_error _ = False"

text \<open>The loop over the validated entries, with the count so far.\<close>

fun ingest_entries :: "'s metadata_ops \<Rightarrow> 'b blob_ops \<Rightarrow> (string \<Rightarrow> audio_file) \<Rightarrow> datetime \<Rightarrow>
    parsed_seed_entry list \<Rightarrow> nat \<Rightarrow> 's \<times> 'b \<Rightarrow> nat res \<times> ('s \<times> 'b) \<times> ingest_log list" where
  "ingest_entries repo blobs files now [] created st = (Inr created, st, [])"
| "ingest_entries repo blobs files now (e # es) created (s, b) =
     (case m_exists repo now (se_voice_id e) s of
        (Inl x, s1) \<Rightarrow> (Inl x, (s1, b), [])
      | (Inr True, s1) \<Rightarrow> ingest_entries repo blobs files now es created (s1, b)
      | (Inr False, s1) \<Rightarrow>
          (case af_read (files (se_ref_audio_path e)) of
             Inl x \<Rightarrow> if is_os_error x then (Inr created, (s1, b), [LogReadFailed (se_voice_id e)])
                      else (Inl x, (s1, b), [])
           | Inr data \<Rightarrow> (case b_put blobs (se_voice_id e) data b of
               (Inl x, b1) \<Rightarrow> (Inl x, (s1, b1), [])
             | (Inr _, b1) \<Rightarrow> (case m_create repo now (seed_record e now) s1 of
                 (Inl x, s2) \<Rightarrow> (Inl x, (s2, b1), [])
               | (Inr _, s2) \<Rightarrow>
                   (case ingest_entries repo blobs files now es (created + 1) (s2, b1) of
                      (r, st', logs) \<Rightarrow> (r, st', LogCreated (se_voice_id e) # logs))))))"

definition ingest_once :: "'s metadata_ops \<Rightarrow> 'b blob_ops \<Rightarrow> (string \<Rightarrow> audio_file) \<Rightarrow> datetime \<Rightarrow> seed_file \<Rightarrow>
    's \<times> 'b \<Rightarrow> nat res \<times> ('s \<times> 'b) \<times> ingest_log list" where
  "ingest_once repo blobs files now seed st =
     (let ingest = (\<lambda>text. case parse_and_validate files text of
            Inl reason \<Rightarrow> (Inr 0, st, [LogFailed reason])
          | Inr entries \<Rightarrow> ingest_entries repo blobs files now entries 0 st)
      in case seed of
           SeedUnset \<Rightarrow> (Inr 0, st, [LogNoFile])
         | SeedAbsent \<Rightarrow> (Inr 0, st, [LogNoFile])
         | SeedUnreadable e \<Rightarrow> (Inl e, st, [])
         | SeedNotJson msg \<Rightarrow> ingest (Inl msg)
         | SeedJson j \<Rightarrow> ingest (Inr j))"

text \<open>\<open>resolve_seed_file_path\<close> and \<open>force_polling_from_env\<close>.\<close>

definition resolve_seed_file_path :: "environ \<Rightarrow> (string \<Rightarrow> bool) \<Rightarrow> (string \<Rightarrow> bool) \<Rightarrow> string option" where
  "resolve_seed_file_path env path_exists is_file =
     (let raw = strip (get_default env ''TTS_VOICE_MAP_FILE'' []) in
      if raw = [] then None
      else if \<not> path_exists raw \<or> \<not> is_file raw then None
      else Some raw)"

definition force_polling_from_env :: "environ \<Rightarrow> bool" where
  "force_polling_from_env env =
     (lower (strip (get_default env ''TTS_VOICE_MAP_WATCH_FORCE_POLLING'' [])) \<in> {''1'', ''true'', ''yes''})"

subsection \<open>Validated entries\<close>

definition entry_ok :: "(string \<Rightarrow> audio_file) \<Rightarrow> parsed_seed_entry \<Rightarrow> bool" where
  "entry_ok files e \<longleftrightarrow> voice_id_regex (se_voice_id e) \<and> strip (se_language e) \<noteq> [] \<and>
     (\<exists>q. se_temperature e = Fin q \<and> 0 \<le> q \<and> q \<le> 2) \<and> (\<exists>q. se_top_p e = Fin q \<and> 0 < q \<and> q \<le> 1) \<and>
     1 \<le> se_max_sentences e \<and> af_readable (files (se_ref_audio_path e)) \<and> af_is_file (files (se_ref_audio_path e))"

lemma in_range_Some: "in_range j ok = Some f \<Longrightarrow> ok f"
  by (auto simp: in_range_def split: option.splits if_splits)

lemma audio_check_None: "audio_check files v path = None \<Longrightarrow> af_readable (files path) \<and> af_is_file (files path)"
  by (auto simp: audio_check_def split: if_splits)

lemma validate_entry_sound:
  assumes "validate_entry files v body = Inr e"
  shows "entry_ok files e \<and> se_voice_id e = v"
proof -
  obtain d path tr la nl te tp td ms where
    v: "voice_id_regex v" and d: "body = JObj d" and la: "strip la \<noteq> []"
    and te: "in_range (get_default d ''temperature'' (JFloat (Fin (4 / 5)))) (\<lambda>f. fle (Fin 0) f \<and> fle f (Fin 2)) = Some te"
    and tp: "in_range (get_default d ''top_p'' (JFloat (Fin (19 / 20)))) (\<lambda>f. flt (Fin 0) f \<and> fle f (Fin 1)) = Some tp"
    and ms: "\<not> ms < 1" and a: "audio_check files v path = None"
    and e: "e = \<lparr>se_voice_id = v, se_ref_audio_path = path, se_transcript = tr, se_language = la,
                se_number_lang = nl, se_temperature = te, se_top_p = tp, se_target_db = td,
                se_max_sentences = ms\<rparr>"
    using assms unfolding validate_entry_def
    by (auto split: sum.splits json.splits option.splits if_splits)
  show ?thesis
    using v la ms audio_check_None [OF a] e in_range_Some [OF te] in_range_Some [OF tp]
    by (auto simp: entry_ok_def dest: fle_bounded_Fin flt_fle_bounded_Fin)
qed

lemma parse_and_validate_sound:
  assumes "parse_and_validate files text = Inr es"
  shows "\<exists>kvs. text = Inr (JObj kvs) \<and> map se_voice_id es = map fst kvs \<and> (\<forall>e\<in>set es. entry_ok files e)"
proof -
  obtain kvs where kvs: "text = Inr (JObj kvs)" "res_map (\<lambda>kv. validate_entry files (fst kv) (snd kv)) kvs = Inr es"
    using assms by (auto simp: parse_and_validate_def split: sum.splits json.splits)
  then have all: "list_all2 (\<lambda>kv e. validate_entry files (fst kv) (snd kv) = Inr e) kvs es"
    by (simp add: res_map_Inr)
  then have "map se_voice_id es = map fst kvs"
    by (induction rule: list_all2_induct) (auto dest: validate_entry_sound)
  moreover have "\<forall>e\<in>set es. entry_ok files e"
    using all by (induction rule: list_all2_induct) (auto dest: validate_entry_sound)
  ultimately show ?thesis using kvs(1) by blast
qed

subsection \<open>What a pass does to the stores\<close>

lemma seed_record_facts [simp]:
  "vr_id (seed_record e now) = se_voice_id e" "vr_source (seed_record e now) = JStr ''seed''"
  "vr_consent (seed_record e now)"
  by (simp_all add: seed_record_def)

lemma seed_record_storable: "entry_ok files e \<Longrightarrow> stamp now \<Longrightarrow> storable_at stamp (seed_record e now)"
  by (simp add: storable_at_def source_ok_def entry_ok_def) (simp add: seed_record_def)

text \<open>
  From the records \<open>m\<close> to \<open>m'\<close>: the voices that were there are as they were, and so are their blobs; the
  new ones come from the ids \<open>vs\<close>, as consented seed records, with a blob.
\<close>

definition seeded :: "string set \<Rightarrow> voice_map \<Rightarrow> voice_map \<Rightarrow> (string \<Rightarrow> bytes option) \<Rightarrow> (string \<Rightarrow> bytes option) \<Rightarrow> bool" where
  "seeded vs m m' bl bl' \<longleftrightarrow> m \<subseteq>\<^sub>m m' \<and> (\<forall>v\<in>dom m. bl' v = bl v) \<and>
     (\<forall>v x. m v = None \<and> m' v = Some x \<longrightarrow>
        v \<in> vs \<and> vr_source x = JStr ''seed'' \<and> vr_consent x \<and> bl' v \<noteq> None)"

lemma seeded_refl [simp]: "seeded vs m m bl bl"
  by (auto simp: seeded_def)

lemma seeded_blob: "m v = None \<Longrightarrow> seeded vs m m bl (bl(v \<mapsto> d))"
  by (auto simp: seeded_def)

lemma seeded_trans:
  assumes "seeded vs m m1 bl bl1" "seeded ws m1 m2 bl1 bl2" "vs \<subseteq> us" "ws \<subseteq> us"
  shows "seeded us m m2 bl bl2"
proof -
  have dom: "dom m \<subseteq> dom m1" using assms(1) by (simp add: seeded_def map_le_implies_dom_le)
  have "m \<subseteq>\<^sub>m m2" using assms(1,2) by (auto simp: seeded_def intro: map_le_trans)
  moreover have "bl2 v = bl v" if "v \<in> dom m" for v
    using assms(1,2) dom that unfolding seeded_def by (metis subsetD)
  moreover have "v \<in> us \<and> vr_source x = JStr ''seed'' \<and> vr_consent x \<and> bl2 v \<noteq> None"
    if v: "m v = None" "m2 v = Some x" for v x
  proof (cases "m1 v")
    case None
    with v(2) assms(2,4) show ?thesis by (auto simp: seeded_def)
  next
    case (Some y)
    then have "v \<in> dom m1" by auto
    moreover from this Some v(2) assms(2) have "y = x" by (auto simp: seeded_def map_le_def)
    moreover have "bl2 v = bl1 v" using \<open>v \<in> dom m1\<close> assms(2) by (auto simp: seeded_def)
    ultimately show ?thesis using Some v(1) assms(1,3) by (auto simp: seeded_def)
  qed
  ultimately show ?thesis by (auto simp: seeded_def)
qed

fun created_ids :: "ingest_log list \<Rightarrow> string list" where
  "created_ids [] = []"
| "created_ids (LogCreated v # ls) = v # created_ids ls"
| "created_ids (_ # ls) = created_ids ls"

context voice_store
begin

lemma ingest_entries_spec:
  assumes "inv s" "binv b" "stamp now" "\<forall>e\<in>set es. entry_ok files e"
    and "ingest_entries repo blobs files now es n (s, b) = (r, (s', b'), logs)"
  shows "inv s' \<and> binv b' \<and> seeded (se_voice_id ` set es) (abs s) (abs s') (babs b) (babs b') \<and>
    dom (abs s') = dom (abs s) \<union> set (created_ids logs) \<and> distinct (created_ids logs) \<and>
    set (created_ids logs) \<inter> dom (abs s) = {} \<and>
    (case r of Inr c \<Rightarrow> c = n + length (created_ids logs) \<and>
         ((\<forall>v. LogReadFailed v \<notin> set logs) \<longrightarrow> se_voice_id ` set es \<subseteq> dom (abs s'))
     | Inl e \<Rightarrow> True)"
  using assms
proof (induction es arbitrary: n s b r s' b' logs)
  case Nil
  then show ?case by auto
next
  case (Cons e es)
  let ?v = "se_voice_id e"
  have e: "entry_ok files e" and v: "voice_id_regex ?v" and es: "\<forall>e\<in>set es. entry_ok files e"
    using Cons.prems(4) by (auto simp: entry_ok_def)
  obtain r0 s1 where ex: "m_exists repo now ?v s = (r0, s1)" by fastforce
  note exok = exists_ok [OF Cons.prems(1) ex v]
  show ?case
  proof (cases r0)
    case (Inl x)
    with Cons.prems(2,5) ex exok show ?thesis by auto
  next
    case r0: (Inr present)
    show ?thesis
    proof (cases present)
      case True
      have "ingest_entries repo blobs files now es n (s1, b) = (r, (s', b'), logs)"
        using Cons.prems(5) ex r0 True by simp
      moreover have eq: "inv s1" "abs s1 = abs s" "?v \<in> dom (abs s)" using exok r0 True by auto
      ultimately have ih: "inv s'" "binv b'" "seeded (se_voice_id ` set es) (abs s) (abs s') (babs b) (babs b')"
          "dom (abs s') = dom (abs s) \<union> set (created_ids logs)" "distinct (created_ids logs)"
          "set (created_ids logs) \<inter> dom (abs s) = {}"
          "case r of Inr c \<Rightarrow> c = n + length (created_ids logs) \<and>
             ((\<forall>v. LogReadFailed v \<notin> set logs) \<longrightarrow> se_voice_id ` set es \<subseteq> dom (abs s'))
           | Inl e \<Rightarrow> True"
        using Cons.IH [OF eq(1) Cons.prems(2,3) es] unfolding eq(2) by blast+
      have "seeded (se_voice_id ` set (e # es)) (abs s) (abs s') (babs b) (babs b')"
        by (rule seeded_trans [OF seeded_refl [of "{}"] ih(3)]) auto
      moreover have "?v \<in> dom (abs s')" using ih(4) eq(3) by simp
      ultimately show ?thesis using ih by (cases r) simp_all
    next
      case False
      with exok r0 have s1: "inv s1" "abs s1 = abs s" "abs s ?v = None" by auto
      show ?thesis
      proof (cases "af_read (files (se_ref_audio_path e))")
        case (Inl x)
        with Cons.prems(2,5) ex r0 False s1 show ?thesis by (auto split: if_splits)
      next
        case data: (Inr data)
        obtain r1 b1 where p: "b_put blobs ?v data b = (r1, b1)" by fastforce
        note pok = put_ok [OF Cons.prems(2) p v]
        show ?thesis
        proof (cases r1)
          case (Inl x)
          with Cons.prems(5) ex r0 False data p pok s1 show ?thesis by auto
        next
          case r1: (Inr u)
          with pok have b1: "binv b1" "babs b1 = (babs b)(?v \<mapsto> data)" by auto
          obtain r2 s2 where c: "m_create repo now (seed_record e now) s1 = (r2, s2)" by fastforce
          note cok = create_ok [OF s1(1) c seed_record_storable [where stamp = stamp, OF e Cons.prems(3)]]
          show ?thesis
          proof (cases r2)
            case (Inl x)
            have "seeded (se_voice_id ` set (e # es)) (abs s) (abs s) (babs b) (babs b1)"
              unfolding b1(2) using s1(3) by (rule seeded_blob [where m = "abs s"])
            with Cons.prems(5) ex r0 False data p r1 c Inl cok s1(1,2) b1(1)
            show ?thesis by auto
          next
            case r2: (Inr y)
            with cok s1 have s2: "inv s2" "abs s2 = (abs s)(?v \<mapsto> seed_record e now)" by auto
            obtain r3 s3 b3 logs3 where rest: "ingest_entries repo blobs files now es (n + 1) (s2, b1) = (r3, (s3, b3), logs3)"
              by (metis prod.exhaust)
            have res: "r = r3" "s' = s3" "b' = b3" "logs = LogCreated ?v # logs3"
              using Cons.prems(5) ex r0 False data p r1 c r2 rest by auto
            note ih = Cons.IH [OF s2(1) b1(1) Cons.prems(3) es rest]
            have one: "seeded {?v} (abs s) (abs s2) (babs b) (babs b1)"
              using s1(3) by (auto simp: seeded_def s2(2) b1(2) map_le_def)
            have "seeded (se_voice_id ` set (e # es)) (abs s) (abs s3) (babs b) (babs b3)"
              using ih by (intro seeded_trans [OF one]) auto
            moreover have "?v \<notin> set (created_ids logs3)" using ih s2(2) by auto
            moreover have "dom (abs s2) = insert ?v (dom (abs s))" using s2(2) by simp
            ultimately show ?thesis using ih res s1(3) by (elim conjE) (cases r3; simp add: domIff)
          qed
        qed
      qed
    qed
  qed
qed

lemma ingest_entries_idem:
  assumes "inv s" "binv b" "\<forall>e\<in>set es. voice_id_regex (se_voice_id e)" "se_voice_id ` set es \<subseteq> dom (abs s)"
    and "ingest_entries repo blobs files now es n (s, b) = (r, (s', b'), logs)"
  shows "abs s' = abs s \<and> b' = b \<and> logs = [] \<and> (case r of Inr c \<Rightarrow> c = n | Inl e \<Rightarrow> backend_failure e)"
  using assms
proof (induction es arbitrary: s)
  case Nil
  then show ?case by auto
next
  case (Cons e es)
  have v: "voice_id_regex (se_voice_id e)" using Cons.prems(3) by simp
  obtain r0 s1 where ex: "m_exists repo now (se_voice_id e) s = (r0, s1)" by fastforce
  note exok = exists_ok [OF Cons.prems(1) ex v]
  show ?case
  proof (cases r0)
    case (Inl x)
    with Cons.prems(5) ex exok show ?thesis by auto
  next
    case (Inr present)
    with exok Cons.prems(4) have "present" by auto
    with Cons.prems(5) ex Inr have "ingest_entries repo blobs files now es n (s1, b) = (r, (s', b'), logs)" by simp
    with Cons.IH [of s1] exok Cons.prems Inr show ?thesis by auto
  qed
qed

end

lemma ingest_once_cases:
  assumes "ingest_once repo blobs files now seed st = (r, st', logs)"
  obtains (noop) "st' = st" "r = Inr 0 \<or> (\<exists>e. seed = SeedUnreadable e \<and> r = Inl e)" "created_ids logs = []"
  | (run) es where "(\<exists>j. seed = SeedJson j \<and> parse_and_validate files (Inr j) = Inr es)"
      "ingest_entries repo blobs files now es 0 st = (r, st', logs)"
  using assms
  by (cases seed) (auto simp: ingest_once_def Let_def parse_and_validate_def split: sum.splits)

subsection \<open>Ingestion into the file-system stores\<close>

lemma ingest_once_seeded:
  assumes "meta_inv L s" "valid_datetime now"
    and "ingest_once (fs_metadata_repo L) fs_blob_repo files now seed (s, b) = (r, (s', b'), logs)"
  shows "meta_inv L s' \<and> seeded UNIV (meta_abs L s) (meta_abs L s') (blob_abs b) (blob_abs b')"
  using assms(3)
proof (cases rule: ingest_once_cases)
  case noop
  with assms(1) show ?thesis by auto
next
  case (run es)
  then obtain j where "parse_and_validate files (Inr j) = Inr es" by blast
  from parse_and_validate_sound [OF this] have "\<forall>e\<in>set es. entry_ok files e" by auto
  from fsstore.ingest_entries_spec [OF assms(1) TrueI assms(2) this run(2)]
  show ?thesis by (auto intro: seeded_trans [OF seeded_refl [of "{}"]])
qed

text \<open>
  Seed ingestion only adds. Whatever the seed file, the reference files and the disks do, and
  whatever exception escapes, every voice that was there keeps its record and its audio; a new voice is
  a consented seed record under an id of the seed file, with its audio in the blob store; and the
  number returned is the number of voices created.
\<close>

theorem seed_ingest_only_adds:
  assumes "meta_inv L s" "valid_datetime now"
    and "ingest_once (fs_metadata_repo L) fs_blob_repo files now seed (s, b) = (r, (s', b'), logs)"
  shows "meta_inv L s' \<and> meta_abs L s \<subseteq>\<^sub>m meta_abs L s' \<and>
    (\<forall>v x. meta_abs L s v = Some x \<longrightarrow> blob_abs b' v = blob_abs b v) \<and>
    (\<forall>v x. meta_abs L s v = None \<and> meta_abs L s' v = Some x \<longrightarrow>
       vr_source x = JStr ''seed'' \<and> vr_consent x \<and> blob_abs b' v \<noteq> None \<and>
       (\<exists>kvs. seed = SeedJson (JObj kvs) \<and> v \<in> fst ` set kvs)) \<and>
    (\<forall>n. r = Inr n \<longrightarrow> n = card (dom (meta_abs L s') - dom (meta_abs L s)))"
  using assms(3)
proof (cases rule: ingest_once_cases)
  case noop
  with assms(1) show ?thesis by auto
next
  case (run es)
  then obtain j where j: "seed = SeedJson j" "parse_and_validate files (Inr j) = Inr es" by blast
  from parse_and_validate_sound [OF j(2)] obtain kvs where
    kvs: "j = JObj kvs" "map se_voice_id es = map fst kvs" "\<forall>e\<in>set es. entry_ok files e" by auto
  have ids: "se_voice_id ` set es = fst ` set kvs" using kvs(2) by (metis set_map)
  note spec = fsstore.ingest_entries_spec [OF assms(1) TrueI assms(2) kvs(3) run(2)]
  have "card (dom (meta_abs L s') - dom (meta_abs L s)) = length (created_ids logs)"
  proof -
    have "dom (meta_abs L s') - dom (meta_abs L s) = set (created_ids logs)" using spec by auto
    then show ?thesis using spec by (simp add: distinct_card)
  qed
  with spec ids kvs(1) j(1) show ?thesis by (auto simp: seeded_def)
qed

definition wav_files :: "string \<Rightarrow> audio_file" where
  "wav_files path = \<lparr>af_exists = True, af_is_file = True, af_readable = True, af_read = Inr [1, 2, 3]\<rparr>"

definition sample_seed :: "string \<Rightarrow> json" where
  "sample_seed v = JObj [(v, JObj [(''ref_audio_path'', JStr ''a.wav''), (''language'', JStr ''it'')])]"

lemma sample_ingest:
  "\<exists>s b. ingest_once (fs_metadata_repo L) fs_blob_repo wav_files sample_time (SeedJson (sample_seed ''anna'')) (sample_meta, sample_blobs []) =
     (Inr 1, (s, b), [LogCreated ''anna''])"
proof -
  have v: "voice_id_regex ''anna''"
    by (simp add: voice_id_regex_def id_core_def id_char_def is_digit_def)
  have e: "validate_entry wav_files ''anna'' (JObj [(''ref_audio_path'', JStr ''a.wav''), (''language'', JStr ''it'')]) =
      Inr \<lparr>se_voice_id = ''anna'', se_ref_audio_path = ''a.wav'', se_transcript = [], se_language = ''it'', se_number_lang = [],
        se_temperature = Fin (4 / 5), se_top_p = Fin (19 / 20), se_target_db = Fin (- 20), se_max_sentences = 2\<rparr>"
    by (simp add: validate_entry_def v validate_voice_id_def get_default_def wav_files_def in_range_def audio_check_def
        strip_def strip_by_def is_space_def space_cp_def)
  show ?thesis
    by (simp add: ingest_once_def parse_and_validate_def sample_seed_def e fs_metadata_repo_sel fs_blob_repo_sel
        fs_exists_def v validate_voice_id_def load_all_def sample_meta_def empty_fs_def wav_files_def fsb_put_def
        sample_blobs_def seed_record_def fs_create_def atomic_write_def Let_def split: prod.splits)
qed

theorem seed_ingest_only_adds_witness:
  "(case ingest_once (fs_metadata_repo sample_stdlib) fs_blob_repo wav_files sample_time (SeedJson (sample_seed ''anna'')) (sample_meta, sample_blobs []) of
     (r, (s', b'), logs) \<Rightarrow> r = Inr 1 \<and> meta_inv sample_stdlib s' \<and> card (dom (meta_abs sample_stdlib s')) = 1)"
proof -
  obtain s' b' where e: "ingest_once (fs_metadata_repo sample_stdlib) fs_blob_repo wav_files sample_time
      (SeedJson (sample_seed ''anna'')) (sample_meta, sample_blobs []) = (Inr 1, (s', b'), [LogCreated ''anna''])"
    using sample_ingest by blast
  from seed_ingest_only_adds [OF sample_meta_facts(1) sample_time_valid e] e show ?thesis by simp
qed

text \<open>
  A pass is all or nothing at the level of validation. When any entry of the seed file is invalid
  (its id, a field, a range, its audio file), no voice of the file is ingested, whatever its position;
  one failure is logged and both stores are untouched.
\<close>

theorem seed_ingest_aborts_on_invalid:
  assumes "(v, body) \<in> set kvs" "\<forall>e. validate_entry files v body \<noteq> Inr e"
  shows "\<exists>reason. ingest_once repo blobs files now (SeedJson (JObj kvs)) st = (Inr 0, st, [LogFailed reason])"
proof (cases "res_map (\<lambda>kv. validate_entry files (fst kv) (snd kv)) kvs")
  case (Inl reason)
  then show ?thesis by (simp add: ingest_once_def parse_and_validate_def)
next
  case (Inr es)
  obtain i where i: "i < length kvs" "kvs ! i = (v, body)" using assms(1) by (auto simp: in_set_conv_nth)
  from res_map_nth [OF Inr i(1)] i(2) assms(2) show ?thesis by simp
qed

theorem seed_ingest_aborts_on_invalid_witness:
  "\<exists>reason. ingest_once (fs_metadata_repo sample_stdlib) fs_blob_repo wav_files sample_time
     (SeedJson (JObj [(''anna'', JObj [(''ref_audio_path'', JStr ''a.wav''), (''language'', JStr ''it'')]),
        (''mario'', JObj [(''language'', JStr ''it'')])])) (sample_meta, sample_blobs []) =
     (Inr 0, (sample_meta, sample_blobs []), [LogFailed reason])"
proof (rule seed_ingest_aborts_on_invalid)
  show "(''mario'', JObj [(''language'', JStr ''it'')]) \<in>
      set [(''anna'', JObj [(''ref_audio_path'', JStr ''a.wav''), (''language'', JStr ''it'')]),
        (''mario'', JObj [(''language'', JStr ''it'')])]" by simp
  show "\<forall>e. validate_entry wav_files ''mario'' (JObj [(''language'', JStr ''it'')]) \<noteq> Inr e"
    by (auto simp: validate_entry_def get_default_def split: sum.splits)
qed

text \<open>
  C28: ingestion is idempotent. After a pass that returned and read every audio file, a second pass over
  the same seed file creates nothing and changes nothing, and its count is 0.
\<close>

theorem seed_ingest_idempotent:
  assumes "meta_inv L s" "valid_datetime now"
    and "ingest_once (fs_metadata_repo L) fs_blob_repo files now seed (s, b) = (Inr n, (s1, b1), logs1)"
    and "\<forall>v. LogReadFailed v \<notin> set logs1"
    and "ingest_once (fs_metadata_repo L) fs_blob_repo files later seed (s1, b1) = (r, (s2, b2), logs2)"
  shows "r = Inr 0 \<and> meta_abs L s2 = meta_abs L s1 \<and> b2 = b1 \<and> created_ids logs2 = []"
  using assms(5)
proof (cases rule: ingest_once_cases)
  case noop
  moreover have "seed \<noteq> SeedUnreadable e" for e using assms(3) by (auto simp: ingest_once_def)
  ultimately show ?thesis by auto
next
  case (run es)
  then obtain j where j: "seed = SeedJson j" "parse_and_validate files (Inr j) = Inr es" by blast
  from parse_and_validate_sound [OF j(2)] have ok: "\<forall>e\<in>set es. entry_ok files e" by auto
  have first: "ingest_entries (fs_metadata_repo L) fs_blob_repo files now es 0 (s, b) = (Inr n, (s1, b1), logs1)"
    using assms(3) j by (simp add: ingest_once_def)
  from fsstore.ingest_entries_spec [OF assms(1) TrueI assms(2) ok first] assms(4)
  have s1: "meta_inv L s1" "se_voice_id ` set es \<subseteq> dom (meta_abs L s1)" unfolding sum.case by blast+
  have ids: "\<forall>e\<in>set es. voice_id_regex (se_voice_id e)" using ok by (auto simp: entry_ok_def)
  have "\<forall>e. r \<noteq> Inl e"
    using run(2) s1 ids
  proof (induction es arbitrary: s1)
    case (Cons e es)
    then have "fs_exists L later (se_voice_id e) s1 = (Inr True, s1)"
      by (auto simp: fs_exists_ok)
    with Cons show ?case by (auto simp: fs_metadata_repo_sel)
  qed auto
  with fsstore.ingest_entries_idem [OF s1(1) TrueI ids s1(2) run(2)] show ?thesis by (cases r) auto
qed

theorem seed_ingest_idempotent_witness:
  "\<exists>s1 b1. ingest_once (fs_metadata_repo sample_stdlib) fs_blob_repo wav_files sample_time (SeedJson (sample_seed ''anna''))
       (sample_meta, sample_blobs []) = (Inr 1, (s1, b1), [LogCreated ''anna'']) \<and>
     fst (ingest_once (fs_metadata_repo sample_stdlib) fs_blob_repo wav_files sample_time (SeedJson (sample_seed ''anna'')) (s1, b1)) = Inr 0"
proof -
  obtain s1 b1 where e: "ingest_once (fs_metadata_repo sample_stdlib) fs_blob_repo wav_files sample_time
      (SeedJson (sample_seed ''anna'')) (sample_meta, sample_blobs []) = (Inr 1, (s1, b1), [LogCreated ''anna''])"
    using sample_ingest by blast
  obtain r s2 b2 logs where e2: "ingest_once (fs_metadata_repo sample_stdlib) fs_blob_repo wav_files sample_time
      (SeedJson (sample_seed ''anna'')) (s1, b1) = (r, (s2, b2), logs)"
    by (metis prod.exhaust)
  from seed_ingest_idempotent [OF sample_meta_facts(1) sample_time_valid e _ e2] e e2 show ?thesis by simp
qed

end
