(* ===== verification/Device.thy ===== *)
theory Device
  imports Errors "HOL-Library.Char_ord" "HOL-Library.List_Lexorder"
begin

text \<open>
  \<open>engine/device.py\<close>: the device, the dtype and the source label of this process. The host is a
  record: what importing torch gives (\<open>None\<close>: it fails) with the two availability probes (\<open>None\<close>: the
  attribute is missing or not callable), and the platform.
\<close>

record torch_probe =
  tp_mps :: "bool option"
  tp_cuda :: "bool option"

record host =
  h_torch :: "torch_probe option"
  h_system :: string
  h_machine :: string

record device_profile =
  dp_device :: string
  dp_dtype :: string
  dp_source :: string

definition valid_devices :: "string list" where
  "valid_devices = [''mps'', ''cuda'', ''cpu'']"

definition valid_dtypes :: "string list" where
  "valid_dtypes = [''float16'', ''bfloat16'', ''float32'']"

definition probe_device :: "host \<Rightarrow> string" where
  "probe_device h = (case h_torch h of
       Some t \<Rightarrow> if tp_mps t = Some True then ''mps''
                else if tp_cuda t = Some True then ''cuda'' else ''cpu''
     | None \<Rightarrow> if h_system h = ''Darwin'' \<and> h_machine h = ''arm64'' then ''mps'' else ''cpu'')"

text \<open>\<open>(override if not None else env).strip().lower()\<close>, an empty value read as \<open>auto\<close>.\<close>

definition normalize_override :: "string \<Rightarrow> string" where
  "normalize_override s = (let raw = lower (strip s) in if raw = [] then ''auto'' else raw)"

definition read_override :: "environ \<Rightarrow> string \<Rightarrow> string option \<Rightarrow> string" where
  "read_override env name override = (case override of Some s \<Rightarrow> s | None \<Rightarrow> get_default env name ''auto'')"

definition invalid_override :: "string \<Rightarrow> string \<Rightarrow> string \<Rightarrow> string list \<Rightarrow> py_exc" where
  "invalid_override name raw what valid =
     ValueErr (name @ ''='' @ repr_str raw @ '' is not a valid '' @ what @ '' (expected one of: auto, '' @
       join '', '' (sort valid) @ '')'')"

definition detect_device :: "environ \<Rightarrow> host \<Rightarrow> string option \<Rightarrow> string res" where
  "detect_device env h override =
     (let raw = normalize_override (read_override env ''TTS_DEVICE'' override) in
      if raw \<noteq> ''auto'' then
        (if raw \<notin> set valid_devices
         then Inl (invalid_override ''TTS_DEVICE'' raw ''device'' valid_devices)
         else Inr raw)
      else Inr (probe_device h))"

definition detect_dtype :: "environ \<Rightarrow> string \<Rightarrow> string option \<Rightarrow> string res" where
  "detect_dtype env device override =
     (let raw = normalize_override (read_override env ''TTS_DTYPE'' override) in
      if raw \<noteq> ''auto'' then
        (if raw \<notin> set valid_dtypes
         then Inl (invalid_override ''TTS_DTYPE'' raw ''dtype'' valid_dtypes)
         else Inr raw)
      else Inr (if device = ''cpu'' then ''float32'' else ''float16''))"

definition resolve_device_profile :: "environ \<Rightarrow> host \<Rightarrow> string option \<Rightarrow> string option \<Rightarrow> device_profile res" where
  "resolve_device_profile env h device_override dtype_override =
     (let raw_device = read_override env ''TTS_DEVICE'' device_override;
          raw_dtype = read_override env ''TTS_DTYPE'' dtype_override;
          device_source = (if lower (strip raw_device) \<noteq> ''auto'' then ''env'' else ''auto'');
          dtype_source = (if lower (strip raw_dtype) \<noteq> ''auto'' then ''env'' else ''auto'')
      in bindE (detect_device env h (Some raw_device)) (\<lambda>device.
         bindE (detect_dtype env device (Some raw_dtype)) (\<lambda>dtype.
           Inr \<lparr>dp_device = device, dp_dtype = dtype,
             dp_source = (if device_source = ''env'' \<or> dtype_source = ''env'' then ''env'' else ''auto'')\<rparr>)))"

lemma probe_device_valid: "probe_device h \<in> set valid_devices"
  by (simp add: probe_device_def valid_devices_def split: option.splits)

lemma normalize_auto [simp]: "normalize_override ''auto'' = ''auto''"
  by (simp add: normalize_override_def lower_id [of "''auto''"] lower_cp_def strip_def strip_by_def is_space_def space_cp_def Let_def)

lemma detect_device_cases:
  "(\<exists>d. detect_device env h ov = Inr d \<and> d \<in> set valid_devices \<and>
      (normalize_override (read_override env ''TTS_DEVICE'' ov) = ''auto'' \<and> d = probe_device h \<or>
       d = normalize_override (read_override env ''TTS_DEVICE'' ov))) \<or>
   (\<exists>raw. detect_device env h ov = Inl (invalid_override ''TTS_DEVICE'' raw ''device'' valid_devices) \<and>
      raw = normalize_override (read_override env ''TTS_DEVICE'' ov) \<and> raw \<noteq> ''auto'')"
  using probe_device_valid [of h] by (auto simp: detect_device_def Let_def)

lemma detect_dtype_cases:
  "(\<exists>t. detect_dtype env d ov = Inr t \<and> t \<in> set valid_dtypes \<and>
      (normalize_override (read_override env ''TTS_DTYPE'' ov) = ''auto'' \<longrightarrow> t = (if d = ''cpu'' then ''float32'' else ''float16''))) \<or>
   (\<exists>raw. detect_dtype env d ov = Inl (invalid_override ''TTS_DTYPE'' raw ''dtype'' valid_dtypes) \<and>
      raw = normalize_override (read_override env ''TTS_DTYPE'' ov) \<and> raw \<noteq> ''auto'')"
  by (auto simp: detect_dtype_def Let_def valid_dtypes_def)

definition env_or_auto :: "environ \<Rightarrow> string \<Rightarrow> string" where
  "env_or_auto env name = normalize_override (get_default env name ''auto'')"

lemma read_override_some [simp]: "read_override env name (Some s) = s"
  by (simp add: read_override_def)

text \<open>
  The profile is always a supported pair, and every automatic part of it follows the rules: the
  probe order MPS, CUDA, CPU (without torch, MPS on Apple silicon only), single precision on the CPU
  and half precision elsewhere. A start-up fails only on a variable that is set to something that is
  neither \<open>auto\<close> nor a supported name.
\<close>

theorem resolve_device_profile_sound:
  "(case resolve_device_profile env h None None of
     Inr p \<Rightarrow> dp_device p \<in> {''mps'', ''cuda'', ''cpu''} \<and> dp_dtype p \<in> {''float16'', ''bfloat16'', ''float32''} \<and>
       (env_or_auto env ''TTS_DEVICE'' = ''auto'' \<longrightarrow> dp_device p = probe_device h) \<and>
       (env_or_auto env ''TTS_DEVICE'' \<noteq> ''auto'' \<longrightarrow> dp_device p = env_or_auto env ''TTS_DEVICE'') \<and>
       (env_or_auto env ''TTS_DTYPE'' = ''auto'' \<longrightarrow> dp_dtype p = (if dp_device p = ''cpu'' then ''float32'' else ''float16''))
   | Inl e \<Rightarrow> env_or_auto env ''TTS_DEVICE'' \<notin> {''auto'', ''mps'', ''cuda'', ''cpu''} \<or>
       env_or_auto env ''TTS_DTYPE'' \<notin> {''auto'', ''float16'', ''bfloat16'', ''float32''})"
proof -
  define rd where "rd = get_default env ''TTS_DEVICE'' ''auto''"
  define rt where "rt = get_default env ''TTS_DTYPE'' ''auto''"
  have eq: "resolve_device_profile env h None None =
      bindE (detect_device env h (Some rd)) (\<lambda>device. bindE (detect_dtype env device (Some rt)) (\<lambda>dtype.
        Inr \<lparr>dp_device = device, dp_dtype = dtype,
          dp_source = (if lower (strip rd) \<noteq> ''auto'' \<or> lower (strip rt) \<noteq> ''auto'' then ''env'' else ''auto'')\<rparr>))"
    by (simp add: resolve_device_profile_def read_override_def rd_def rt_def Let_def)
  have env: "env_or_auto env ''TTS_DEVICE'' = normalize_override rd" "env_or_auto env ''TTS_DTYPE'' = normalize_override rt"
    by (simp_all add: env_or_auto_def rd_def rt_def)
  show ?thesis
  proof (cases "detect_device env h (Some rd)")
    case (Inl e)
    then have "normalize_override rd \<notin> {''auto'', ''mps'', ''cuda'', ''cpu''}"
      by (auto simp: detect_device_def Let_def valid_devices_def split: if_splits)
    with Inl show ?thesis by (simp add: eq env)
  next
    case (Inr d)
    with detect_device_cases [of env h "Some rd"] have d: "d \<in> set valid_devices"
      "normalize_override rd = ''auto'' \<Longrightarrow> d = probe_device h" "normalize_override rd \<noteq> ''auto'' \<Longrightarrow> d = normalize_override rd"
      by (auto simp: detect_device_def Let_def split: if_splits)
    show ?thesis
    proof (cases "detect_dtype env d (Some rt)")
      case e: (Inl e)
      then have "normalize_override rt \<notin> {''auto'', ''float16'', ''bfloat16'', ''float32''}"
        by (auto simp: detect_dtype_def Let_def valid_dtypes_def split: if_splits)
      with e Inr show ?thesis by (simp add: eq env)
    next
      case t: (Inr t)
      with detect_dtype_cases [of env d "Some rt"] have "t \<in> set valid_dtypes"
        "normalize_override rt = ''auto'' \<Longrightarrow> t = (if d = ''cpu'' then ''float32'' else ''float16'')" by auto
      with t Inr d show ?thesis by (simp add: eq env valid_devices_def valid_dtypes_def)
    qed
  qed
qed

theorem resolve_device_profile_sound_witness:
  "resolve_device_profile [] \<lparr>h_torch = None, h_system = ''Darwin'', h_machine = ''arm64''\<rparr> None None =
     Inr \<lparr>dp_device = ''mps'', dp_dtype = ''float16'', dp_source = ''auto''\<rparr>"
proof -
  have a: "env_or_auto [] n = ''auto''" for n by (simp add: env_or_auto_def get_default_def)
  have l: "lower (strip ''auto'') = ''auto''"
    by (simp add: lower_id [of "''auto''"] lower_cp_def strip_def strip_by_def is_space_def space_cp_def)
  have "\<exists>d t. resolve_device_profile [] \<lparr>h_torch = None, h_system = ''Darwin'', h_machine = ''arm64''\<rparr> None None =
      Inr \<lparr>dp_device = d, dp_dtype = t, dp_source = ''auto''\<rparr>"
    by (simp add: resolve_device_profile_def detect_device_def detect_dtype_def read_override_def get_default_def Let_def l)
  then show ?thesis
    using resolve_device_profile_sound [of "[]" "\<lparr>h_torch = None, h_system = ''Darwin'', h_machine = ''arm64''\<rparr>"]
    by (auto simp: a probe_device_def)
qed

text \<open>
  The label of a profile whose variables are empty. An empty \<open>TTS_DEVICE\<close> is read as \<open>auto\<close>
  and the device is probed, yet the profile is labelled as coming from the environment.
\<close>

theorem empty_device_labelled_env:
  assumes "map_of env ''TTS_DEVICE'' = Some raw" "strip raw = []" "map_of env ''TTS_DTYPE'' = None"
  shows "resolve_device_profile env h None None =
    Inr \<lparr>dp_device = probe_device h, dp_dtype = (if probe_device h = ''cpu'' then ''float32'' else ''float16''), dp_source = ''env''\<rparr>"
proof -
  have "lower [] = []" by (simp add: lower_def)
  then show ?thesis
    using assms by (simp add: resolve_device_profile_def detect_device_def detect_dtype_def read_override_def get_default_def
        normalize_override_def [of raw] Let_def)
qed

theorem empty_device_labelled_env_witness:
  "resolve_device_profile [(''TTS_DEVICE'', '' '')] \<lparr>h_torch = None, h_system = ''Linux'', h_machine = ''x86_64''\<rparr> None None =
    Inr \<lparr>dp_device = ''cpu'', dp_dtype = ''float32'', dp_source = ''env''\<rparr>"
  using empty_device_labelled_env [of "[(''TTS_DEVICE'', '' '')]" "'' ''" "\<lparr>h_torch = None, h_system = ''Linux'', h_machine = ''x86_64''\<rparr>"]
  by (simp add: strip_def strip_by_def is_space_def space_cp_def probe_device_def)

end
