(* ===== verification/Config.thy ===== *)
theory Config
  imports Errors "HOL-Library.Char_ord" "HOL-Library.List_Lexorder"
begin

text \<open>
  \<open>config.py\<close>: the settings and the loaders \<open>__post_init__\<close> runs in order, each of which reads the
  environment and may end the start-up with a \<open>ValueError\<close>. The voice map is read from a file of the
  given file system: whether the path exists, is a regular file, and what its text is (the exception of the
  read, the message of the JSON parser, or the value).
\<close>

record preload_entry =
  pe_provider :: string
  pe_model :: string

record voice_config =
  vc_ref_audio_path :: string
  vc_ref_text :: string
  vc_language :: string
  vc_number_lang :: string
  vc_temperature :: pyfloat
  vc_top_p :: pyfloat
  vc_target_db :: pyfloat
  vc_max_sentences :: int

record settings =
  app_name :: string
  app_env :: string
  app_log_level :: string
  tts_model_default :: string
  tts_model_allowed :: "string list"
  tts_provider :: string
  mlx_default :: string
  mlx_allowed :: "string list"
  voxtral_default :: string
  voxtral_allowed :: "string list"
  vllm_default :: string
  vllm_allowed :: "string list"
  stt_model_default :: string
  stt_model_allowed :: "string list"
  tts_voice_map :: "(string \<times> voice_config) list"
  tts_max_input_chars :: int
  tts_max_concurrent_requests :: int
  tts_device :: string
  tts_dtype :: string
  tts_max_queue_depth :: int
  tts_model_cache_size :: int
  tts_preload_models :: "preload_entry list"
  tts_inference_timeout :: "pyfloat option"
  tts_shutdown_drain_seconds :: int
  tts_min_free_memory_gb :: int
  app_log_format :: string
  tts_voice_store_dir :: string
  voice_metadata_backend :: string
  voice_metadata_dsn :: "string option"
  voice_blob_backend :: string
  s3_endpoint :: string
  s3_bucket :: string
  s3_region :: string
  tts_refaudio_max_bytes :: int
  tts_default_preset :: string
  tts_presets_file :: string
  silence_trim_threshold_db :: pyfloat

definition default_settings :: settings where
  "default_settings = \<lparr>
     app_name = ''llm-tts-api'', app_env = ''development'', app_log_level = ''INFO'',
     tts_model_default = ''Qwen/Qwen3-TTS-12Hz-0.6B-Base'', tts_model_allowed = [], tts_provider = ''mlx_audio'',
     mlx_default = ''Qwen/Qwen3-TTS-12Hz-0.6B-Base'', mlx_allowed = [],
     voxtral_default = ''mlx-community/Voxtral-4B-TTS-2603-mlx-4bit'', voxtral_allowed = [],
     vllm_default = ''vllm-omni/default-tts'', vllm_allowed = [],
     stt_model_default = ''whisper-1'', stt_model_allowed = [], tts_voice_map = [],
     tts_max_input_chars = 4096, tts_max_concurrent_requests = 1,
     tts_device = ''auto'', tts_dtype = ''auto'', tts_max_queue_depth = 8, tts_model_cache_size = 1,
     tts_preload_models = [], tts_inference_timeout = None, tts_shutdown_drain_seconds = 30,
     tts_min_free_memory_gb = 4, app_log_format = ''text'', tts_voice_store_dir = ''var/voices'',
     voice_metadata_backend = ''fs_json'', voice_metadata_dsn = None, voice_blob_backend = ''fs'',
     s3_endpoint = [], s3_bucket = [], s3_region = [], tts_refaudio_max_bytes = 10 * 1024 * 1024,
     tts_default_preset = ''balanced'', tts_presets_file = ''config/presets.json'',
     silence_trim_threshold_db = Fin (- 50)\<rparr>"

record config_file =
  cf_exists :: bool
  cf_is_file :: bool
  cf_text :: "py_exc + (string + json)"

subsection \<open>Reading one variable\<close>

definition getenv :: "environ \<Rightarrow> string \<Rightarrow> string \<Rightarrow> string" where
  "getenv env name dflt = get_default env name dflt"

definition split_csv :: "string \<Rightarrow> string list" where
  "split_csv raw = filter (\<lambda>i. i \<noteq> []) (map strip (split_on (CHR '','') raw))"

definition expected_one_of :: "string \<Rightarrow> string \<Rightarrow> string list \<Rightarrow> py_exc" where
  "expected_one_of name raw allowed =
     ValueErr (name @ ''='' @ repr_str raw @ '' is not valid (expected one of: '' @ join '', '' (sort allowed) @ '')'')"

definition load_enum :: "environ \<Rightarrow> string \<Rightarrow> string list \<Rightarrow> string \<Rightarrow> string res" where
  "load_enum env name allowed dflt =
     (let raw = lower (strip (getenv env name dflt)) in
      if raw = [] then Inr dflt
      else if raw \<notin> set allowed then Inl (expected_one_of name raw allowed)
      else Inr raw)"

definition load_int :: "environ \<Rightarrow> string \<Rightarrow> int \<Rightarrow> int \<Rightarrow> int res" where
  "load_int env name dflt minimum =
     (let raw = strip (getenv env name []) in
      if raw = [] then Inr dflt
      else case parse_int raw of
        None \<Rightarrow> Inl (ValueErr (name @ '' must be an integer''))
      | Some v \<Rightarrow> if v < minimum then Inl (ValueErr (name @ '' must be >= '' @ int_str minimum)) else Inr v)"

definition load_optional_timeout :: "environ \<Rightarrow> string \<Rightarrow> pyfloat option res" where
  "load_optional_timeout env name =
     (let raw = strip (getenv env name []) in
      if raw = [] then Inr None
      else case parse_float raw of
        None \<Rightarrow> Inl (ValueErr (name @ '' must be a positive number of seconds''))
      | Some v \<Rightarrow> if fle v (Fin 0) then Inl (ValueErr (name @ '' must be > 0 (omit the variable to disable the timeout)''))
                 else Inr (Some v))"

definition valid_config_devices :: "string list" where
  "valid_config_devices = [''auto'', ''mps'', ''cuda'', ''cpu'']"

definition valid_config_dtypes :: "string list" where
  "valid_config_dtypes = [''auto'', ''float16'', ''bfloat16'', ''float32'']"

definition valid_log_formats :: "string list" where
  "valid_log_formats = [''text'', ''json'']"

definition valid_metadata_backends :: "string list" where
  "valid_metadata_backends = [''fs_json'', ''postgres'']"

definition valid_blob_backends :: "string list" where
  "valid_blob_backends = [''fs'', ''s3'']"

definition provider_names :: "string list" where
  "provider_names = [''mlx_audio'', ''voxtral'', ''vllm-omni'']"

subsection \<open>Models of a provider\<close>

definition model_default_for :: "settings \<Rightarrow> string \<Rightarrow> string" where
  "model_default_for s provider =
     (if provider = ''vllm-omni'' then vllm_default s
      else if provider = ''voxtral'' then voxtral_default s
      else mlx_default s)"

definition model_allowed_for :: "settings \<Rightarrow> string \<Rightarrow> string list" where
  "model_allowed_for s provider =
     (if provider = ''vllm-omni'' then vllm_allowed s
      else if provider = ''voxtral'' then voxtral_allowed s
      else mlx_allowed s)"

definition allow_list_for_provider :: "settings \<Rightarrow> string \<Rightarrow> string list option" where
  "allow_list_for_provider s provider =
     (if provider = ''mlx_audio'' then Some (mlx_allowed s)
      else if provider = ''voxtral'' then Some (voxtral_allowed s)
      else if provider = ''vllm-omni'' then Some (vllm_allowed s)
      else None)"

definition load_provider_model_list :: "environ \<Rightarrow> string \<Rightarrow> string \<Rightarrow> string \<Rightarrow> string \<times> string list" where
  "load_provider_model_list env default_env allowed_env fallback_default =
     (let model_default = strip (getenv env default_env fallback_default);
          raw_allowed = strip (getenv env allowed_env []);
          allowed_models = (if raw_allowed = [] then [model_default] else split_csv raw_allowed);
          normalized_allowed = (if model_default \<in> set allowed_models then allowed_models
                                else model_default # allowed_models)
      in (model_default, normalized_allowed))"

subsection \<open>The loaders\<close>

definition load_app_identity :: "environ \<Rightarrow> settings \<Rightarrow> settings" where
  "load_app_identity env s = s\<lparr>
     app_name := getenv env ''APP_NAME'' (app_name s),
     app_env := getenv env ''APP_ENV'' (app_env s),
     app_log_level := getenv env ''APP_LOG_LEVEL'' (app_log_level s)\<rparr>"

definition load_provider_models :: "environ \<Rightarrow> settings \<Rightarrow> settings res" where
  "load_provider_models env s =
     (let raw = lower (strip (getenv env ''TTS_PROVIDER'' [])) in
      bindE (if raw = [] \<or> raw = ''auto'' then Inr ''mlx_audio''
             else if raw \<notin> set provider_names
             then Inl (ValueErr (''TTS_PROVIDER must be one of '' @ quoted ''mlx_audio'' @ '', '' @ quoted ''voxtral'' @ '', '' @
                    quoted ''vllm-omni'' @ '' (or '' @ quoted ''auto'' @ '')''))
             else Inr raw) (\<lambda>provider.
      let (md, ma) = load_provider_model_list env ''TTS_MLX_AUDIO_MODEL_DEFAULT'' ''TTS_MLX_AUDIO_MODEL_ALLOWED'' (mlx_default s);
          (xd, xa) = load_provider_model_list env ''TTS_VOXTRAL_MODEL_DEFAULT'' ''TTS_VOXTRAL_MODEL_ALLOWED'' (voxtral_default s);
          (vd, va) = load_provider_model_list env ''TTS_VLLM_OMNI_MODEL_DEFAULT'' ''TTS_VLLM_OMNI_MODEL_ALLOWED'' (vllm_default s);
          s1 = s\<lparr>tts_provider := provider, mlx_default := md, mlx_allowed := ma, voxtral_default := xd,
                voxtral_allowed := xa, vllm_default := vd, vllm_allowed := va\<rparr>
      in Inr (s1\<lparr>tts_model_default := model_default_for s1 provider, tts_model_allowed := model_allowed_for s1 provider\<rparr>)))"

definition load_stt_models :: "environ \<Rightarrow> settings \<Rightarrow> settings" where
  "load_stt_models env s =
     (let md = getenv env ''STT_MODEL_DEFAULT'' (stt_model_default s);
          raw = strip (getenv env ''STT_MODEL_ALLOWED'' [])
      in s\<lparr>stt_model_default := md, stt_model_allowed := (if raw = [] then [md] else split_csv raw)\<rparr>)"

definition load_tts_limits :: "environ \<Rightarrow> settings \<Rightarrow> settings res" where
  "load_tts_limits env s =
     (case parse_int (strip (getenv env ''TTS_MAX_INPUT_CHARS'' (int_str (tts_max_input_chars s)))) of
        None \<Rightarrow> Inl (ValueErr ''TTS_MAX_INPUT_CHARS must be an integer'')
      | Some chars \<Rightarrow>
          if chars < 256 then Inl (ValueErr ''TTS_MAX_INPUT_CHARS must be >= 256'')
          else (case parse_int (strip (getenv env ''TTS_MAX_CONCURRENT_REQUESTS'' ''1'')) of
              None \<Rightarrow> Inl (ValueErr ''TTS_MAX_CONCURRENT_REQUESTS must be an integer >= 1'')
            | Some n \<Rightarrow> Inr (s\<lparr>tts_max_input_chars := chars, tts_max_concurrent_requests := max 1 n\<rparr>)))"

definition parse_preload_item :: "settings \<Rightarrow> string \<Rightarrow> string \<Rightarrow> preload_entry res" where
  "parse_preload_item s name item =
     (let entry = name @ '' entry '' @ repr_str item in
      if CHR '':'' \<notin> set item then Inl (ValueErr (entry @ '' must be of the form '' @ quoted ''provider:model''))
      else
        (let provider = strip (fst (split1 (CHR '':'') item)); model = strip (snd (split1 (CHR '':'') item)) in
         if provider = [] \<or> model = [] then Inl (ValueErr (entry @ '' must have non-empty provider and model''))
         else case allow_list_for_provider s provider of
             None \<Rightarrow> Inl (ValueErr (entry @ '': unknown provider '' @ repr_str provider))
           | Some allow \<Rightarrow>
               if model \<notin> set allow
               then Inl (ValueErr (entry @ '': model '' @ repr_str model @ '' not in allow-list for provider '' @ repr_str provider))
               else Inr \<lparr>pe_provider = provider, pe_model = model\<rparr>))"

definition load_preload_models :: "environ \<Rightarrow> settings \<Rightarrow> string \<Rightarrow> preload_entry list res" where
  "load_preload_models env s name =
     (let raw = strip (getenv env name []) in
      if raw = [] then Inr [] else res_map (parse_preload_item s name) (split_csv raw))"

definition load_runtime_knobs :: "environ \<Rightarrow> settings \<Rightarrow> settings res" where
  "load_runtime_knobs env s =
     bindE (load_enum env ''TTS_DEVICE'' valid_config_devices (tts_device s)) (\<lambda>device.
     bindE (load_enum env ''TTS_DTYPE'' valid_config_dtypes (tts_dtype s)) (\<lambda>dtype.
     bindE (load_enum env ''APP_LOG_FORMAT'' valid_log_formats (app_log_format s)) (\<lambda>fmt.
     bindE (load_int env ''TTS_MAX_QUEUE_DEPTH'' (tts_max_queue_depth s) 0) (\<lambda>depth.
     bindE (load_int env ''TTS_MODEL_CACHE_SIZE'' (tts_model_cache_size s) 1) (\<lambda>cache.
     bindE (load_int env ''TTS_SHUTDOWN_DRAIN_SECONDS'' (tts_shutdown_drain_seconds s) 0) (\<lambda>drain.
     bindE (load_int env ''TTS_MIN_FREE_MEMORY_GB'' (tts_min_free_memory_gb s) 0) (\<lambda>mem.
     bindE (load_optional_timeout env ''TTS_INFERENCE_TIMEOUT_SECONDS'') (\<lambda>tmo.
     (let s1 = s\<lparr>tts_device := device, tts_dtype := dtype, app_log_format := fmt, tts_max_queue_depth := depth,
            tts_model_cache_size := cache, tts_shutdown_drain_seconds := drain, tts_min_free_memory_gb := mem,
            tts_inference_timeout := tmo\<rparr>
      in bindE (load_preload_models env s1 ''TTS_PRELOAD_MODELS'') (\<lambda>pre.
           Inr (s1\<lparr>tts_preload_models := pre\<rparr>)))))))))))"

definition load_voice_store_dir :: "environ \<Rightarrow> settings \<Rightarrow> settings" where
  "load_voice_store_dir env s =
     (let raw = strip (getenv env ''TTS_VOICE_STORE_DIR'' []) in
      s\<lparr>tts_voice_store_dir := (if raw = [] then ''var/voices'' else raw)\<rparr>)"

definition load_voice_metadata_backend :: "environ \<Rightarrow> settings \<Rightarrow> settings res" where
  "load_voice_metadata_backend env s =
     (let raw = lower (strip (getenv env ''TTS_VOICE_METADATA_BACKEND'' []));
          backend = (if raw = [] then ''fs_json'' else raw);
          dsn = strip (getenv env ''TTS_VOICE_METADATA_DSN'' [])
      in if backend \<notin> set valid_metadata_backends
         then Inl (expected_one_of ''TTS_VOICE_METADATA_BACKEND'' backend valid_metadata_backends)
         else Inr (s\<lparr>voice_metadata_backend := backend, voice_metadata_dsn := (if dsn = [] then None else Some dsn)\<rparr>))"

definition load_voice_blob_backend :: "environ \<Rightarrow> settings \<Rightarrow> settings res" where
  "load_voice_blob_backend env s =
     bindE (load_enum env ''TTS_VOICE_BLOB_BACKEND'' valid_blob_backends (voice_blob_backend s)) (\<lambda>backend.
     (let bucket = strip (getenv env ''TTS_VOICE_BLOB_S3_BUCKET'' []) in
      if backend = ''s3'' \<and> bucket = []
      then Inl (ValueErr ''TTS_VOICE_BLOB_S3_BUCKET must be set when TTS_VOICE_BLOB_BACKEND=s3'')
      else Inr (s\<lparr>voice_blob_backend := backend,
             s3_endpoint := strip (getenv env ''TTS_VOICE_BLOB_S3_ENDPOINT'' []), s3_bucket := bucket,
             s3_region := strip (getenv env ''TTS_VOICE_BLOB_S3_REGION'' [])\<rparr>)))"

definition load_presets_settings :: "environ \<Rightarrow> settings \<Rightarrow> settings res" where
  "load_presets_settings env s =
     (let raw_preset = strip (getenv env ''TTS_DEFAULT_PRESET'' []);
          raw_file = strip (getenv env ''TTS_PRESETS_FILE'' []);
          s1 = s\<lparr>tts_default_preset := (if raw_preset = [] then tts_default_preset s else raw_preset),
                tts_presets_file := (if raw_file = [] then ''config/presets.json'' else raw_file)\<rparr>;
          raw_db = strip (getenv env ''TTS_SILENCE_TRIM_THRESHOLD_DB'' [])
      in if raw_db = [] then Inr s1
         else case parse_float raw_db of
             None \<Rightarrow> Inl (ValueErr ''TTS_SILENCE_TRIM_THRESHOLD_DB must be a floating-point dBFS value'')
           | Some db \<Rightarrow> Inr (s1\<lparr>silence_trim_threshold_db := db\<rparr>))"

subsection \<open>The voice map\<close>

definition voice_err :: "string \<Rightarrow> string \<Rightarrow> py_exc" where
  "voice_err v msg = ValueErr (''Voice '' @ quoted v @ '' requires '' @ msg)"

definition need :: "'a option \<Rightarrow> py_exc \<Rightarrow> 'a res" where
  "need x e = (case x of None \<Rightarrow> Inl e | Some y \<Rightarrow> Inr y)"

definition check :: "bool \<Rightarrow> py_exc \<Rightarrow> unit res" where
  "check ok e = (if ok then Inr () else Inl e)"

definition parse_voice_entry :: "string \<Rightarrow> json \<Rightarrow> voice_config res" where
  "parse_voice_entry v body = (case body of
     JObj d \<Rightarrow>
       bindE (need (json_str (get_default d ''ref_audio_path'' JNull)) (voice_err v (''string '' @ quoted ''ref_audio_path''))) (\<lambda>path.
       bindE (need (json_str (get_default d ''language'' JNull)) (voice_err v (''non-empty '' @ quoted ''language''))) (\<lambda>la.
       bindE (check (strip la \<noteq> []) (voice_err v (''non-empty '' @ quoted ''language''))) (\<lambda>_.
       bindE (need (json_str (get_default d ''ref_text'' (JStr []))) (voice_err v (''string '' @ quoted ''ref_text''))) (\<lambda>txt.
       bindE (need (json_str (get_default d ''number_lang'' (JStr []))) (voice_err v (''string '' @ quoted ''number_lang''))) (\<lambda>nl.
       bindE (need (json_number (get_default d ''temperature'' (JFloat (Fin (4 / 5))))) (voice_err v (''numeric '' @ quoted ''temperature''))) (\<lambda>te.
       bindE (need (json_number (get_default d ''top_p'' (JFloat (Fin (19 / 20))))) (voice_err v (''numeric '' @ quoted ''top_p''))) (\<lambda>tp.
       bindE (need (json_number (get_default d ''target_db'' (JFloat (Fin (- 20))))) (voice_err v (''numeric '' @ quoted ''target_db''))) (\<lambda>td.
       bindE (need (json_int (get_default d ''max_sentences_per_chunk'' (JInt 2))) (voice_err v (''integer '' @ quoted ''max_sentences_per_chunk''))) (\<lambda>ms.
       bindE (check (1 \<le> ms) (voice_err v (quoted ''max_sentences_per_chunk'' @ '' >= 1''))) (\<lambda>_.
       bindE (check (fle (Fin 0) te \<and> fle te (Fin 2)) (voice_err v (quoted ''temperature'' @ '' between 0.0 and 2.0''))) (\<lambda>_.
       bindE (check (flt (Fin 0) tp \<and> fle tp (Fin 1)) (voice_err v (quoted ''top_p'' @ '' between 0.0 and 1.0''))) (\<lambda>_.
         Inr \<lparr>vc_ref_audio_path = path, vc_ref_text = txt, vc_language = la, vc_number_lang = nl, vc_temperature = te,
              vc_top_p = tp, vc_target_db = td, vc_max_sentences = ms\<rparr>))))))))))))
   | _ \<Rightarrow> Inl (ValueErr (''Voice config for '' @ quoted v @ '' must be an object'')))"

definition resolve_voice_map_path :: "environ \<Rightarrow> (string \<Rightarrow> config_file) \<Rightarrow> string option res" where
  "resolve_voice_map_path env files =
     (let path = strip (getenv env ''TTS_VOICE_MAP_FILE'' []) in
      if path = [] then Inr None
      else if \<not> cf_exists (files path) then Inr None
      else if \<not> cf_is_file (files path) then Inl (ValueErr ''TTS_VOICE_MAP_FILE must point to a regular file'')
      else Inr (Some path))"

definition load_voice_map_from_file :: "environ \<Rightarrow> (string \<Rightarrow> config_file) \<Rightarrow> (string \<times> voice_config) list res" where
  "load_voice_map_from_file env files = bindE (resolve_voice_map_path env files) (\<lambda>path.
     case path of
       None \<Rightarrow> Inr []
     | Some p \<Rightarrow> (case cf_text (files p) of
         Inl e \<Rightarrow> Inl e
       | Inr (Inl _) \<Rightarrow> Inl (ValueErr ''TTS_VOICE_MAP_FILE must contain valid JSON'')
       | Inr (Inr (JObj kvs)) \<Rightarrow>
           res_map (\<lambda>kv. bindE (parse_voice_entry (fst kv) (snd kv)) (\<lambda>c. Inr (fst kv, c))) kvs
       | Inr (Inr _) \<Rightarrow> Inl (ValueErr ''Voice map must be a JSON object'')))"

definition post_init :: "environ \<Rightarrow> (string \<Rightarrow> config_file) \<Rightarrow> settings \<Rightarrow> settings res" where
  "post_init env files s0 =
     bindE (load_provider_models env (load_app_identity env s0)) (\<lambda>s1.
     bindE (load_tts_limits env (load_stt_models env s1)) (\<lambda>s2.
     bindE (load_runtime_knobs env s2) (\<lambda>s3.
     bindE (load_voice_metadata_backend env (load_voice_store_dir env s3)) (\<lambda>s4.
     bindE (load_voice_blob_backend env s4) (\<lambda>s5.
     bindE (load_int env ''TTS_REFAUDIO_MAX_BYTES'' (tts_refaudio_max_bytes s5) 1) (\<lambda>n.
     bindE (load_presets_settings env (s5\<lparr>tts_refaudio_max_bytes := n\<rparr>)) (\<lambda>s6.
     bindE (load_voice_map_from_file env files) (\<lambda>vm.
       Inr (s6\<lparr>tts_voice_map := vm\<rparr>)))))))))"

text \<open>\<open>Settings()\<close>.\<close>

definition load_settings :: "environ \<Rightarrow> (string \<Rightarrow> config_file) \<Rightarrow> settings res" where
  "load_settings env files = post_init env files default_settings"

subsection \<open>What a start-up that succeeds guarantees\<close>

definition voice_config_ok :: "voice_config \<Rightarrow> bool" where
  "voice_config_ok c \<longleftrightarrow> strip (vc_language c) \<noteq> [] \<and> 1 \<le> vc_max_sentences c \<and>
     (\<exists>q. vc_temperature c = Fin q \<and> 0 \<le> q \<and> q \<le> 2) \<and> (\<exists>q. vc_top_p c = Fin q \<and> 0 < q \<and> q \<le> 1)"

lemma need_Inr [simp]: "need x e = Inr y \<longleftrightarrow> x = Some y"
  by (cases x) (auto simp: need_def)

lemma check_Inr [simp]: "check b e = Inr u \<longleftrightarrow> b"
  by (simp add: check_def)

lemma parse_voice_entry_ok: "parse_voice_entry v body = Inr c \<Longrightarrow> voice_config_ok c"
  by (cases body)
     (auto simp: parse_voice_entry_def bindE_Inr_iff voice_config_ok_def dest: fle_bounded_Fin flt_fle_bounded_Fin)

lemma load_enum_ok: "load_enum env name allowed d = Inr x \<Longrightarrow> d \<in> set allowed \<Longrightarrow> x \<in> set allowed"
  by (auto simp: load_enum_def Let_def split: if_splits)

lemma load_int_ok: "load_int env name d m = Inr x \<Longrightarrow> m \<le> d \<Longrightarrow> m \<le> x"
  by (auto simp: load_int_def Let_def split: if_splits option.splits)

lemma load_optional_timeout_ok:
  "load_optional_timeout env name = Inr (Some t) \<Longrightarrow> \<not> fle t (Fin 0)"
  by (auto simp: load_optional_timeout_def Let_def split: if_splits option.splits)

lemma load_provider_model_list_ok: "load_provider_model_list env a b c = (d, l) \<Longrightarrow> d \<in> set l"
  by (auto simp: load_provider_model_list_def Let_def split: if_splits)

lemma parse_preload_item_ok:
  "parse_preload_item s name item = Inr e \<Longrightarrow>
   \<exists>allow. allow_list_for_provider s (pe_provider e) = Some allow \<and> pe_model e \<in> set allow"
  by (auto simp: parse_preload_item_def Let_def split: if_splits option.splits)

definition providers_ok :: "settings \<Rightarrow> bool" where
  "providers_ok s \<longleftrightarrow> tts_provider s \<in> set provider_names \<and>
     mlx_default s \<in> set (mlx_allowed s) \<and> voxtral_default s \<in> set (voxtral_allowed s) \<and>
     vllm_default s \<in> set (vllm_allowed s) \<and>
     tts_model_default s = model_default_for s (tts_provider s) \<and>
     tts_model_allowed s = model_allowed_for s (tts_provider s)"

definition preload_ok :: "settings \<Rightarrow> preload_entry \<Rightarrow> bool" where
  "preload_ok s e \<longleftrightarrow> pe_provider e \<in> set provider_names \<and> pe_model e \<in> set (model_allowed_for s (pe_provider e))"

definition knobs_ok :: "settings \<Rightarrow> bool" where
  "knobs_ok s \<longleftrightarrow> tts_device s \<in> set valid_config_devices \<and> tts_dtype s \<in> set valid_config_dtypes \<and>
     app_log_format s \<in> set valid_log_formats \<and> 0 \<le> tts_max_queue_depth s \<and> 1 \<le> tts_model_cache_size s \<and>
     0 \<le> tts_shutdown_drain_seconds s \<and> 0 \<le> tts_min_free_memory_gb s \<and>
     (\<forall>t. tts_inference_timeout s = Some t \<longrightarrow> \<not> fle t (Fin 0)) \<and>
     (\<forall>e\<in>set (tts_preload_models s). preload_ok s e)"

lemma allow_list_preload_ok:
  "allow_list_for_provider s p = Some allow \<Longrightarrow> m \<in> set allow \<Longrightarrow> preload_ok s \<lparr>pe_provider = p, pe_model = m\<rparr>"
  by (auto simp: allow_list_for_provider_def preload_ok_def model_allowed_for_def provider_names_def split: if_splits)

lemma load_provider_models_ok:
  assumes "load_provider_models env s = Inr s'"
  shows "providers_ok s' \<and> (\<exists>md ma xd xa vd va d al p. s' = s\<lparr>tts_provider := p, mlx_default := md, mlx_allowed := ma,
     voxtral_default := xd, voxtral_allowed := xa, vllm_default := vd, vllm_allowed := va,
     tts_model_default := d, tts_model_allowed := al\<rparr>)"
proof -
  obtain md ma xd xa vd va where l:
    "load_provider_model_list env ''TTS_MLX_AUDIO_MODEL_DEFAULT'' ''TTS_MLX_AUDIO_MODEL_ALLOWED'' (mlx_default s) = (md, ma)"
    "load_provider_model_list env ''TTS_VOXTRAL_MODEL_DEFAULT'' ''TTS_VOXTRAL_MODEL_ALLOWED'' (voxtral_default s) = (xd, xa)"
    "load_provider_model_list env ''TTS_VLLM_OMNI_MODEL_DEFAULT'' ''TTS_VLLM_OMNI_MODEL_ALLOWED'' (vllm_default s) = (vd, va)"
    by (metis prod.exhaust)
  obtain p where p: "p \<in> set provider_names"
    "s' = (let s1 = s\<lparr>tts_provider := p, mlx_default := md, mlx_allowed := ma, voxtral_default := xd,
                voxtral_allowed := xa, vllm_default := vd, vllm_allowed := va\<rparr>
      in s1\<lparr>tts_model_default := model_default_for s1 p, tts_model_allowed := model_allowed_for s1 p\<rparr>)"
    using assms by (auto simp: load_provider_models_def Let_def bindE_Inr_iff l provider_names_def split: if_splits)
  have mem: "md \<in> set ma" "xd \<in> set xa" "vd \<in> set va"
    using l by (auto dest: load_provider_model_list_ok)
  have "providers_ok s'"
    using p(1) mem by (simp add: p(2) Let_def providers_ok_def model_default_for_def model_allowed_for_def)
  then show ?thesis using p(2) unfolding Let_def by blast
qed

lemma load_tts_limits_ok:
  "load_tts_limits env s = Inr s' \<Longrightarrow> \<exists>c n. s' = s\<lparr>tts_max_input_chars := c, tts_max_concurrent_requests := n\<rparr> \<and> 256 \<le> c \<and> 1 \<le> n"
proof -
  assume "load_tts_limits env s = Inr s'"
  then obtain c n where "s' = s\<lparr>tts_max_input_chars := c, tts_max_concurrent_requests := max 1 n\<rparr>" "256 \<le> c"
    by (auto simp: load_tts_limits_def split: option.splits if_splits)
  moreover have "1 \<le> max 1 n" by (rule max.cobounded1)
  ultimately show ?thesis by blast
qed

lemma load_runtime_knobs_ok:
  assumes "load_runtime_knobs env s = Inr s'"
    and "tts_device s \<in> set valid_config_devices" "tts_dtype s \<in> set valid_config_dtypes"
    and "app_log_format s \<in> set valid_log_formats" "0 \<le> tts_max_queue_depth s" "1 \<le> tts_model_cache_size s"
    and "0 \<le> tts_shutdown_drain_seconds s" "0 \<le> tts_min_free_memory_gb s"
  shows "knobs_ok s' \<and> (\<exists>a b c d e f g h i. s' = s\<lparr>tts_device := a, tts_dtype := b, app_log_format := c, tts_max_queue_depth := d,
            tts_model_cache_size := e, tts_shutdown_drain_seconds := f, tts_min_free_memory_gb := g,
            tts_inference_timeout := h, tts_preload_models := i\<rparr>)"
proof -
  obtain a b c d e f g h i where l:
    "load_enum env ''TTS_DEVICE'' valid_config_devices (tts_device s) = Inr a"
    "load_enum env ''TTS_DTYPE'' valid_config_dtypes (tts_dtype s) = Inr b"
    "load_enum env ''APP_LOG_FORMAT'' valid_log_formats (app_log_format s) = Inr c"
    "load_int env ''TTS_MAX_QUEUE_DEPTH'' (tts_max_queue_depth s) 0 = Inr d"
    "load_int env ''TTS_MODEL_CACHE_SIZE'' (tts_model_cache_size s) 1 = Inr e"
    "load_int env ''TTS_SHUTDOWN_DRAIN_SECONDS'' (tts_shutdown_drain_seconds s) 0 = Inr f"
    "load_int env ''TTS_MIN_FREE_MEMORY_GB'' (tts_min_free_memory_gb s) 0 = Inr g"
    "load_optional_timeout env ''TTS_INFERENCE_TIMEOUT_SECONDS'' = Inr h"
    "load_preload_models env (s\<lparr>tts_device := a, tts_dtype := b, app_log_format := c, tts_max_queue_depth := d,
            tts_model_cache_size := e, tts_shutdown_drain_seconds := f, tts_min_free_memory_gb := g,
            tts_inference_timeout := h\<rparr>) ''TTS_PRELOAD_MODELS'' = Inr i"
    and s': "s' = s\<lparr>tts_device := a, tts_dtype := b, app_log_format := c, tts_max_queue_depth := d,
            tts_model_cache_size := e, tts_shutdown_drain_seconds := f, tts_min_free_memory_gb := g,
            tts_inference_timeout := h, tts_preload_models := i\<rparr>"
    using assms(1) unfolding load_runtime_knobs_def Let_def bindE_Inr_iff by auto
  have "preload_ok s' x" if "x \<in> set i" for x
  proof -
    from that l(9) obtain allow where "allow_list_for_provider s (pe_provider x) = Some allow" "pe_model x \<in> set allow"
      by (auto simp: load_preload_models_def Let_def allow_list_for_provider_def split: if_splits
          dest!: res_map_set parse_preload_item_ok)
    from allow_list_preload_ok [OF this] show ?thesis
      by (auto simp: preload_ok_def s' model_allowed_for_def split: if_splits)
  qed
  moreover have "\<forall>t. h = Some t \<longrightarrow> \<not> fle t (Fin 0)" using l(8) load_optional_timeout_ok by blast
  ultimately have "knobs_ok s'"
    using load_enum_ok [OF l(1) assms(2)] load_enum_ok [OF l(2) assms(3)] load_enum_ok [OF l(3) assms(4)]
      load_int_ok [OF l(4) assms(5)] load_int_ok [OF l(5) assms(6)] load_int_ok [OF l(6) assms(7)] load_int_ok [OF l(7) assms(8)]
    by (simp add: knobs_ok_def s')
  with s' show ?thesis by blast
qed

lemma load_voice_metadata_backend_ok:
  "load_voice_metadata_backend env s = Inr s' \<Longrightarrow> \<exists>a b. s' = s\<lparr>voice_metadata_backend := a, voice_metadata_dsn := b\<rparr> \<and>
     a \<in> set valid_metadata_backends"
  by (auto simp: load_voice_metadata_backend_def Let_def split: if_splits)

lemma load_voice_blob_backend_ok:
  "load_voice_blob_backend env s = Inr s' \<Longrightarrow> voice_blob_backend s \<in> set valid_blob_backends \<Longrightarrow>
   \<exists>a b c d. s' = s\<lparr>voice_blob_backend := a, s3_endpoint := b, s3_bucket := c, s3_region := d\<rparr> \<and>
     a \<in> set valid_blob_backends \<and> (a = ''s3'' \<longrightarrow> c \<noteq> [])"
  by (auto simp: load_voice_blob_backend_def Let_def bindE_Inr_iff dest: load_enum_ok split: if_splits)

lemma load_presets_settings_ok:
  "load_presets_settings env s = Inr s' \<Longrightarrow>
   \<exists>a b c. s' = s\<lparr>tts_default_preset := a, tts_presets_file := b, silence_trim_threshold_db := c\<rparr>"
proof -
  let ?p = "if strip (getenv env ''TTS_DEFAULT_PRESET'' []) = [] then tts_default_preset s
      else strip (getenv env ''TTS_DEFAULT_PRESET'' [])"
  let ?f = "if strip (getenv env ''TTS_PRESETS_FILE'' []) = [] then ''config/presets.json''
      else strip (getenv env ''TTS_PRESETS_FILE'' [])"
  let ?db = "strip (getenv env ''TTS_SILENCE_TRIM_THRESHOLD_DB'' [])"
  assume l: "load_presets_settings env s = Inr s'"
  have "\<exists>c. s' = s\<lparr>tts_default_preset := ?p, tts_presets_file := ?f, silence_trim_threshold_db := c\<rparr>"
  proof (cases "?db = []")
    case True
    with l show ?thesis
      by (intro exI [of _ "silence_trim_threshold_db s"]) (auto simp: load_presets_settings_def Let_def split del: if_split)
  next
    case False
    with l obtain db where "parse_float ?db = Some db"
      by (cases "parse_float ?db") (simp_all add: load_presets_settings_def Let_def)
    with False l show ?thesis
      by (intro exI [of _ db]) (simp add: load_presets_settings_def Let_def split del: if_split)
  qed
  then show ?thesis by blast
qed

lemma load_voice_map_cases:
  assumes "load_voice_map_from_file env files = Inr vm"
  shows "vm = [] \<or> (\<exists>kvs. res_map (\<lambda>kv. bindE (parse_voice_entry (fst kv) (snd kv)) (\<lambda>c. Inr (fst kv, c))) kvs = Inr vm)"
proof -
  obtain path where p: "resolve_voice_map_path env files = Inr path"
    using assms by (auto simp: load_voice_map_from_file_def bindE_Inr_iff)
  show ?thesis
  proof (cases path)
    case None
    with p assms show ?thesis by (simp add: load_voice_map_from_file_def)
  next
    case (Some f)
    then obtain j where "cf_text (files f) = Inr (Inr j)"
      using p assms by (cases "cf_text (files f)") (auto simp: load_voice_map_from_file_def split: sum.splits)
    with Some p assms show ?thesis by (cases j) (auto simp: load_voice_map_from_file_def)
  qed
qed

lemma load_voice_map_ok:
  assumes "load_voice_map_from_file env files = Inr vm" "(v, c) \<in> set vm"
  shows "voice_config_ok c"
  using load_voice_map_cases [OF assms(1)] assms(2)
  by (auto simp: bindE_Inr_iff dest!: res_map_set dest: parse_voice_entry_ok)

lemma model_for_frame [simp]:
  "model_allowed_for (t\<lparr>tts_voice_store_dir := x0\<rparr>) p = model_allowed_for t p"
  "model_default_for (t\<lparr>tts_voice_store_dir := x0\<rparr>) p = model_default_for t p"
  "model_allowed_for (t\<lparr>voice_metadata_backend := x1\<rparr>) p = model_allowed_for t p"
  "model_default_for (t\<lparr>voice_metadata_backend := x1\<rparr>) p = model_default_for t p"
  "model_allowed_for (t\<lparr>voice_metadata_dsn := x2\<rparr>) p = model_allowed_for t p"
  "model_default_for (t\<lparr>voice_metadata_dsn := x2\<rparr>) p = model_default_for t p"
  "model_allowed_for (t\<lparr>voice_blob_backend := x3\<rparr>) p = model_allowed_for t p"
  "model_default_for (t\<lparr>voice_blob_backend := x3\<rparr>) p = model_default_for t p"
  "model_allowed_for (t\<lparr>s3_endpoint := x4\<rparr>) p = model_allowed_for t p"
  "model_default_for (t\<lparr>s3_endpoint := x4\<rparr>) p = model_default_for t p"
  "model_allowed_for (t\<lparr>s3_bucket := x5\<rparr>) p = model_allowed_for t p"
  "model_default_for (t\<lparr>s3_bucket := x5\<rparr>) p = model_default_for t p"
  "model_allowed_for (t\<lparr>s3_region := x6\<rparr>) p = model_allowed_for t p"
  "model_default_for (t\<lparr>s3_region := x6\<rparr>) p = model_default_for t p"
  "model_allowed_for (t\<lparr>tts_refaudio_max_bytes := x7\<rparr>) p = model_allowed_for t p"
  "model_default_for (t\<lparr>tts_refaudio_max_bytes := x7\<rparr>) p = model_default_for t p"
  "model_allowed_for (t\<lparr>tts_default_preset := x8\<rparr>) p = model_allowed_for t p"
  "model_default_for (t\<lparr>tts_default_preset := x8\<rparr>) p = model_default_for t p"
  "model_allowed_for (t\<lparr>tts_presets_file := x9\<rparr>) p = model_allowed_for t p"
  "model_default_for (t\<lparr>tts_presets_file := x9\<rparr>) p = model_default_for t p"
  "model_allowed_for (t\<lparr>silence_trim_threshold_db := x10\<rparr>) p = model_allowed_for t p"
  "model_default_for (t\<lparr>silence_trim_threshold_db := x10\<rparr>) p = model_default_for t p"
  "model_allowed_for (t\<lparr>tts_voice_map := x11\<rparr>) p = model_allowed_for t p"
  "model_default_for (t\<lparr>tts_voice_map := x11\<rparr>) p = model_default_for t p"
  by (simp_all add: model_allowed_for_def model_default_for_def)

lemma load_settings_ok:
  assumes "load_settings env files = Inr s"
  shows "256 \<le> tts_max_input_chars s \<and> 1 \<le> tts_max_concurrent_requests s \<and> 1 \<le> tts_refaudio_max_bytes s \<and>
    providers_ok s \<and> knobs_ok s \<and>
    voice_metadata_backend s \<in> {''fs_json'', ''postgres''} \<and> voice_blob_backend s \<in> {''fs'', ''s3''} \<and>
    (voice_blob_backend s = ''s3'' \<longrightarrow> s3_bucket s \<noteq> []) \<and>
    (\<forall>(v, c)\<in>set (tts_voice_map s). voice_config_ok c)"
proof -
  let ?d = default_settings
  obtain s1 s2 s3 s4 s5 n s6 vm where l:
    "load_provider_models env (load_app_identity env ?d) = Inr s1"
    "load_tts_limits env (load_stt_models env s1) = Inr s2" "load_runtime_knobs env s2 = Inr s3"
    "load_voice_metadata_backend env (load_voice_store_dir env s3) = Inr s4" "load_voice_blob_backend env s4 = Inr s5"
    "load_int env ''TTS_REFAUDIO_MAX_BYTES'' (tts_refaudio_max_bytes s5) 1 = Inr n"
    "load_presets_settings env (s5\<lparr>tts_refaudio_max_bytes := n\<rparr>) = Inr s6"
    "load_voice_map_from_file env files = Inr vm" "s = s6\<lparr>tts_voice_map := vm\<rparr>"
    using assms unfolding load_settings_def post_init_def bindE_Inr_iff by auto
  define base where "base = (\<lambda>t :: settings. tts_device t = ''auto'' \<and> tts_dtype t = ''auto'' \<and> app_log_format t = ''text'' \<and>
     tts_max_queue_depth t = 8 \<and> tts_model_cache_size t = 1 \<and> tts_shutdown_drain_seconds t = 30 \<and>
     tts_min_free_memory_gb t = 4 \<and> voice_blob_backend t = ''fs'' \<and> tts_refaudio_max_bytes t = 10485760)"
  have 0: "base (load_app_identity env ?d)"
    by (simp add: base_def load_app_identity_def default_settings_def)
  from load_provider_models_ok [OF l(1)] 0 have 1: "providers_ok s1" "base s1" by (auto simp: base_def)
  have 2: "providers_ok (load_stt_models env s1)" "base (load_stt_models env s1)"
    using 1 by (simp_all add: load_stt_models_def Let_def providers_ok_def model_default_for_def model_allowed_for_def base_def)
  from load_tts_limits_ok [OF l(2)] 2 have 3: "providers_ok s2" "base s2" "256 \<le> tts_max_input_chars s2"
      "1 \<le> tts_max_concurrent_requests s2"
    by (auto simp: providers_ok_def model_default_for_def model_allowed_for_def base_def)
  have "knobs_ok s3 \<and> (\<exists>a b c d e f g h i. s3 = s2\<lparr>tts_device := a, tts_dtype := b, app_log_format := c, tts_max_queue_depth := d,
            tts_model_cache_size := e, tts_shutdown_drain_seconds := f, tts_min_free_memory_gb := g,
            tts_inference_timeout := h, tts_preload_models := i\<rparr>)"
    using 3(2) by (intro load_runtime_knobs_ok [OF l(3)])
      (simp_all add: base_def valid_config_devices_def valid_config_dtypes_def valid_log_formats_def)
  then have 4: "knobs_ok s3" "providers_ok s3" "voice_blob_backend s3 = ''fs''" "tts_refaudio_max_bytes s3 = 10485760"
      "256 \<le> tts_max_input_chars s3" "1 \<le> tts_max_concurrent_requests s3"
    using 3 by (auto simp: providers_ok_def model_default_for_def model_allowed_for_def base_def)
  define rest where "rest = (\<lambda>t :: settings. knobs_ok t \<and> providers_ok t \<and>
      256 \<le> tts_max_input_chars t \<and> 1 \<le> tts_max_concurrent_requests t)"
  have keep: "rest t \<Longrightarrow> rest (t\<lparr>tts_voice_store_dir := x\<rparr>)" "rest t \<Longrightarrow> rest (t\<lparr>voice_metadata_backend := x\<rparr>)"
    "rest t \<Longrightarrow> rest (t\<lparr>voice_metadata_dsn := y\<rparr>)" "rest t \<Longrightarrow> rest (t\<lparr>voice_blob_backend := x\<rparr>)"
    "rest t \<Longrightarrow> rest (t\<lparr>s3_endpoint := x\<rparr>)" "rest t \<Longrightarrow> rest (t\<lparr>s3_bucket := x\<rparr>)" "rest t \<Longrightarrow> rest (t\<lparr>s3_region := x\<rparr>)"
    "rest t \<Longrightarrow> rest (t\<lparr>tts_refaudio_max_bytes := z\<rparr>)" "rest t \<Longrightarrow> rest (t\<lparr>tts_default_preset := x\<rparr>)"
    "rest t \<Longrightarrow> rest (t\<lparr>tts_presets_file := x\<rparr>)" "rest t \<Longrightarrow> rest (t\<lparr>silence_trim_threshold_db := w\<rparr>)"
    "rest t \<Longrightarrow> rest (t\<lparr>tts_voice_map := m\<rparr>)" for t x y z w m
    by (simp_all add: rest_def knobs_ok_def providers_ok_def preload_ok_def)
  have "rest s3" using 4 by (simp add: rest_def)
  with load_voice_metadata_backend_ok [OF l(4)] 4(3,4) have 5: "rest s4" "voice_blob_backend s4 = ''fs''" "tts_refaudio_max_bytes s4 = 10485760"
      "voice_metadata_backend s4 \<in> set valid_metadata_backends"
    by (auto simp: load_voice_store_dir_def Let_def intro: keep)
  from 5(2) have "voice_blob_backend s4 \<in> set valid_blob_backends" by (simp add: valid_blob_backends_def)
  from load_voice_blob_backend_ok [OF l(5) this] 5 have 6: "rest s5" "tts_refaudio_max_bytes s5 = 10485760"
      "voice_metadata_backend s5 \<in> set valid_metadata_backends" "voice_blob_backend s5 \<in> set valid_blob_backends"
      "voice_blob_backend s5 = ''s3'' \<longrightarrow> s3_bucket s5 \<noteq> []"
    by (auto intro: keep)
  have n: "1 \<le> n" using load_int_ok [OF l(6)] 6(2) by simp
  from load_presets_settings_ok [OF l(7)] 6 n have 7: "rest s6" "1 \<le> tts_refaudio_max_bytes s6"
      "voice_metadata_backend s6 \<in> set valid_metadata_backends" "voice_blob_backend s6 \<in> set valid_blob_backends"
      "voice_blob_backend s6 = ''s3'' \<longrightarrow> s3_bucket s6 \<noteq> []"
    by (auto intro: keep)
  have "rest s" using keep(12) [OF 7(1)] l(9) by simp
  with 7 load_voice_map_ok [OF l(8)] show ?thesis
    by (auto simp: rest_def l(9) valid_metadata_backends_def valid_blob_backends_def)
qed

text \<open>
  C17: settings that load are sound. Whatever the environment and the voice map file hold, either the
  start-up fails or every limit is in its range, every name is a known one, each provider's default model is
  on its allow-list, the current model and list are those of the chosen provider, every model to preload is
  allowed for a known provider, the S3 backend has a bucket, no timeout is zero or negative, and every
  legacy voice has its parameters in range.
\<close>

theorem load_settings_sound:
  assumes "load_settings env files = Inr s"
  shows "256 \<le> tts_max_input_chars s \<and> 1 \<le> tts_max_concurrent_requests s \<and> 1 \<le> tts_refaudio_max_bytes s \<and>
    providers_ok s \<and> knobs_ok s \<and>
    voice_metadata_backend s \<in> {''fs_json'', ''postgres''} \<and> voice_blob_backend s \<in> {''fs'', ''s3''} \<and>
    (voice_blob_backend s = ''s3'' \<longrightarrow> s3_bucket s \<noteq> []) \<and>
    (\<forall>(v, c)\<in>set (tts_voice_map s). voice_config_ok c)"
  using assms by (rule load_settings_ok)

definition no_files :: "string \<Rightarrow> config_file" where
  "no_files = (\<lambda>_. \<lparr>cf_exists = False, cf_is_file = False, cf_text = Inl (OSErr [])\<rparr>)"

lemma strip_plain: "s \<noteq> [] \<Longrightarrow> \<not> is_space (hd s) \<Longrightarrow> \<not> is_space (last s) \<Longrightarrow> strip s = s"
  unfolding strip_def by (rule strip_by_id)

lemma load_settings_defaults:
  "\<exists>s. load_settings [(''TTS_MAX_INPUT_CHARS'', ''512'')] no_files = Inr s \<and> tts_max_input_chars s = 512 \<and>
     tts_preload_models s = [] \<and> voice_metadata_backend s = ''fs_json'' \<and> voice_blob_backend s = ''fs'' \<and>
     tts_model_cache_size s = 1 \<and> tts_max_queue_depth s = 8 \<and>
     tts_default_preset s = ''balanced'' \<and> tts_presets_file s = ''config/presets.json''"
proof -
  have st: "strip ''512'' = ''512''" "strip ''1'' = ''1''" "strip [] = []" "strip ''auto'' = ''auto''" "strip ''text'' = ''text''"
      "strip ''fs'' = ''fs''" "strip ''Qwen/Qwen3-TTS-12Hz-0.6B-Base'' = ''Qwen/Qwen3-TTS-12Hz-0.6B-Base''"
      "strip ''mlx-community/Voxtral-4B-TTS-2603-mlx-4bit'' = ''mlx-community/Voxtral-4B-TTS-2603-mlx-4bit''"
      "strip ''vllm-omni/default-tts'' = ''vllm-omni/default-tts''"
    by (simp_all add: strip_plain is_space_def space_cp_def) (simp add: strip_def)
  have lo: "lower ''auto'' = ''auto''" "lower ''text'' = ''text''" "lower ''fs'' = ''fs''" "lower [] = []"
    by (rule lower_id, simp add: lower_cp_def)+
  have nums: "parse_int ''512'' = Some 512" "parse_int ''1'' = Some 1"
    using st(1,2) by (simp_all add: parse_int_def parse_digits_def is_digit_def digits_val_def digit_val_def)
  show ?thesis
    by (simp add: load_settings_def post_init_def load_provider_models_def load_app_identity_def load_provider_model_list_def
        load_stt_models_def load_tts_limits_def load_runtime_knobs_def load_enum_def load_int_def load_optional_timeout_def
        load_preload_models_def load_voice_store_dir_def load_voice_metadata_backend_def load_voice_blob_backend_def
        load_presets_settings_def load_voice_map_from_file_def resolve_voice_map_path_def getenv_def get_default_def
        default_settings_def st lo nums valid_config_devices_def valid_config_dtypes_def valid_log_formats_def
        valid_metadata_backends_def valid_blob_backends_def Let_def)
qed

theorem load_settings_sound_witness:
  "\<exists>s. load_settings [(''TTS_MAX_INPUT_CHARS'', ''512'')] no_files = Inr s \<and> tts_max_input_chars s = 512 \<and>
     providers_ok s \<and> knobs_ok s"
proof -
  obtain s where s: "load_settings [(''TTS_MAX_INPUT_CHARS'', ''512'')] no_files = Inr s" "tts_max_input_chars s = 512"
    using load_settings_defaults by blast
  from load_settings_sound [OF s(1)] s show ?thesis by blast
qed

text \<open>
  A timeout that is not a number passes the check for a positive number, because no comparison
  with NaN holds.
\<close>

theorem timeout_accepts_nan:
  assumes "map_of env name = Some raw" "lower (strip (strip raw)) = ''nan''"
  shows "load_optional_timeout env name = Inr (Some NaN)"
proof -
  have "parse_float (strip raw) = Some NaN"
    using assms(2) by (simp add: parse_float_def parse_unsigned_float_def)
  moreover have "strip raw \<noteq> []"
  proof
    assume "strip raw = []"
    with assms(2) show False by (simp add: strip_def lower_def)
  qed
  ultimately show ?thesis
    using assms(1) by (simp add: load_optional_timeout_def getenv_def get_default_def Let_def)
qed

theorem timeout_accepts_nan_witness:
  "load_optional_timeout [(''TTS_INFERENCE_TIMEOUT_SECONDS'', ''nan'')] ''TTS_INFERENCE_TIMEOUT_SECONDS'' = Inr (Some NaN)"
  by (rule timeout_accepts_nan [of _ _ "''nan''"])
     (simp_all add: strip_plain is_space_def space_cp_def lower_id lower_cp_def)

end
