(* ===== verification/Providers.thy ===== *)
theory Providers
  imports Config Device
begin

text \<open>
  The provider registry (\<open>tts_providers/registry.py\<close>), the start-up selection of a provider
  (\<open>auto_select.py\<close>), the model registry (\<open>model_registry.py\<close>) and the choice of the voice backends
  in \<open>dependencies.py\<close>. A provider is its name, the devices it supports and a payload \<open>'p\<close>.
\<close>

record 'p tts_provider_strategy =
  pv_name :: string
  pv_devices :: "string list"
  pv_impl :: 'p

type_synonym 'p provider_registry = "(string \<times> 'p tts_provider_strategy) list"

subsection \<open>The registry\<close>

text \<open>The dict comprehension of \<open>__init__\<close>: a later provider of the same name replaces an earlier one.\<close>

definition new_registry :: "'p tts_provider_strategy list \<Rightarrow> 'p provider_registry" where
  "new_registry ps = fold (\<lambda>p d. AList.update (pv_name p) p d) ps []"

definition known_model_family_prefixes :: "string list" where
  "known_model_family_prefixes = [''qwen'', ''voxtral-mini'', ''voxtral-small'', ''llama'', ''mistral'']"

definition looks_like_model_name :: "string \<Rightarrow> bool" where
  "looks_like_model_name name =
     (if CHR ''/'' \<in> set name then True
      else list_ex (\<lambda>p. starts_with p (lower name)) known_model_family_prefixes)"

definition registry_names :: "'p provider_registry \<Rightarrow> string list" where
  "registry_names r = map fst r"

definition registry_all :: "'p provider_registry \<Rightarrow> 'p tts_provider_strategy list" where
  "registry_all r = map snd r"

definition registry_find :: "'p provider_registry \<Rightarrow> string \<Rightarrow> 'p tts_provider_strategy option" where
  "registry_find r name = map_of r name"

text \<open>The long dash of the message, as its UTF-8 bytes.\<close>

definition em_dash :: string where
  "em_dash = [CHR 0xE2, CHR 0x80, CHR 0x94]"

definition registry_get :: "'p provider_registry \<Rightarrow> string \<Rightarrow> 'p tts_provider_strategy res" where
  "registry_get r name = (case map_of r name of
       Some p \<Rightarrow> Inr p
     | None \<Rightarrow> Inl (invalid_request
         (''provider '' @ quoted name @ '' is not supported. Valid providers: '' @ join '', '' (registry_names r) @ ''.'' @
          (if looks_like_model_name name
           then '' Note: '' @ quoted name @ '' refers to a model family, not a provider '' @ em_dash @
             '' use provider='' @ quoted ''mlx_audio'' @ '' with the desired model (e.g. model='' @
             quoted ''Qwen/Qwen3-TTS-12Hz-0.6B-Base'' @ '').''
           else []))
         (Some ''provider'')))"

subsection \<open>Selection at start-up\<close>

record provider_rejection =
  rj_provider :: string
  rj_reason :: string

record provider_selection =
  sel_provider :: string
  sel_device :: string
  sel_source :: string

record selection_error =
  se_message :: string
  se_rejections :: "provider_rejection list"

definition for_device :: "string \<Rightarrow> provider_rejection list \<Rightarrow> selection_error" where
  "for_device device rejections =
     (let rows = join ''; '' (map (\<lambda>r. rj_provider r @ '': '' @ rj_reason r) rejections);
          table = (if rows = [] then ''no providers registered'' else rows)
      in \<lparr>se_message = ''provider_error.no_viable_provider: no registered TTS provider supports device '' @
             repr_str device @ '' ('' @ table @ '')'',
          se_rejections = rejections\<rparr>)"

definition for_override :: "string \<Rightarrow> string \<Rightarrow> string \<Rightarrow> selection_error" where
  "for_override override device reason =
     \<lparr>se_message = ''provider_error.no_viable_provider: TTS_PROVIDER='' @ repr_str override @
        '' cannot serve device '' @ repr_str device @ '': '' @ reason,
      se_rejections = [\<lparr>rj_provider = override, rj_reason = reason\<rparr>]\<rparr>"

definition read_override_from_env :: "environ \<Rightarrow> string option" where
  "read_override_from_env env = (case map_of env ''TTS_PROVIDER'' of
       None \<Rightarrow> None
     | Some raw \<Rightarrow> (let c = lower (strip raw) in if c = [] \<or> c = ''auto'' then None else Some c))"

definition validate_override :: "string \<Rightarrow> string \<Rightarrow> 'p provider_registry \<Rightarrow> selection_error + provider_selection" where
  "validate_override override device r = (case registry_find r override of
       None \<Rightarrow> Inl (for_override override device
         (''unknown provider; known providers: '' @
          (if registry_names r = [] then ''(none registered)'' else join '', '' (sort (registry_names r)))))
     | Some p \<Rightarrow>
         if device \<notin> set (pv_devices p)
         then Inl (for_override override device
           (''provider supports devices '' @ repr_str_list (sort (pv_devices p)) @ '' but device is '' @ repr_str device))
         else Inr \<lparr>sel_provider = override, sel_device = device, sel_source = ''env''\<rparr>)"

fun select_auto_from :: "string \<Rightarrow> 'p tts_provider_strategy list \<Rightarrow> provider_rejection list \<Rightarrow>
    selection_error + provider_selection" where
  "select_auto_from device [] rejections = Inl (for_device device rejections)"
| "select_auto_from device (p # ps) rejections =
     (if device \<in> set (pv_devices p)
      then Inr \<lparr>sel_provider = pv_name p, sel_device = device, sel_source = ''auto''\<rparr>
      else select_auto_from device ps
        (rejections @ [\<lparr>rj_provider = pv_name p, rj_reason = ''supports_devices='' @ repr_str_list (sort (pv_devices p))\<rparr>]))"

definition select_auto :: "string \<Rightarrow> 'p provider_registry \<Rightarrow> selection_error + provider_selection" where
  "select_auto device r = select_auto_from device (registry_all r) []"

definition select_provider :: "environ \<Rightarrow> device_profile \<Rightarrow> 'p provider_registry \<Rightarrow> string option \<Rightarrow>
    selection_error + provider_selection" where
  "select_provider env profile r override =
     (case (case override of Some x \<Rightarrow> Some x | None \<Rightarrow> read_override_from_env env) of
        Some x \<Rightarrow> validate_override x (dp_device profile) r
      | None \<Rightarrow> select_auto (dp_device profile) r)"

subsection \<open>Models\<close>

text \<open>\<open>dict.fromkeys\<close>: the first occurrence of each.\<close>

definition dedup_first :: "'a list \<Rightarrow> 'a list" where
  "dedup_first xs = rev (remdups (rev xs))"

definition list_models :: "settings \<Rightarrow> string list" where
  "list_models s = dedup_first (mlx_allowed s @ voxtral_allowed s @ vllm_allowed s @ stt_model_allowed s)"

definition is_allowed_tts_model :: "settings \<Rightarrow> string \<Rightarrow> string \<Rightarrow> bool" where
  "is_allowed_tts_model s model provider = (model \<in> set (model_allowed_for s provider))"

definition resolve_tts_model :: "settings \<Rightarrow> string option \<Rightarrow> string \<Rightarrow> string" where
  "resolve_tts_model s model provider = (case model of
       Some m \<Rightarrow> if m = [] then model_default_for s provider else m
     | None \<Rightarrow> model_default_for s provider)"

definition resolve_tts_target :: "settings \<Rightarrow> string option \<Rightarrow> string option \<Rightarrow> (string \<times> string) res" where
  "resolve_tts_target s model provider =
     (let rp = (case provider of Some p \<Rightarrow> if p = [] then tts_provider s else lower (strip p) | None \<Rightarrow> tts_provider s) in
      if rp \<notin> {''mlx_audio'', ''voxtral'', ''vllm-omni''}
      then Inl (ValueErr (''provider must be one of '' @ quoted ''mlx_audio'' @ '', '' @ quoted ''voxtral'' @ '', or '' @ quoted ''vllm-omni''))
      else Inr (resolve_tts_model s model rp, rp))"

subsection \<open>Wiring of the voice stores\<close>

datatype metadata_backend = FsJsonBackend string | PostgresBackend string
datatype blob_backend = FsBackend string | S3Backend string "string option" "string option"

text \<open>The optional packages: the name of the missing module, when the import fails.\<close>

definition build_voice_metadata_repo :: "settings \<Rightarrow> string option \<Rightarrow> metadata_backend res" where
  "build_voice_metadata_repo s missing =
     (if voice_metadata_backend s = ''fs_json'' then Inr (FsJsonBackend (tts_voice_store_dir s))
      else if voice_metadata_backend s = ''postgres'' then
        (case missing of
           Some m \<Rightarrow> Inl (RuntimeErr (''config_error.missing_extra: voice metadata backend '' @ quoted ''postgres'' @
             '' requires the [postgres] extra (missing module: '' @ (if m = [] then ''psycopg'' else m) @
             ''). Install via `pip install '' @ quoted ''.[postgres]'' @ ''`.''))
         | None \<Rightarrow> (case voice_metadata_dsn s of
             None \<Rightarrow> Inl (ValueErr ''TTS_VOICE_METADATA_DSN must be set when TTS_VOICE_METADATA_BACKEND=postgres'')
           | Some dsn \<Rightarrow> if dsn = []
               then Inl (ValueErr ''TTS_VOICE_METADATA_DSN must be set when TTS_VOICE_METADATA_BACKEND=postgres'')
               else Inr (PostgresBackend dsn)))
      else Inl (ValueErr (''unknown voice metadata backend: '' @ repr_str (voice_metadata_backend s))))"

definition or_none :: "string \<Rightarrow> string option" where
  "or_none s = (if s = [] then None else Some s)"

definition build_voice_blob_repo :: "settings \<Rightarrow> string option \<Rightarrow> blob_backend res" where
  "build_voice_blob_repo s missing =
     (if voice_blob_backend s = ''fs'' then Inr (FsBackend (tts_voice_store_dir s))
      else if voice_blob_backend s = ''s3'' then
        (case missing of
           Some m \<Rightarrow> Inl (RuntimeErr (''provider_error.missing_extra: TTS_VOICE_BLOB_BACKEND=s3 requires the '' @
             quoted ''[s3]'' @ '' extra (missing module: '' @ (if m = [] then ''aiobotocore'' else m) @
             ''). Install with '' @ quoted ''pip install .[s3]'' @ ''.''))
         | None \<Rightarrow> Inr (S3Backend (s3_bucket s) (or_none (s3_endpoint s)) (or_none (s3_region s))))
      else Inl (ValueErr (''Unknown TTS_VOICE_BLOB_BACKEND='' @ repr_str (voice_blob_backend s))))"

text \<open>
  The part of \<open>build_default_dependencies\<close> that decides: the settings follow the selected provider.
\<close>

definition reconcile_settings :: "settings \<Rightarrow> provider_selection \<Rightarrow> settings" where
  "reconcile_settings s sel = s\<lparr>tts_provider := sel_provider sel,
     tts_model_default := model_default_for s (sel_provider sel),
     tts_model_allowed := model_allowed_for s (sel_provider sel)\<rparr>"

subsection \<open>Properties\<close>

definition registry_ok :: "'p provider_registry \<Rightarrow> bool" where
  "registry_ok r \<longleftrightarrow> distinct (map fst r) \<and> (\<forall>(n, p)\<in>set r. pv_name p = n)"

lemma update_in_set: "kv \<in> set (AList.update k v al) \<Longrightarrow> kv = (k, v) \<or> kv \<in> set al"
  by (induction al) (auto split: if_splits)

lemma registry_ok_update: "registry_ok r \<Longrightarrow> registry_ok (AList.update (pv_name p) p r)"
  by (auto simp: registry_ok_def distinct_update dest!: update_in_set)

lemma registry_ok_fold:
  "registry_ok r \<Longrightarrow> registry_ok (fold (\<lambda>p d. AList.update (pv_name p) p d) ps r)"
  by (induction ps arbitrary: r) (auto intro: registry_ok_update)

lemma new_registry_ok: "registry_ok (new_registry ps)"
  unfolding new_registry_def by (rule registry_ok_fold) (simp add: registry_ok_def)

lemma select_auto_from_spec:
  "(case select_auto_from device ps rj of
     Inr sel \<Rightarrow> (\<exists>p qs rs. ps = qs @ p # rs \<and> sel_provider sel = pv_name p \<and> device \<in> set (pv_devices p) \<and>
        (\<forall>q\<in>set qs. device \<notin> set (pv_devices q)) \<and> sel_device sel = device \<and> sel_source sel = ''auto'')
   | Inl e \<Rightarrow> (\<forall>p\<in>set ps. device \<notin> set (pv_devices p)) \<and>
        map rj_provider (se_rejections e) = map rj_provider rj @ map pv_name ps)"
proof (induction ps arbitrary: rj)
  case Nil
  then show ?case by (simp add: for_device_def Let_def)
next
  case (Cons p ps)
  show ?case
  proof (cases "device \<in> set (pv_devices p)")
    case True
    then show ?thesis by (simp add: exI [of _ "[]"]) (metis append_Nil empty_iff list.set(1))
  next
    case False
    with Cons.IH [of "rj @ [\<lparr>rj_provider = pv_name p, rj_reason = ''supports_devices='' @ repr_str_list (sort (pv_devices p))\<rparr>]"]
    show ?thesis
      by (auto split: sum.splits) (metis append_Cons set_ConsD)
  qed
qed

text \<open>
  The provider that is selected exists and can run on the device. Without an override it is the first
  in registration order that can; with one it is the one named, under its normalised name. The start-up fails
  exactly when there is none: then no registered provider supports the device, and the error lists
  each of them in order, or the named one is unknown or does not support it.
\<close>

theorem select_provider_sound:
  "(case select_provider env profile (new_registry ps) None of
     Inr sel \<Rightarrow> (\<exists>p. registry_find (new_registry ps) (sel_provider sel) = Some p \<and> pv_name p = sel_provider sel \<and>
        dp_device profile \<in> set (pv_devices p)) \<and> sel_device sel = dp_device profile \<and>
        (if read_override_from_env env = None
         then sel_source sel = ''auto'' \<and> (\<exists>qs p rs. registry_all (new_registry ps) = qs @ p # rs \<and>
            pv_name p = sel_provider sel \<and> (\<forall>q\<in>set qs. dp_device profile \<notin> set (pv_devices q)))
         else sel_source sel = ''env'' \<and> read_override_from_env env = Some (sel_provider sel))
   | Inl e \<Rightarrow>
        (if read_override_from_env env = None
         then (\<forall>p\<in>set (registry_all (new_registry ps)). dp_device profile \<notin> set (pv_devices p)) \<and>
            map rj_provider (se_rejections e) = registry_names (new_registry ps)
         else (case registry_find (new_registry ps) (the (read_override_from_env env)) of
            None \<Rightarrow> True | Some p \<Rightarrow> dp_device profile \<notin> set (pv_devices p))))"
proof -
  let ?r = "new_registry ps"
  have ok: "registry_ok ?r" by (rule new_registry_ok)
  have find: "registry_find ?r (pv_name p) = Some p" if "p \<in> set (registry_all ?r)" for p
    using that ok by (auto simp: registry_all_def registry_find_def registry_ok_def)
  have names: "map pv_name (registry_all ?r) = registry_names ?r"
    using ok by (auto simp: registry_all_def registry_names_def registry_ok_def)
  show ?thesis
  proof (cases "read_override_from_env env")
    case None
    have sp: "select_provider env profile ?r None = select_auto_from (dp_device profile) (registry_all ?r) []"
      using None by (simp add: select_provider_def select_auto_def)
    show ?thesis
    proof (cases "select_auto_from (dp_device profile) (registry_all ?r) []")
      case (Inl e)
      with select_auto_from_spec [where device = "dp_device profile" and ps = "registry_all ?r" and rj = "[]"] None sp names show ?thesis by simp
    next
      case (Inr sel)
      with select_auto_from_spec [where device = "dp_device profile" and ps = "registry_all ?r" and rj = "[]"] obtain p qs rs where
        p: "registry_all ?r = qs @ p # rs" "sel_provider sel = pv_name p" "dp_device profile \<in> set (pv_devices p)"
        "\<forall>q\<in>set qs. dp_device profile \<notin> set (pv_devices q)" "sel_device sel = dp_device profile" "sel_source sel = ''auto''"
        by auto
      have "registry_find ?r (pv_name p) = Some p" using p(1) by (intro find) simp
      with p Inr None sp show ?thesis by auto
    qed
  next
    case (Some x)
    then have sp: "select_provider env profile ?r None = validate_override x (dp_device profile) ?r"
      by (simp add: select_provider_def)
    have "pv_name p = x" if "registry_find ?r x = Some p" for p
      using that ok by (auto simp: registry_find_def registry_ok_def dest: map_of_SomeD)
    with Some sp show ?thesis
      by (auto simp: validate_override_def split: option.splits)
  qed
qed

text \<open>Two providers, only the second on the GPU, no override: it is selected.\<close>

theorem select_provider_sound_witness:
  "let ps = [\<lparr>pv_name = ''mlx_audio'', pv_devices = [''mps''], pv_impl = ()\<rparr>,
             \<lparr>pv_name = ''voxtral'', pv_devices = [''cuda'', ''cpu''], pv_impl = ()\<rparr>];
       profile = \<lparr>dp_device = ''cuda'', dp_dtype = ''float16'', dp_source = ''auto''\<rparr>
   in (\<exists>sel p. select_provider [] profile (new_registry ps) None = Inr sel \<and>
        registry_find (new_registry ps) (sel_provider sel) = Some p \<and> sel_provider sel = ''voxtral'')"
  using select_provider_sound [where env = "[]" and ps = "[\<lparr>pv_name = ''mlx_audio'', pv_devices = [''mps''], pv_impl = ()\<rparr>,
             \<lparr>pv_name = ''voxtral'', pv_devices = [''cuda'', ''cpu''], pv_impl = ()\<rparr>]" and
        profile = "\<lparr>dp_device = ''cuda'', dp_dtype = ''float16'', dp_source = ''auto''\<rparr>"]
  by (simp add: select_provider_def read_override_from_env_def select_auto_def new_registry_def registry_all_def
      registry_find_def Let_def)

end
