(* ===== verification/ConfigWatcher.thy ===== *)
theory ConfigWatcher
  imports SeedIngestion
begin

text \<open>
  The file watcher of \<open>config_watcher.py\<close>, which drives the hot reload of the presets and the repeated
  seed ingestion. The locale \<open>watched\<close> is what a callback promises the loop; it is interpreted
  here on the seed ingestor and, in the theory of the presets, on the reloader.
\<close>

text \<open>
  \<open>ConfigWatcher.watch\<close> over the batches of changes that \<open>awatch\<close> yields. A batch has the paths that
  changed and what the callback then finds (\<open>'e\<close>); \<open>resolve\<close> is \<open>Path.resolve\<close>. The loop ends when the
  batches do or, when the callback is cancelled, with that; any other exception is logged.
\<close>

datatype watch_log = CallbackRaised py_exc

fun watch_loop :: "(string \<Rightarrow> string) \<Rightarrow> string \<Rightarrow> ('e \<Rightarrow> 's \<Rightarrow> 'a res \<times> 's) \<Rightarrow> (string list \<times> 'e) list \<Rightarrow> 's \<Rightarrow>
    unit res \<times> 's \<times> watch_log list" where
  "watch_loop resolve target on_change [] s = (Inr (), s, [])"
| "watch_loop resolve target on_change ((changes, e) # bs) s =
     (if \<not> list_ex (\<lambda>p. resolve p = target) changes then watch_loop resolve target on_change bs s
      else (case on_change e s of
          (Inl x, s1) \<Rightarrow>
            if is_exception x
            then (case watch_loop resolve target on_change bs s1 of (r, s2, l) \<Rightarrow> (r, s2, CallbackRaised x # l))
            else (Inl x, s1, [])
        | (Inr _, s1) \<Rightarrow> watch_loop resolve target on_change bs s1))"

text \<open>Without a path, and without the \<open>watchfiles\<close> package, nothing is watched.\<close>

definition watch :: "(string \<Rightarrow> string) \<Rightarrow> bool \<Rightarrow> string option \<Rightarrow> ('e \<Rightarrow> 's \<Rightarrow> 'a res \<times> 's) \<Rightarrow> (string list \<times> 'e) list \<Rightarrow> 's \<Rightarrow>
    unit res \<times> 's \<times> watch_log list" where
  "watch resolve has_watchfiles path on_change bs s = (case path of
       None \<Rightarrow> (Inr (), s, [])
     | Some p \<Rightarrow> if has_watchfiles then watch_loop resolve (resolve p) on_change bs s else (Inr (), s, []))"

text \<open>\<open>VoiceSeedIngestor.watch_and_ingest\<close>: a pass per change, over the clock, the file and the audio of that moment.\<close>

type_synonym seed_moment = "(string \<Rightarrow> audio_file) \<times> datetime \<times> seed_file"

definition on_seed_changed :: "'s metadata_ops \<Rightarrow> 'b blob_ops \<Rightarrow> seed_moment \<Rightarrow> 's \<times> 'b \<Rightarrow> nat res \<times> ('s \<times> 'b)" where
  "on_seed_changed repo blobs e st = (case e of (files, now, seed) \<Rightarrow>
     (case ingest_once repo blobs files now seed st of (r, st', logs) \<Rightarrow> (r, st')))"

definition watch_and_ingest :: "'s metadata_ops \<Rightarrow> 'b blob_ops \<Rightarrow> (string \<Rightarrow> string) \<Rightarrow> bool \<Rightarrow> string option \<Rightarrow>
    (string list \<times> seed_moment) list \<Rightarrow> 's \<times> 'b \<Rightarrow> unit res \<times> ('s \<times> 'b) \<times> watch_log list" where
  "watch_and_ingest repo blobs resolve avail path bs st = watch resolve avail path (on_seed_changed repo blobs) bs st"

subsection \<open>What the loop keeps\<close>

text \<open>
  A callback that, in the moments it may meet, keeps \<open>inv\<close> and relates the states before and after
  by the preorder \<open>le\<close>, is lifted to the loop.
\<close>

locale watched =
  fixes on_change :: "'e \<Rightarrow> 's \<Rightarrow> 'a res \<times> 's"
    and moment :: "'e \<Rightarrow> bool"
    and inv :: "'s \<Rightarrow> bool"
    and le :: "'s \<Rightarrow> 's \<Rightarrow> bool"
  assumes le_refl: "le s s"
    and le_trans: "le s1 s2 \<Longrightarrow> le s2 s3 \<Longrightarrow> le s1 s3"
    and callback: "moment e \<Longrightarrow> inv s \<Longrightarrow> on_change e s = (r, s') \<Longrightarrow> inv s' \<and> le s s'"
begin

lemma watch_loop_keeps:
  "\<forall>b\<in>set bs. moment (snd b) \<Longrightarrow> inv s \<Longrightarrow> watch_loop resolve target on_change bs s = (r, s', l) \<Longrightarrow>
   inv s' \<and> le s s' \<and> (\<forall>x. r = Inl x \<longrightarrow> \<not> is_exception x)"
proof (induction bs arbitrary: s r s' l)
  case Nil
  then show ?case by (auto intro: le_refl)
next
  case (Cons b bs)
  obtain changes e where b: "b = (changes, e)" by fastforce
  show ?case
  proof (cases "list_ex (\<lambda>p. resolve p = target) changes")
    case False
    with Cons.prems b have "watch_loop resolve target on_change bs s = (r, s', l)" by simp
    with Cons.IH Cons.prems(1,2) show ?thesis by simp
  next
    case True
    obtain q s1 where q: "on_change e s = (q, s1)" by fastforce
    have s1: "inv s1" "le s s1" using callback [OF _ Cons.prems(2) q] Cons.prems(1) b by auto
    have ih: "inv s2 \<and> le s1 s2 \<and> (\<forall>x. r2 = Inl x \<longrightarrow> \<not> is_exception x)"
      if "watch_loop resolve target on_change bs s1 = (r2, s2, l2)" for r2 s2 l2
      using Cons.IH [OF _ s1(1) that] Cons.prems(1) by simp
    show ?thesis
    proof (cases q)
      case (Inl x)
      show ?thesis
      proof (cases "is_exception x")
        case True
        obtain r2 s2 l2 where rest: "watch_loop resolve target on_change bs s1 = (r2, s2, l2)" by (metis prod.exhaust)
        with Cons.prems(3) b q Inl True \<open>list_ex _ _\<close> have "r = r2" "s' = s2" by auto
        with ih [OF rest] s1(2) show ?thesis by (blast intro: le_trans)
      next
        case False
        with Cons.prems(3) b q Inl \<open>list_ex _ _\<close> s1 show ?thesis by auto
      qed
    next
      case (Inr u)
      with Cons.prems(3) b q \<open>list_ex _ _\<close> have "watch_loop resolve target on_change bs s1 = (r, s', l)" by simp
      with ih s1(2) show ?thesis by (blast intro: le_trans)
    qed
  qed
qed

lemma watch_keeps:
  assumes "\<forall>b\<in>set bs. moment (snd b)" "inv s" "watch resolve avail path on_change bs s = (r, s', l)"
  shows "inv s' \<and> le s s' \<and> (\<forall>x. r = Inl x \<longrightarrow> \<not> is_exception x)"
  using assms watch_loop_keeps [OF assms(1,2)]
  by (auto simp: watch_def le_refl split: option.splits if_splits)

end

subsection \<open>The seed ingestor\<close>

interpretation seedwatch: watched "on_seed_changed (fs_metadata_repo L) fs_blob_repo"
    "\<lambda>(files, now, seed). valid_datetime now" "\<lambda>(s, b). meta_inv L s"
    "\<lambda>(s, b) (s', b'). seeded UNIV (meta_abs L s) (meta_abs L s') (blob_abs b) (blob_abs b')" for L
proof unfold_locales
  fix e and st :: "meta_fs \<times> blob_fs" and r st'
  assume "case e of (files, now, seed) \<Rightarrow> valid_datetime now" "case st of (s, b) \<Rightarrow> meta_inv L s"
    and "on_seed_changed (fs_metadata_repo L) fs_blob_repo e st = (r, st')"
  then show "(case st' of (s, b) \<Rightarrow> meta_inv L s) \<and>
      (case st of (s, b) \<Rightarrow> \<lambda>(s', b'). seeded UNIV (meta_abs L s) (meta_abs L s') (blob_abs b) (blob_abs b')) st'"
    by (cases e, cases st, cases st') (auto simp: on_seed_changed_def dest: ingest_once_seeded split: prod.splits)
qed (auto intro: seeded_trans)

text \<open>
  The seed watcher never loses a voice and never dies of an error. Whatever the seed file becomes, over
  any sequence of changes, with any failure of the disks, every voice that was stored keeps its record and
  its audio, the store stays well formed, and the watcher ends only by being cancelled; it runs
  through all the changes when no pass is cancelled.
\<close>

theorem seed_watch_only_adds:
  assumes "meta_inv L s" "\<forall>(changes, files, now, seed)\<in>set bs. valid_datetime now"
    and "watch_and_ingest (fs_metadata_repo L) fs_blob_repo resolve avail path bs (s, b) = (r, (s', b'), l)"
  shows "meta_inv L s' \<and> meta_abs L s \<subseteq>\<^sub>m meta_abs L s' \<and> (\<forall>v\<in>dom (meta_abs L s). blob_abs b' v = blob_abs b v) \<and>
    (\<forall>x. r = Inl x \<longrightarrow> \<not> is_exception x)"
proof -
  have "\<forall>b\<in>set bs. case snd b of (files, now, seed) \<Rightarrow> valid_datetime now"
    using assms(2) by auto
  from seedwatch.watch_keeps [OF this _ assms(3) [unfolded watch_and_ingest_def]] assms(1)
  show ?thesis by (auto simp: seeded_def)
qed

theorem seed_watch_only_adds_witness:
  "(case watch_and_ingest (fs_metadata_repo sample_stdlib) fs_blob_repo id True (Some ''voices.json'')
      [([''other.json''], wav_files, sample_time, SeedJson JNull),
       ([''voices.json''], wav_files, sample_time, SeedJson (sample_seed ''anna''))] (sample_meta, sample_blobs []) of
     (r, (s', b'), l) \<Rightarrow> r = Inr () \<and> meta_inv sample_stdlib s')"
proof -
  let ?bs = "[([''other.json''], wav_files, sample_time, SeedJson JNull),
       ([''voices.json''], wav_files, sample_time, SeedJson (sample_seed ''anna''))]"
  obtain s1 b1 where e: "ingest_once (fs_metadata_repo sample_stdlib) fs_blob_repo wav_files sample_time
      (SeedJson (sample_seed ''anna'')) (sample_meta, sample_blobs []) = (Inr 1, (s1, b1), [LogCreated ''anna''])"
    using sample_ingest by blast
  have run: "watch_and_ingest (fs_metadata_repo sample_stdlib) fs_blob_repo id True (Some ''voices.json'') ?bs
      (sample_meta, sample_blobs []) = (Inr (), (s1, b1), [])"
    by (simp add: watch_and_ingest_def watch_def on_seed_changed_def e)
  have "\<forall>(changes, files, now, seed)\<in>set ?bs. valid_datetime now" using sample_time_valid by simp
  from seed_watch_only_adds [OF sample_meta_facts(1) this run] run show ?thesis by simp
qed

end
