(* ===== verification/Presets.thy ===== *)
theory Presets
  imports Config Providers ConfigWatcher
begin

text \<open>
  The audio presets: the schema and the parsing of \<open>presets.json\<close>, the check of its permissions and
  of the provider pins (\<open>presets/config.py\<close>), the start-up sequence (\<open>presets/startup.py\<close>), the hot reload
  (\<open>presets/reloader.py\<close>), which the file watcher drives. The coercions of pydantic are a parameter with the law \<open>schema_law\<close>; a version
  of the file is a value, with what stat, reading and \<open>json.loads\<close> answer on it.
\<close>

subsection \<open>The schema\<close>

record preset_postprocess =
  pp_rms_normalize :: bool
  pp_silence_trim :: bool
  pp_denoise :: bool

record preset_defaults =
  df_provider :: "string option"
  df_model :: "string option"
  df_temperature :: "pyfloat option"
  df_top_p :: "pyfloat option"
  df_max_sentences :: "int option"
  df_normalize_db :: "pyfloat option"
  df_response_format :: "string option"
  df_postprocess :: "preset_postprocess option"
  df_language :: "string option"
  df_number_lang :: "string option"
  df_voice :: "string option"

record preset_entry =
  pe_label :: string
  pe_description :: string
  pe_defaults :: preset_defaults

type_synonym preset_registry = "(string \<times> preset_entry) list"

text \<open>
  What pydantic does with one value: a message, or the coerced value. A float has its bounds
  (\<open>ge\<close>, \<open>gt\<close>, \<open>le\<close>), a string its minimum length, an int its \<open>ge\<close>, a literal its values.
\<close>

record bounds =
  bd_ge :: "rat option"
  bd_gt :: "rat option"
  bd_le :: "rat option"

record schema_lib =
  sl_str :: "nat \<Rightarrow> json \<Rightarrow> string + string"
  sl_bool :: "json \<Rightarrow> string + bool"
  sl_float :: "bounds \<Rightarrow> json \<Rightarrow> string + pyfloat"
  sl_int :: "int option \<Rightarrow> json \<Rightarrow> string + int"
  sl_literal :: "string list \<Rightarrow> json \<Rightarrow> string + string"
  sl_missing :: string
  sl_extra :: string
  sl_model_type :: string

definition in_bounds :: "bounds \<Rightarrow> pyfloat \<Rightarrow> bool" where
  "in_bounds b f =
     ((case bd_ge b of None \<Rightarrow> True | Some q \<Rightarrow> fle (Fin q) f) \<and>
      (case bd_gt b of None \<Rightarrow> True | Some q \<Rightarrow> flt (Fin q) f) \<and>
      (case bd_le b of None \<Rightarrow> True | Some q \<Rightarrow> fle f (Fin q)))"

definition unbounded :: bounds where
  "unbounded = \<lparr>bd_ge = None, bd_gt = None, bd_le = None\<rparr>"

text \<open>The errors of a model are collected over its fields, in the order of the declaration.\<close>

type_synonym 'a collected = "validation_item list + 'a"

fun ap :: "('a \<Rightarrow> 'b) collected \<Rightarrow> 'a collected \<Rightarrow> 'b collected" where
  "ap (Inl es) (Inl fs) = Inl (es @ fs)"
| "ap (Inl es) (Inr x) = Inl es"
| "ap (Inr f) (Inl fs) = Inl fs"
| "ap (Inr f) (Inr x) = Inr (f x)"

definition located :: "string \<Rightarrow> validation_item list \<Rightarrow> validation_item list" where
  "located name es = map (\<lambda>e. e\<lparr>vi_loc := LName name # vi_loc e\<rparr>) es"

fun coerced :: "(json \<Rightarrow> string + 'a) \<Rightarrow> json \<Rightarrow> 'a collected" where
  "coerced c v = (case c v of Inl m \<Rightarrow> Inl [\<lparr>vi_loc = [], vi_msg = Some m\<rparr>] | Inr x \<Rightarrow> Inr x)"

definition in_field :: "string \<Rightarrow> 'a collected \<Rightarrow> 'a collected" where
  "in_field name r = (case r of Inl es \<Rightarrow> Inl (located name es) | Inr x \<Rightarrow> Inr x)"

definition opt_field :: "(json \<Rightarrow> 'a collected) \<Rightarrow> (string \<times> json) list \<Rightarrow> string \<Rightarrow> 'a option collected" where
  "opt_field c d name = (case map_of d name of
       None \<Rightarrow> Inr None
     | Some v \<Rightarrow> if v = JNull then Inr None else map_sum id Some (in_field name (c v)))"

definition dflt_field :: "(json \<Rightarrow> 'a collected) \<Rightarrow> 'a \<Rightarrow> (string \<times> json) list \<Rightarrow> string \<Rightarrow> 'a collected" where
  "dflt_field c x d name = (case map_of d name of None \<Rightarrow> Inr x | Some v \<Rightarrow> in_field name (c v))"

definition req_field :: "schema_lib \<Rightarrow> (json \<Rightarrow> 'a collected) \<Rightarrow> (string \<times> json) list \<Rightarrow> string \<Rightarrow> 'a collected" where
  "req_field S c d name = (case map_of d name of
       None \<Rightarrow> Inl [\<lparr>vi_loc = [LName name], vi_msg = Some (sl_missing S)\<rparr>]
     | Some v \<Rightarrow> in_field name (c v))"

text \<open>\<open>extra="forbid"\<close>: the unknown keys are errors too, after those of the fields.\<close>

definition forbid_extra :: "schema_lib \<Rightarrow> string list \<Rightarrow> (string \<times> json) list \<Rightarrow> 'a collected \<Rightarrow> 'a collected" where
  "forbid_extra S names d r =
     (let xs = map (\<lambda>kv. \<lparr>vi_loc = [LName (fst kv)], vi_msg = Some (sl_extra S)\<rparr>) (filter (\<lambda>kv. fst kv \<notin> set names) d)
      in case r of Inl es \<Rightarrow> Inl (es @ xs) | Inr x \<Rightarrow> if xs = [] then Inr x else Inl xs)"

definition as_model :: "schema_lib \<Rightarrow> ((string \<times> json) list \<Rightarrow> 'a collected) \<Rightarrow> json \<Rightarrow> 'a collected" where
  "as_model S f v = (case v of JObj d \<Rightarrow> f d | _ \<Rightarrow> Inl [\<lparr>vi_loc = [], vi_msg = Some (sl_model_type S)\<rparr>])"

definition valid_response_formats :: "string list" where
  "valid_response_formats = [''wav'', ''wav24'', ''flac'']"

definition preset_postprocess_model :: "schema_lib \<Rightarrow> (string \<times> json) list \<Rightarrow> preset_postprocess collected" where
  "preset_postprocess_model S d =
     (let b = coerced (sl_bool S) in
      forbid_extra S [''rms_normalize'', ''silence_trim'', ''denoise''] d
        (ap (ap (ap (Inr preset_postprocess.make)
           (dflt_field b False d ''rms_normalize''))
           (dflt_field b False d ''silence_trim''))
           (dflt_field b False d ''denoise'')))"

definition temperature_bounds :: bounds where
  "temperature_bounds = \<lparr>bd_ge = Some 0, bd_gt = None, bd_le = Some 2\<rparr>"

definition top_p_bounds :: bounds where
  "top_p_bounds = \<lparr>bd_ge = None, bd_gt = Some 0, bd_le = Some 1\<rparr>"

definition preset_defaults_model :: "schema_lib \<Rightarrow> (string \<times> json) list \<Rightarrow> preset_defaults collected" where
  "preset_defaults_model S d =
     (let str = coerced (sl_str S 0) in
      forbid_extra S [''provider'', ''model'', ''temperature'', ''top_p'', ''max_sentences_per_chunk'', ''normalize_db'',
          ''response_format'', ''postprocess'', ''language'', ''number_lang'', ''voice''] d
        (ap (ap (ap (ap (ap (ap (ap (ap (ap (ap (ap (Inr preset_defaults.make)
           (opt_field str d ''provider''))
           (opt_field str d ''model''))
           (opt_field (coerced (sl_float S temperature_bounds)) d ''temperature''))
           (opt_field (coerced (sl_float S top_p_bounds)) d ''top_p''))
           (opt_field (coerced (sl_int S (Some 1))) d ''max_sentences_per_chunk''))
           (opt_field (coerced (sl_float S unbounded)) d ''normalize_db''))
           (opt_field (coerced (sl_literal S valid_response_formats)) d ''response_format''))
           (opt_field (as_model S (preset_postprocess_model S)) d ''postprocess''))
           (opt_field str d ''language''))
           (opt_field str d ''number_lang''))
           (opt_field str d ''voice'')))"

definition preset_entry_model :: "schema_lib \<Rightarrow> (string \<times> json) list \<Rightarrow> preset_entry collected" where
  "preset_entry_model S d =
     forbid_extra S [''label'', ''description'', ''defaults''] d
       (ap (ap (ap (Inr preset_entry.make)
          (req_field S (coerced (sl_str S 1)) d ''label''))
          (req_field S (coerced (sl_str S 1)) d ''description''))
          (req_field S (as_model S (preset_defaults_model S)) d ''defaults''))"

fun preset_config_model :: "schema_lib \<Rightarrow> (string \<times> json) list \<Rightarrow> preset_registry collected" where
  "preset_config_model S [] = Inr []"
| "preset_config_model S ((name, v) # kvs) =
     ap (ap (Inr (\<lambda>e r. (name, e) # r)) (in_field name (as_model S (preset_entry_model S) v))) (preset_config_model S kvs)"

subsection \<open>The registry\<close>

definition preset_get :: "preset_registry \<Rightarrow> string \<Rightarrow> preset_entry option" where
  "preset_get r name = map_of r name"

definition preset_names :: "preset_registry \<Rightarrow> string set" where
  "preset_names r = fst ` set r"

text \<open>
  \<open>Escaped\<close> is an exception that is none of the three classes: \<open>read_text\<close> raises
  \<open>UnicodeDecodeError\<close>, which is no \<open>OSError\<close>, on a file that is not UTF-8.
\<close>

datatype presets_exc =
    PresetsInvalid string
  | PresetsUnsafePermissions string
  | PresetProviderInvalid string
  | Escaped py_exc

datatype presets_text = ReadFails py_exc | NotJson string | JsonText json

record presets_file =
  pf_exists :: bool
  pf_is_file :: bool
  pf_text :: presets_text
  pf_stat :: "string + nat \<times> nat"

subsection \<open>Parsing\<close>

text \<open>\<open>".".join(loc_parts).replace(".[", "[")\<close>.\<close>

fun replace_dot_bracket :: "string \<Rightarrow> string" where
  "replace_dot_bracket (a # b # cs) =
     (if a = CHR ''.'' \<and> b = CHR ''['' then b # replace_dot_bracket cs else a # replace_dot_bracket (b # cs))"
| "replace_dot_bracket cs = cs"

fun loc_part :: "loc_item \<Rightarrow> string" where
  "loc_part (LIndex i) = ''['' @ int_str i @ '']''"
| "loc_part (LName s) = s"

definition format_validation_error :: "validation_item list \<Rightarrow> string" where
  "format_validation_error es = join ''; '' (map (\<lambda>e.
     replace_dot_bracket (join ''.'' (''presets'' # map loc_part (vi_loc e))) @ '': '' @
     (case vi_msg e of Some m \<Rightarrow> m | None \<Rightarrow> ''invalid value'')) es)"

definition load_preset_registry :: "schema_lib \<Rightarrow> string \<Rightarrow> presets_file \<Rightarrow> presets_exc + preset_registry" where
  "load_preset_registry S path f =
     (if \<not> pf_exists f then Inl (PresetsInvalid (''presets file not found: '' @ path))
      else if \<not> pf_is_file f then Inl (PresetsInvalid (''presets path is not a regular file: '' @ path))
      else (case pf_text f of
          ReadFails e \<Rightarrow>
            if is_os_error e
            then Inl (PresetsInvalid (''cannot read presets file '' @ path @ '': '' @ exc_str e))
            else Inl (Escaped e)
        | NotJson m \<Rightarrow> Inl (PresetsInvalid (''presets.json is not valid JSON: '' @ m))
        | JsonText (JObj d) \<Rightarrow> (case preset_config_model S d of
              Inl es \<Rightarrow> Inl (PresetsInvalid (format_validation_error es))
            | Inr r \<Rightarrow> if r = [] then Inl (PresetsInvalid ''presets.json defines no presets'') else Inr r)
        | JsonText _ \<Rightarrow> Inl (PresetsInvalid ''presets.json top-level must be a JSON object of name -> preset'')))"

subsection \<open>Permissions\<close>

fun oct_digits :: "nat \<Rightarrow> string" where
  "oct_digits n = (if n < 8 then [digit_char n] else oct_digits (n div 8) @ [digit_char (n mod 8)])"

declare oct_digits.simps [simp del]

text \<open>\<open>stat.S_IWOTH\<close> is \<open>0o002\<close>, bit 1 of the mode; \<open>0o777\<close> keeps its low nine bits.\<close>

definition world_writable :: "nat \<Rightarrow> bool" where
  "world_writable mode = bit mode 1"

definition check_presets_file_permissions :: "string \<Rightarrow> nat option \<Rightarrow> presets_file \<Rightarrow> presets_exc + unit" where
  "check_presets_file_permissions path euid f = (case pf_stat f of
       Inl m \<Rightarrow> Inl (PresetsUnsafePermissions (''cannot stat presets file '' @ path @ '': '' @ m))
     | Inr (uid, mode) \<Rightarrow>
         (case euid of
            Some process_uid \<Rightarrow>
              if uid \<noteq> process_uid
              then Inl (PresetsUnsafePermissions (''presets file '' @ path @ '' is owned by uid='' @ nat_str uid @
                '' but service runs as uid='' @ nat_str process_uid))
              else if world_writable mode
              then Inl (PresetsUnsafePermissions (''presets file '' @ path @ '' is world-writable (mode=0o'' @
                oct_digits (mode mod 512) @ '')''))
              else Inr ()
          | None \<Rightarrow>
              if world_writable mode
              then Inl (PresetsUnsafePermissions (''presets file '' @ path @ '' is world-writable (mode=0o'' @
                oct_digits (mode mod 512) @ '')''))
              else Inr ()))"

subsection \<open>Provider pins\<close>

type_synonym allow_lists = "(string \<times> string list) list"

fun validate_preset_providers :: "preset_registry \<Rightarrow> allow_lists \<Rightarrow> presets_exc + unit" where
  "validate_preset_providers [] allow = Inr ()"
| "validate_preset_providers ((name, e) # r) allow =
     (case df_provider (pe_defaults e) of
        None \<Rightarrow> validate_preset_providers r allow
      | Some provider \<Rightarrow> (case map_of allow provider of
          None \<Rightarrow> Inl (PresetProviderInvalid (''preset '' @ repr_str name @ '' pins unknown provider '' @ repr_str provider @
            ''; known providers: '' @ repr_str_list (sort (map fst allow))))
        | Some allowed \<Rightarrow> (case df_model (pe_defaults e) of
            None \<Rightarrow> validate_preset_providers r allow
          | Some model \<Rightarrow>
              if model \<notin> set allowed
              then Inl (PresetProviderInvalid (''preset '' @ repr_str name @ '' pins model '' @ repr_str model @ '' for provider '' @
                repr_str provider @ '', but that model is not in the provider'' @ [CHR 0x27] @ ''s allow-list''))
              else validate_preset_providers r allow)))"

definition allow_lists_from_settings :: "settings \<Rightarrow> string list option \<Rightarrow> allow_lists" where
  "allow_lists_from_settings s regd =
     (let raw = [(''mlx_audio'', mlx_allowed s), (''voxtral'', voxtral_allowed s), (''vllm-omni'', vllm_allowed s)] in
      case regd of None \<Rightarrow> raw | Some names \<Rightarrow> filter (\<lambda>(n, _). n \<in> set names) raw)"

subsection \<open>Start-up\<close>

definition initialize_preset_registry :: "schema_lib \<Rightarrow> settings \<Rightarrow> string list option \<Rightarrow> nat option \<Rightarrow>
    presets_file \<Rightarrow> presets_exc + preset_registry" where
  "initialize_preset_registry S s regd euid f =
     (let path = tts_presets_file s in
      case check_presets_file_permissions path euid f of
        Inl e \<Rightarrow> Inl e
      | Inr _ \<Rightarrow> (case load_preset_registry S path f of
          Inl e \<Rightarrow> Inl e
        | Inr r \<Rightarrow>
            if tts_default_preset s \<notin> preset_names r
            then Inl (PresetsInvalid (''TTS_DEFAULT_PRESET='' @ repr_str (tts_default_preset s) @
              '' does not match any preset in '' @ path @ ''; defined presets: '' @ repr_str_list (sort (map fst r))))
            else (case validate_preset_providers r (allow_lists_from_settings s regd) of
                Inl e \<Rightarrow> Inl e
              | Inr _ \<Rightarrow> Inr r)))"

subsection \<open>Hot reload\<close>

datatype reload_log =
    ReloadFailed string string
  | ReloadDefaultUnknown string "string list"
  | Reloaded "string list"

text \<open>One run of \<open>reload_once\<close>: what it logs, or the exception that leaves it, and the live registry.\<close>

definition reload_once :: "schema_lib \<Rightarrow> settings \<Rightarrow> string list option \<Rightarrow> presets_file \<Rightarrow> preset_registry \<Rightarrow>
    reload_log res \<times> preset_registry" where
  "reload_once S s regd f live =
     (case load_preset_registry S (tts_presets_file s) f of
        Inl (PresetsInvalid m) \<Rightarrow> (Inr (ReloadFailed ''config_error.presets_invalid'' m), live)
      | Inl (Escaped e) \<Rightarrow> (Inl e, live)
      | Inl (PresetsUnsafePermissions m) \<Rightarrow> (Inl (ValueErr m), live)
      | Inl (PresetProviderInvalid m) \<Rightarrow> (Inl (ValueErr m), live)
      | Inr r \<Rightarrow>
          if tts_default_preset s \<notin> preset_names r
          then (Inr (ReloadDefaultUnknown (tts_default_preset s) (sort (map fst r))), live)
          else (case validate_preset_providers r (allow_lists_from_settings s regd) of
              Inl (PresetProviderInvalid m) \<Rightarrow> (Inr (ReloadFailed ''config_error.preset_provider_invalid'' m), live)
            | Inl (Escaped e) \<Rightarrow> (Inl e, live)
            | Inl (PresetsUnsafePermissions m) \<Rightarrow> (Inl (ValueErr m), live)
            | Inl (PresetsInvalid m) \<Rightarrow> (Inl (ValueErr m), live)
            | Inr _ \<Rightarrow> (Inr (Reloaded (sort (map fst r))), r)))"

definition preset_watch :: "schema_lib \<Rightarrow> settings \<Rightarrow> string list option \<Rightarrow> (string \<Rightarrow> string) \<Rightarrow>
    (string list \<times> presets_file) list \<Rightarrow> preset_registry \<Rightarrow> unit res \<times> preset_registry \<times> watch_log list" where
  "preset_watch S s regd resolve bs live =
     watch resolve True (Some (tts_presets_file s)) (reload_once S s regd) bs live"

subsection \<open>What a loaded registry satisfies\<close>

text \<open>
  What pydantic documents: a coerced string has the minimum length, a number satisfies the declared bounds
  (a comparison with NaN is left open), a literal is one of its values.
\<close>

definition schema_law :: "schema_lib \<Rightarrow> bool" where
  "schema_law S \<longleftrightarrow>
     (\<forall>n v s. sl_str S n v = Inr s \<longrightarrow> n \<le> length s) \<and>
     (\<forall>b v f. sl_float S b v = Inr f \<longrightarrow> f = NaN \<or> in_bounds b f) \<and>
     (\<forall>k v i. sl_int S (Some k) v = Inr i \<longrightarrow> k \<le> i) \<and>
     (\<forall>ls v s. sl_literal S ls v = Inr s \<longrightarrow> s \<in> set ls)"

definition preset_defaults_ok :: "preset_defaults \<Rightarrow> bool" where
  "preset_defaults_ok d \<longleftrightarrow>
     (\<forall>t. df_temperature d = Some t \<longrightarrow> t = NaN \<or> in_bounds temperature_bounds t) \<and>
     (\<forall>t. df_top_p d = Some t \<longrightarrow> t = NaN \<or> in_bounds top_p_bounds t) \<and>
     (\<forall>n. df_max_sentences d = Some n \<longrightarrow> 1 \<le> n) \<and>
     (\<forall>r. df_response_format d = Some r \<longrightarrow> r \<in> set valid_response_formats)"

definition preset_entry_ok :: "preset_entry \<Rightarrow> bool" where
  "preset_entry_ok e \<longleftrightarrow> pe_label e \<noteq> [] \<and> pe_description e \<noteq> [] \<and> preset_defaults_ok (pe_defaults e)"

definition pins_ok :: "allow_lists \<Rightarrow> preset_registry \<Rightarrow> bool" where
  "pins_ok allow r \<longleftrightarrow> (\<forall>(n, e)\<in>set r. \<forall>p. df_provider (pe_defaults e) = Some p \<longrightarrow>
     (\<exists>ms. map_of allow p = Some ms \<and> (\<forall>m. df_model (pe_defaults e) = Some m \<longrightarrow> m \<in> set ms)))"

definition preset_registry_ok :: "settings \<Rightarrow> string list option \<Rightarrow> preset_registry \<Rightarrow> bool" where
  "preset_registry_ok s regd r \<longleftrightarrow> tts_default_preset s \<in> preset_names r \<and>
     (\<forall>(n, e)\<in>set r. preset_entry_ok e) \<and> pins_ok (allow_lists_from_settings s regd) r"

definition safe_permissions :: "nat option \<Rightarrow> presets_file \<Rightarrow> bool" where
  "safe_permissions euid f \<longleftrightarrow> (\<exists>uid mode. pf_stat f = Inr (uid, mode) \<and>
     (\<forall>u. euid = Some u \<longrightarrow> uid = u) \<and> \<not> world_writable mode)"

text \<open>A version of the file that start-up and reload both accept, permissions apart.\<close>

definition accepted :: "schema_lib \<Rightarrow> settings \<Rightarrow> string list option \<Rightarrow> presets_file \<Rightarrow> preset_registry option" where
  "accepted S s regd f = (case load_preset_registry S (tts_presets_file s) f of
       Inl _ \<Rightarrow> None
     | Inr r \<Rightarrow> if tts_default_preset s \<in> preset_names r \<and> pins_ok (allow_lists_from_settings s regd) r then Some r else None)"

lemma ap_Inr_iff: "ap f x = Inr y \<longleftrightarrow> (\<exists>g a. f = Inr g \<and> x = Inr a \<and> y = g a)"
  by (cases f; cases x) auto

lemma in_field_Inr: "in_field name r = Inr x \<longleftrightarrow> r = Inr x"
  by (cases r) (auto simp: in_field_def)

lemma coerced_Inr: "coerced c v = Inr x \<longleftrightarrow> c v = Inr x"
  by (auto split: sum.splits)

lemma opt_field_Some: "opt_field c d name = Inr (Some x) \<Longrightarrow> \<exists>v. c v = Inr x"
  by (auto simp: opt_field_def in_field_def split: option.splits if_splits sum.splits)

lemma req_field_Inr: "req_field S c d name = Inr x \<Longrightarrow> \<exists>v. c v = Inr x"
  by (auto simp: req_field_def in_field_def split: option.splits sum.splits)

lemma forbid_extra_Inr: "forbid_extra S names d r = Inr x \<Longrightarrow> r = Inr x"
  by (auto simp: forbid_extra_def Let_def split: sum.splits if_splits)

lemma as_model_Inr: "as_model S f v = Inr x \<Longrightarrow> \<exists>d. f d = Inr x"
  by (auto simp: as_model_def split: json.splits)

lemma preset_defaults_model_ok:
  assumes S: "schema_law S" and m: "preset_defaults_model S d = Inr x"
  shows "preset_defaults_ok x"
proof -
  obtain t where "opt_field (coerced (sl_float S temperature_bounds)) d ''temperature'' = Inr t" "df_temperature x = t"
    using forbid_extra_Inr [OF m [unfolded preset_defaults_model_def Let_def]]
    by (auto simp: ap_Inr_iff preset_defaults.make_def)
  moreover obtain p where "opt_field (coerced (sl_float S top_p_bounds)) d ''top_p'' = Inr p" "df_top_p x = p"
    using forbid_extra_Inr [OF m [unfolded preset_defaults_model_def Let_def]]
    by (auto simp: ap_Inr_iff preset_defaults.make_def)
  moreover obtain n where "opt_field (coerced (sl_int S (Some 1))) d ''max_sentences_per_chunk'' = Inr n" "df_max_sentences x = n"
    using forbid_extra_Inr [OF m [unfolded preset_defaults_model_def Let_def]]
    by (auto simp: ap_Inr_iff preset_defaults.make_def)
  moreover obtain r where "opt_field (coerced (sl_literal S valid_response_formats)) d ''response_format'' = Inr r" "df_response_format x = r"
    using forbid_extra_Inr [OF m [unfolded preset_defaults_model_def Let_def]]
    by (auto simp: ap_Inr_iff preset_defaults.make_def)
  ultimately show ?thesis
    using S unfolding preset_defaults_ok_def schema_law_def
    by (auto dest!: opt_field_Some simp: coerced_Inr simp del: coerced.simps) blast+
qed

lemma preset_entry_model_ok:
  assumes S: "schema_law S" and m: "preset_entry_model S d = Inr x"
  shows "preset_entry_ok x"
proof -
  obtain l de df where "req_field S (coerced (sl_str S 1)) d ''label'' = Inr l"
      "req_field S (coerced (sl_str S 1)) d ''description'' = Inr de"
      "req_field S (as_model S (preset_defaults_model S)) d ''defaults'' = Inr df"
      "x = preset_entry.make l de df"
    using forbid_extra_Inr [OF m [unfolded preset_entry_model_def]] by (auto simp: ap_Inr_iff)
  then obtain v w d' where "sl_str S 1 v = Inr l" "sl_str S 1 w = Inr de" "preset_defaults_model S d' = Inr df"
    by (auto dest!: req_field_Inr as_model_Inr simp: coerced_Inr simp del: coerced.simps)
  moreover from this S have "1 \<le> length l" "1 \<le> length de" unfolding schema_law_def by blast+
  ultimately show ?thesis
    using preset_defaults_model_ok [OF S] \<open>x = _\<close>
    by (auto simp: preset_entry_ok_def preset_entry.make_def)
qed

lemma preset_config_model_ok:
  "schema_law S \<Longrightarrow> preset_config_model S d = Inr r \<Longrightarrow> map fst r = map fst d \<and> (\<forall>(n, e)\<in>set r. preset_entry_ok e)"
proof (induction d arbitrary: r)
  case (Cons kv d)
  obtain name v where kv: "kv = (name, v)" by fastforce
  from Cons.prems(2) kv obtain e r' where
    "as_model S (preset_entry_model S) v = Inr e" "preset_config_model S d = Inr r'" "r = (name, e) # r'"
    by (auto simp: ap_Inr_iff in_field_Inr)
  with Cons kv show ?case by (auto dest!: as_model_Inr dest: preset_entry_model_ok)
qed simp

lemma load_preset_registry_ok:
  "schema_law S \<Longrightarrow> load_preset_registry S path f = Inr r \<Longrightarrow> r \<noteq> [] \<and> (\<forall>(n, e)\<in>set r. preset_entry_ok e)"
  by (auto simp: load_preset_registry_def dest: preset_config_model_ok
      split: if_splits presets_text.splits json.splits sum.splits)

lemma load_preset_registry_errors:
  "load_preset_registry S path f = Inl e \<Longrightarrow> (\<exists>m. e = PresetsInvalid m) \<or> (\<exists>x. pf_text f = ReadFails x \<and> e = Escaped x)"
  by (auto simp: load_preset_registry_def split: if_splits presets_text.splits json.splits sum.splits)

lemma validate_preset_providers_iff:
  "validate_preset_providers r allow = Inr () \<longleftrightarrow> pins_ok allow r"
  by (induction r allow rule: validate_preset_providers.induct) (auto simp: pins_ok_def split: option.splits)

lemma validate_preset_providers_errors:
  "validate_preset_providers r allow = Inl e \<Longrightarrow> \<exists>m. e = PresetProviderInvalid m"
  by (induction r allow rule: validate_preset_providers.induct) (auto split: option.splits if_splits)

lemma check_permissions_iff:
  "check_presets_file_permissions path euid f = Inr () \<longleftrightarrow> safe_permissions euid f"
  by (auto simp: check_presets_file_permissions_def safe_permissions_def split: sum.splits option.splits prod.splits)

lemma check_permissions_errors:
  "check_presets_file_permissions path euid f = Inl e \<Longrightarrow> \<exists>m. e = PresetsUnsafePermissions m"
  by (auto simp: check_presets_file_permissions_def split: sum.splits option.splits prod.splits if_splits)

lemma load_accepted:
  "accepted S s regd f = Some r \<longleftrightarrow> load_preset_registry S (tts_presets_file s) f = Inr r \<and>
     tts_default_preset s \<in> preset_names r \<and> pins_ok (allow_lists_from_settings s regd) r"
  by (auto simp: accepted_def split: sum.splits)

lemma accepted_ok: "schema_law S \<Longrightarrow> accepted S s regd f = Some r \<Longrightarrow> preset_registry_ok s regd r"
  by (auto simp: load_accepted preset_registry_ok_def dest: load_preset_registry_ok)

text \<open>A reload swaps in the version that is accepted and keeps the live registry otherwise.\<close>

lemma reload_once_live:
  "snd (reload_once S s regd f live) = (case accepted S s regd f of Some r \<Rightarrow> r | None \<Rightarrow> live)"
proof (cases "load_preset_registry S (tts_presets_file s) f")
  case (Inl e)
  then show ?thesis by (cases e) (simp_all add: reload_once_def accepted_def)
next
  case (Inr r)
  show ?thesis
  proof (cases "validate_preset_providers r (allow_lists_from_settings s regd)")
    case (Inl e)
    then have "\<not> pins_ok (allow_lists_from_settings s regd) r"
      by (simp add: validate_preset_providers_iff [symmetric])
    with Inl Inr show ?thesis by (cases e) (simp_all add: reload_once_def accepted_def)
  next
    case (Inr u)
    then have "pins_ok (allow_lists_from_settings s regd) r"
      by (simp add: validate_preset_providers_iff [symmetric])
    with Inr \<open>load_preset_registry _ _ _ = _\<close> show ?thesis by (simp add: reload_once_def accepted_def)
  qed
qed

lemma reload_once_raises:
  "fst (reload_once S s regd f live) = Inl x \<Longrightarrow> pf_text f = ReadFails x"
  by (auto simp: reload_once_def split: sum.splits presets_exc.splits if_splits
      dest: load_preset_registry_errors validate_preset_providers_errors)

interpretation presetwatch: watched "reload_once S s regd" "\<lambda>f. schema_law S" "preset_registry_ok s regd" "\<lambda>r r'. True"
  for S s regd
proof unfold_locales
  fix f live q live'
  assume "schema_law S" "preset_registry_ok s regd live" "reload_once S s regd f live = (q, live')"
  then show "preset_registry_ok s regd live' \<and> True"
    using reload_once_live [of S s regd f live] by (auto split: option.splits dest: accepted_ok)
qed auto

subsection \<open>Properties\<close>

lemma unit_sum_cases: "(x :: 'a + unit) = Inr () \<or> (\<exists>e. x = Inl e)"
  by (cases x) auto

lemma initialize_preset_registry_iff:
  "initialize_preset_registry S s regd euid f = Inr r \<longleftrightarrow>
      safe_permissions euid f \<and> load_preset_registry S (tts_presets_file s) f = Inr r \<and>
      tts_default_preset s \<in> preset_names r \<and> pins_ok (allow_lists_from_settings s regd) r"
proof (cases "load_preset_registry S (tts_presets_file s) f")
  case (Inl e)
  then show ?thesis
    using unit_sum_cases [of "check_presets_file_permissions (tts_presets_file s) euid f"]
    by (auto simp: initialize_preset_registry_def Let_def)
next
  case (Inr r')
  then show ?thesis
    using unit_sum_cases [of "check_presets_file_permissions (tts_presets_file s) euid f"]
      unit_sum_cases [of "validate_preset_providers r' (allow_lists_from_settings s regd)"]
      check_permissions_iff [of "tts_presets_file s" euid f] validate_preset_providers_iff [of r' "allow_lists_from_settings s regd"]
    by (cases "tts_default_preset s \<in> preset_names r'") (auto simp: initialize_preset_registry_def Let_def)
qed

lemma initialize_unsafe:
  assumes "\<not> safe_permissions euid f"
  shows "\<exists>m. \<forall>text. initialize_preset_registry S s regd euid (f\<lparr>pf_text := text\<rparr>) = Inl (PresetsUnsafePermissions m)"
proof -
  obtain e where e: "check_presets_file_permissions (tts_presets_file s) euid f = Inl e"
    using assms check_permissions_iff [of "tts_presets_file s" euid f]
      unit_sum_cases [of "check_presets_file_permissions (tts_presets_file s) euid f"] by auto
  then obtain m where "e = PresetsUnsafePermissions m" by (auto dest: check_permissions_errors)
  moreover have "check_presets_file_permissions (tts_presets_file s) euid (f\<lparr>pf_text := tx\<rparr>) = Inl e" for tx
    using e by (simp add: check_presets_file_permissions_def)
  ultimately show ?thesis by (auto simp: initialize_preset_registry_def Let_def)
qed

text \<open>
  C27: start-up of the presets, exactly. It succeeds with a registry if and only if the file belongs to
  the user of the service and is not world-writable, it parses to that registry, the default preset is
  in it and every pinned provider and model is allowed; then each preset has its label and description and its
  values are within their bounds (a NaN apart). Otherwise the exception tells which step failed, and
  unsafe permissions are reported whatever the file contains: it is not parsed then.
\<close>

theorem initialize_preset_registry_exact:
  assumes "schema_law S"
  shows "(initialize_preset_registry S s regd euid f = Inr r \<longleftrightarrow>
      safe_permissions euid f \<and> load_preset_registry S (tts_presets_file s) f = Inr r \<and>
      tts_default_preset s \<in> preset_names r \<and> pins_ok (allow_lists_from_settings s regd) r) \<and>
    (initialize_preset_registry S s regd euid f = Inr r \<longrightarrow> preset_registry_ok s regd r) \<and>
    (\<not> safe_permissions euid f \<longrightarrow>
      (\<exists>m. \<forall>text. initialize_preset_registry S s regd euid (f\<lparr>pf_text := text\<rparr>) = Inl (PresetsUnsafePermissions m)))"
  using initialize_preset_registry_iff [of S s regd euid f r] initialize_unsafe [of euid f S s regd]
    accepted_ok [OF assms, of s regd f r] load_accepted [of S s regd f r] by auto

text \<open>The live registry after a batch of changes.\<close>

definition live_after :: "schema_lib \<Rightarrow> settings \<Rightarrow> string list option \<Rightarrow> (string \<Rightarrow> string) \<Rightarrow>
    string list \<times> presets_file \<Rightarrow> preset_registry \<Rightarrow> preset_registry" where
  "live_after S s regd resolve b cur =
     (if \<exists>p\<in>set (fst b). resolve p = resolve (tts_presets_file s)
      then (case accepted S s regd (snd b) of Some new \<Rightarrow> new | None \<Rightarrow> cur) else cur)"

lemma preset_watch_loop:
  "\<forall>b\<in>set bs. \<forall>x. pf_text (snd b) = ReadFails x \<longrightarrow> is_exception x \<Longrightarrow>
   watch_loop resolve (resolve (tts_presets_file s)) (reload_once S s regd) bs live = (r, live', l) \<Longrightarrow>
   r = Inr () \<and> live' = fold (live_after S s regd resolve) bs live"
proof (induction bs arbitrary: live r live' l)
  case (Cons b bs)
  obtain changes f where b: "b = (changes, f)" by fastforce
  obtain q live1 where q: "reload_once S s regd f live = (q, live1)" by fastforce
  have live1: "live1 = (case accepted S s regd f of Some new \<Rightarrow> new | None \<Rightarrow> live)"
    using reload_once_live [of S s regd f live] q by simp
  have exc: "is_exception x" if "q = Inl x" for x
    using reload_once_raises [of S s regd f live x] q that Cons.prems(1) b by simp
  obtain r2 live2 l2 where rest:
    "watch_loop resolve (resolve (tts_presets_file s)) (reload_once S s regd) bs live1 = (r2, live2, l2)"
    by (metis prod.exhaust)
  note ih = Cons.IH [OF _ rest]
  show ?case
  proof (cases "\<exists>p\<in>set changes. resolve p = resolve (tts_presets_file s)")
    case True
    with Cons.prems b q rest exc ih live1 show ?thesis
      by (auto simp: live_after_def list_ex_iff split: sum.splits)
  next
    case False
    then have "watch_loop resolve (resolve (tts_presets_file s)) (reload_once S s regd) bs live = (r, live', l)"
      using Cons.prems(2) b by (auto simp: list_ex_iff split: if_splits)
    with Cons.IH [OF _ this] Cons.prems(1) False b show ?thesis by (simp add: live_after_def)
  qed
qed simp

text \<open>
  C22: the hot reload never brings a bad registry into service. Over any sequence of changes of the watched
  directory, the live registry is the last version of the file that would have been accepted at
  start-up (permissions apart), or the one from the start when none was; so it stays valid. Whatever the
  edits are, the watcher goes on, unless a read is cancelled.
\<close>

theorem preset_hot_reload_last_valid:
  assumes "schema_law S" "preset_registry_ok s regd live"
    and "\<forall>b\<in>set bs. \<forall>x. pf_text (snd b) = ReadFails x \<longrightarrow> is_exception x"
    and "preset_watch S s regd resolve bs live = (r, live', l)"
  shows "r = Inr () \<and> preset_registry_ok s regd live' \<and> live' = fold (live_after S s regd resolve) bs live"
  using presetwatch.watch_keeps [OF _ assms(2) assms(4) [unfolded preset_watch_def]]
    preset_watch_loop [OF assms(3) assms(4) [unfolded preset_watch_def watch_def option.case if_True]] assms(1)
  by simp

text \<open>A schema, a file and the instances of the two properties.\<close>

definition strict_schema :: schema_lib where
  "strict_schema = \<lparr>
     sl_str = (\<lambda>n v. case v of JStr s \<Rightarrow> if n \<le> length s then Inr s else Inl ''String is too short'' | _ \<Rightarrow> Inl ''not a string''),
     sl_bool = (\<lambda>v. case v of JBool b \<Rightarrow> Inr b | _ \<Rightarrow> Inl ''not a boolean''),
     sl_float = (\<lambda>b v. case v of JFloat f \<Rightarrow> if in_bounds b f then Inr f else Inl ''out of range'' | _ \<Rightarrow> Inl ''not a number''),
     sl_int = (\<lambda>k v. case v of JInt i \<Rightarrow> if (\<forall>n. k = Some n \<longrightarrow> n \<le> i) then Inr i else Inl ''too small'' | _ \<Rightarrow> Inl ''not an integer''),
     sl_literal = (\<lambda>ls v. case v of JStr s \<Rightarrow> if s \<in> set ls then Inr s else Inl ''not a choice'' | _ \<Rightarrow> Inl ''not a choice''),
     sl_missing = ''Field required'', sl_extra = ''Extra inputs are not permitted'', sl_model_type = ''not an object''\<rparr>"

lemma strict_schema_law: "schema_law strict_schema"
  by (auto simp: schema_law_def strict_schema_def split: json.splits if_splits)

definition sample_presets :: "pyfloat \<Rightarrow> presets_file" where
  "sample_presets t = \<lparr>pf_exists = True, pf_is_file = True,
     pf_text = JsonText (JObj [(''balanced'', JObj [(''label'', JStr ''B''), (''description'', JStr ''d''),
       (''defaults'', JObj [(''temperature'', JFloat t)])])]),
     pf_stat = Inr (1000, 420)\<rparr>"

definition sample_entry :: "pyfloat \<Rightarrow> preset_entry" where
  "sample_entry t = \<lparr>pe_label = ''B'', pe_description = ''d'', pe_defaults = \<lparr>df_provider = None, df_model = None,
     df_temperature = Some t, df_top_p = None, df_max_sentences = None, df_normalize_db = None,
     df_response_format = None, df_postprocess = None, df_language = None, df_number_lang = None, df_voice = None\<rparr>\<rparr>"

lemmas preset_model_defs = preset_entry_model_def preset_defaults_model_def preset_entry.make_def preset_defaults.make_def
  req_field_def opt_field_def as_model_def forbid_extra_def in_field_def Let_def located_def

lemma sample_load:
  "load_preset_registry strict_schema p (sample_presets t) =
     (if in_bounds temperature_bounds t then Inr [(''balanced'', sample_entry t)]
      else Inl (PresetsInvalid ''presets.balanced.defaults.temperature: out of range''))"
  by (simp add: load_preset_registry_def sample_presets_def sample_entry_def preset_model_defs strict_schema_def
      format_validation_error_def)

lemma default_settings_sel [simp]:
  "tts_default_preset default_settings = ''balanced''" "tts_presets_file default_settings = ''config/presets.json''"
  by (simp_all add: default_settings_def)

lemma sample_presets_safe: "safe_permissions (Some 1000) (sample_presets t)"
  by (simp add: safe_permissions_def sample_presets_def world_writable_def bit_iff_odd)

lemma sample_entry_sel [simp]:
  "df_provider (pe_defaults (sample_entry t)) = None" "df_temperature (pe_defaults (sample_entry t)) = Some t"
  by (simp_all add: sample_entry_def)

lemma sample_bounds [simp]: "in_bounds temperature_bounds (Fin q) \<longleftrightarrow> 0 \<le> q \<and> q \<le> 2"
  by (simp add: in_bounds_def temperature_bounds_def)

theorem initialize_preset_registry_exact_witness:
  "initialize_preset_registry strict_schema default_settings None (Some 1000) (sample_presets (Fin 1)) =
     Inr [(''balanced'', sample_entry (Fin 1))] \<and>
   preset_registry_ok default_settings None [(''balanced'', sample_entry (Fin 1))]"
proof -
  let ?r = "[(''balanced'', sample_entry (Fin 1))]"
  have "load_preset_registry strict_schema (tts_presets_file default_settings) (sample_presets (Fin 1)) = Inr ?r"
    by (simp add: sample_load)
  moreover have "tts_default_preset default_settings \<in> preset_names ?r" by (simp add: preset_names_def)
  moreover have "pins_ok (allow_lists_from_settings default_settings None) ?r" by (simp add: pins_ok_def)
  ultimately show ?thesis
    using initialize_preset_registry_exact [OF strict_schema_law, where s = default_settings and regd = None and
      euid = "Some 1000" and f = "sample_presets (Fin 1)" and r = ?r] sample_presets_safe by blast
qed

theorem preset_hot_reload_last_valid_witness:
  "let live = [(''balanced'', sample_entry (Fin 1))];
       run = preset_watch strict_schema default_settings None id
         [([''config/presets.json''], sample_presets (Fin 3)), ([''config/other''], sample_presets (Fin 0))] live
   in fst run = Inr () \<and> fst (snd run) = live"
proof -
  let ?live = "[(''balanced'', sample_entry (Fin 1))]"
  let ?bs = "[([''config/presets.json''], sample_presets (Fin 3)), ([''config/other''], sample_presets (Fin 0))]"
  obtain r live' l where run: "preset_watch strict_schema default_settings None id ?bs ?live = (r, live', l)"
    by (metis prod.exhaust)
  have ok: "preset_registry_ok default_settings None ?live"
    by (simp add: preset_registry_ok_def preset_names_def pins_ok_def preset_entry_ok_def preset_defaults_ok_def)
      (simp add: sample_entry_def)
  have "\<forall>b\<in>set ?bs. \<forall>x. pf_text (snd b) = ReadFails x \<longrightarrow> is_exception x"
    by (simp add: sample_presets_def)
  from preset_hot_reload_last_valid [OF strict_schema_law ok this run] run show ?thesis
    by (simp add: live_after_def accepted_def sample_load)
qed

end
