(* ===== verification/Admission.thy ===== *)
theory Admission
  imports Prelude
begin

text \<open>
  Admission and concurrency of the synthesis requests: the queue semaphore, the concurrency semaphore and
  the lock per (provider, model), as \<open>_run_synthesis\<close> and \<open>_stream_synthesis_chunks\<close> of
  \<open>synthesize_service.py\<close> take and release them. The requests run as tasks of one event loop, so what lies
  between two suspension points is one step of \<open>adm_step\<close>; which waiting task goes next is left open
  (asyncio serves in order of arrival, one of the choices here).
\<close>

subsection \<open>State\<close>

type_synonym model_key = "string \<times> string"

text \<open>
  Where a request is. \<open>Prepared\<close>: a streaming request has its queue permit and its response is built, the
  generator is not started. \<open>Queued\<close>: it waits for the concurrency semaphore, \<open>Active\<close>: for
  the lock of its model, \<open>Running\<close>: it has both and so many chunks to go. \<open>Abandoned\<close>: the
  connection ended before the generator was started, so its \<open>finally\<close> never runs.
\<close>

datatype phase =
    Idle
  | Refused
  | Prepared model_key nat
  | Queued model_key nat
  | Active model_key nat
  | Running model_key nat
  | Finished
  | Abandoned

record admission =
  queue_free :: nat
  concur_free :: nat
  lock_owner :: "model_key \<Rightarrow> nat option"
  phases :: "nat \<Rightarrow> phase"

definition new_admission :: "nat \<Rightarrow> nat \<Rightarrow> admission" where
  "new_admission max_queue max_concur =
     \<lparr>queue_free = max_queue, concur_free = max_concur, lock_owner = (\<lambda>_. None), phases = (\<lambda>_. Idle)\<rparr>"

definition goto :: "nat \<Rightarrow> phase \<Rightarrow> admission \<Rightarrow> admission" where
  "goto t p s = s\<lparr>phases := (phases s)(t := p)\<rparr>"

text \<open>The \<open>finally\<close> and \<open>async with\<close> exits, from the inside out.\<close>

definition release_queue :: "admission \<Rightarrow> admission" where
  "release_queue s = s\<lparr>queue_free := queue_free s + 1\<rparr>"

definition release_concur :: "admission \<Rightarrow> admission" where
  "release_concur s = s\<lparr>concur_free := concur_free s + 1\<rparr>"

definition release_lock :: "model_key \<Rightarrow> admission \<Rightarrow> admission" where
  "release_lock k s = s\<lparr>lock_owner := (lock_owner s)(k := None)\<rparr>"

subsection \<open>Steps\<close>

text \<open>Steps that bring a request forward.\<close>

inductive adm_progress :: "admission \<Rightarrow> admission \<Rightarrow> bool" where
  start: "phases s t = Prepared k n \<Longrightarrow> adm_progress s (goto t (Queued k n) s)"
| enter: "phases s t = Queued k n \<Longrightarrow> 0 < concur_free s \<Longrightarrow>
    adm_progress s (goto t (Active k n) (s\<lparr>concur_free := concur_free s - 1\<rparr>))"
| lock: "phases s t = Active k n \<Longrightarrow> lock_owner s k = None \<Longrightarrow>
    adm_progress s (goto t (Running k n) (s\<lparr>lock_owner := (lock_owner s)(k := Some t)\<rparr>))"
| chunk: "phases s t = Running k (Suc n) \<Longrightarrow> adm_progress s (goto t (Running k n) s)"
| finish: "phases s t = Running k 0 \<Longrightarrow>
    adm_progress s (goto t Finished (release_queue (release_concur (release_lock k s))))"

text \<open>
  Arrivals, refusals, failures (an exception, a cancellation, a disconnect at any suspension point) and the
  stream that is never started. \<open>Semaphore.locked()\<close> is \<open>queue_free = 0\<close>: no task ever waits for
  the queue semaphore, because there is no suspension between the test and the acquisition.
\<close>

inductive adm_step :: "admission \<Rightarrow> admission \<Rightarrow> bool" where
  progress: "adm_progress s s' \<Longrightarrow> adm_step s s'"
| refuse: "phases s t = Idle \<Longrightarrow> queue_free s = 0 \<Longrightarrow> adm_step s (goto t Refused s)"
| admit: "phases s t = Idle \<Longrightarrow> 0 < queue_free s \<Longrightarrow>
    adm_step s (goto t (Queued k n) (s\<lparr>queue_free := queue_free s - 1\<rparr>))"
| admit_stream: "phases s t = Idle \<Longrightarrow> 0 < queue_free s \<Longrightarrow>
    adm_step s (goto t (Prepared k n) (s\<lparr>queue_free := queue_free s - 1\<rparr>))"
| fail_queued: "phases s t = Queued k n \<Longrightarrow> adm_step s (goto t Finished (release_queue s))"
| fail_active: "phases s t = Active k n \<Longrightarrow> adm_step s (goto t Finished (release_queue (release_concur s)))"
| fail_running: "phases s t = Running k n \<Longrightarrow>
    adm_step s (goto t Finished (release_queue (release_concur (release_lock k s))))"
| abandon: "phases s t = Prepared k n \<Longrightarrow> adm_step s (goto t Abandoned s)"
| again: "phases s t = Finished \<or> phases s t = Refused \<Longrightarrow> adm_step s (goto t Idle s)"

inductive adm_reachable :: "nat \<Rightarrow> nat \<Rightarrow> admission \<Rightarrow> bool" for max_queue max_concur where
  init: "adm_reachable max_queue max_concur (new_admission max_queue max_concur)"
| step: "adm_reachable max_queue max_concur s \<Longrightarrow> adm_step s s' \<Longrightarrow> adm_reachable max_queue max_concur s'"

inductive_cases adm_stepE: "adm_step s s'"
inductive_cases adm_progressE: "adm_progress s s'"

subsection \<open>The invariant\<close>

fun has_queue :: "phase \<Rightarrow> bool" where
  "has_queue (Prepared _ _) = True"
| "has_queue (Queued _ _) = True"
| "has_queue (Active _ _) = True"
| "has_queue (Running _ _) = True"
| "has_queue Abandoned = True"
| "has_queue _ = False"

fun has_concur :: "phase \<Rightarrow> bool" where
  "has_concur (Active _ _) = True"
| "has_concur (Running _ _) = True"
| "has_concur _ = False"

fun runs_on :: "model_key \<Rightarrow> phase \<Rightarrow> bool" where
  "runs_on k (Running k' _) = (k = k')"
| "runs_on k _ = False"

definition queue_holders :: "admission \<Rightarrow> nat set" where
  "queue_holders s = {t. has_queue (phases s t)}"

definition concur_holders :: "admission \<Rightarrow> nat set" where
  "concur_holders s = {t. has_concur (phases s t)}"

definition adm_inv :: "nat \<Rightarrow> nat \<Rightarrow> admission \<Rightarrow> bool" where
  "adm_inv max_queue max_concur s \<longleftrightarrow>
     finite (queue_holders s) \<and> queue_free s + card (queue_holders s) = max_queue \<and>
     concur_free s + card (concur_holders s) = max_concur \<and>
     (\<forall>k t. lock_owner s k = Some t \<longleftrightarrow> runs_on k (phases s t))"

lemma concur_subset: "concur_holders s \<subseteq> queue_holders s"
proof
  fix t assume "t \<in> concur_holders s"
  then show "t \<in> queue_holders s" by (cases "phases s t") (auto simp: concur_holders_def queue_holders_def)
qed

lemma goto_sel [simp]:
  "phases (goto t p s) = (phases s)(t := p)" "queue_free (goto t p s) = queue_free s"
  "concur_free (goto t p s) = concur_free s" "lock_owner (goto t p s) = lock_owner s"
  by (simp_all add: goto_def)

lemma release_sel [simp]:
  "phases (release_queue s) = phases s" "queue_free (release_queue s) = queue_free s + 1"
  "concur_free (release_queue s) = concur_free s" "lock_owner (release_queue s) = lock_owner s"
  "phases (release_concur s) = phases s" "queue_free (release_concur s) = queue_free s"
  "concur_free (release_concur s) = concur_free s + 1" "lock_owner (release_concur s) = lock_owner s"
  "phases (release_lock k s) = phases s" "queue_free (release_lock k s) = queue_free s"
  "concur_free (release_lock k s) = concur_free s" "lock_owner (release_lock k s) = (lock_owner s)(k := None)"
  by (simp_all add: release_queue_def release_concur_def release_lock_def)

text \<open>A permit that one task takes or gives back: the count of the holders follows.\<close>

lemma holders_upd:
  "{t'. P (((f :: nat \<Rightarrow> phase)(t := p)) t')} = (if P p then insert t {t'. P (f t')} else {t'. P (f t')} - {t})"
  by auto

lemma card_upd:
  assumes "finite {t'. P (f t')}"
  shows "card {t'. P (((f :: nat \<Rightarrow> phase)(t := p)) t')} + (if P (f t) then 1 else 0) =
    card {t'. P (f t')} + (if P p then 1 else 0)"
  using assms card_Suc_Diff1 [of "{t'. P (f t')}" t]
  by (auto simp: holders_upd insert_absorb card_insert_if simp del: card_Suc_Diff1 fun_upd_apply)

lemma adm_inv_goto:
  assumes inv: "adm_inv mq mc s"
    and s': "phases s' = (phases s)(t := p)"
    and q: "queue_free s' + (if has_queue p then 1 else 0) = queue_free s + (if has_queue (phases s t) then 1 else 0)"
    and c: "concur_free s' + (if has_concur p then 1 else 0) = concur_free s + (if has_concur (phases s t) then 1 else 0)"
    and l: "\<And>k u. lock_owner s' k = Some u \<longleftrightarrow> runs_on k (((phases s)(t := p)) u)"
  shows "adm_inv mq mc s'"
proof -
  have fq: "finite {u. has_queue (phases s u)}" using inv by (simp add: adm_inv_def queue_holders_def)
  moreover have "{u. has_concur (phases s u)} \<subseteq> {u. has_queue (phases s u)}"
    using concur_subset [of s] by (simp add: queue_holders_def concur_holders_def)
  ultimately have fc: "finite {u. has_concur (phases s u)}" by (rule rev_finite_subset)
  have "finite {u. has_queue (((phases s)(t := p)) u)}" using fq by (simp add: holders_upd del: fun_upd_apply)
  moreover have "queue_free s' + card {u. has_queue (((phases s)(t := p)) u)} = mq"
    using card_upd [OF fq, of t p] q inv by (simp add: adm_inv_def queue_holders_def del: fun_upd_apply split: if_splits)
  moreover have "concur_free s' + card {u. has_concur (((phases s)(t := p)) u)} = mc"
    using card_upd [OF fc, of t p] c inv by (simp add: adm_inv_def concur_holders_def del: fun_upd_apply split: if_splits)
  ultimately show ?thesis using l by (simp add: adm_inv_def queue_holders_def concur_holders_def s' del: fun_upd_apply)
qed

lemma lock_owner_iff: "adm_inv mq mc s \<Longrightarrow> lock_owner s k = Some t \<longleftrightarrow> runs_on k (phases s t)"
  unfolding adm_inv_def by blast

lemma adm_inv_simple:
  assumes inv: "adm_inv mq mc s" and "\<forall>k. \<not> runs_on k (phases s t)" "\<forall>k. \<not> runs_on k p"
    and "lock_owner s' = lock_owner s" "phases s' = (phases s)(t := p)"
    and "queue_free s' + (if has_queue p then 1 else 0) = queue_free s + (if has_queue (phases s t) then 1 else 0)"
    and "concur_free s' + (if has_concur p then 1 else 0) = concur_free s + (if has_concur (phases s t) then 1 else 0)"
  shows "adm_inv mq mc s'"
  using assms lock_owner_iff [OF inv] by (intro adm_inv_goto [OF inv, where t = t and p = p]) auto

lemma adm_inv_unlock:
  assumes inv: "adm_inv mq mc s" and "phases s t = Running k n"
  shows "adm_inv mq mc (goto t Finished (release_queue (release_concur (release_lock k s))))"
proof (rule adm_inv_goto [OF inv, where t = t and p = Finished])
  fix k' u
  show "lock_owner (goto t Finished (release_queue (release_concur (release_lock k s)))) k' = Some u \<longleftrightarrow>
      runs_on k' (((phases s)(t := Finished)) u)"
    using assms(2) lock_owner_iff [OF inv, of k' u] lock_owner_iff [OF inv, of k' t] by auto
qed (use assms in auto)

lemma adm_progress_inv:
  assumes "adm_progress s s'" "adm_inv mq mc s"
  shows "adm_inv mq mc s'"
  using assms(1)
proof cases
  case (lock t k n)
  note li = lock_owner_iff [OF assms(2)]
  show ?thesis
  proof (rule adm_inv_goto [OF assms(2), where t = t and p = "Running k n"])
    fix k' u
    show "lock_owner s' k' = Some u \<longleftrightarrow> runs_on k' (((phases s)(t := Running k n)) u)"
      using lock li [of k' u] li [of k' t] by auto
  qed (use lock in auto)
next
  case (chunk t k n)
  note li = lock_owner_iff [OF assms(2)]
  show ?thesis
  proof (rule adm_inv_goto [OF assms(2), where t = t and p = "Running k n"])
    fix k' u
    show "lock_owner s' k' = Some u \<longleftrightarrow> runs_on k' (((phases s)(t := Running k n)) u)"
      using chunk li [of k' u] li [of k' t] by auto
  qed (use chunk in auto)
next
  case (finish t k)
  then show ?thesis by (simp add: adm_inv_unlock [OF assms(2)])
next
  case (start t k n)
  then show ?thesis by (intro adm_inv_simple [OF assms(2), where t = t and p = "Queued k n"]) auto
next
  case (enter t k n)
  then show ?thesis by (intro adm_inv_simple [OF assms(2), where t = t and p = "Active k n"]) auto
qed

lemma adm_step_inv:
  assumes "adm_step s s'" "adm_inv mq mc s"
  shows "adm_inv mq mc s'"
  using assms(1)
proof cases
  case progress
  then show ?thesis using adm_progress_inv assms(2) by blast
next
  case (refuse t)
  then show ?thesis by (intro adm_inv_simple [OF assms(2), where t = t and p = Refused]) auto
next
  case (admit t k n)
  then show ?thesis by (intro adm_inv_simple [OF assms(2), where t = t and p = "Queued k n"]) auto
next
  case (admit_stream t k n)
  then show ?thesis by (intro adm_inv_simple [OF assms(2), where t = t and p = "Prepared k n"]) auto
next
  case (fail_queued t k n)
  then show ?thesis by (intro adm_inv_simple [OF assms(2), where t = t and p = Finished]) auto
next
  case (fail_active t k n)
  then show ?thesis by (intro adm_inv_simple [OF assms(2), where t = t and p = Finished]) auto
next
  case (fail_running t k n)
  then show ?thesis by (simp add: adm_inv_unlock [OF assms(2)])
next
  case (abandon t k n)
  then show ?thesis by (intro adm_inv_simple [OF assms(2), where t = t and p = Abandoned]) auto
next
  case (again t)
  then show ?thesis by (intro adm_inv_simple [OF assms(2), where t = t and p = Idle]) auto
qed

lemma adm_reachable_inv: "adm_reachable mq mc s \<Longrightarrow> adm_inv mq mc s"
proof (induction rule: adm_reachable.induct)
  case init
  then show ?case by (simp add: adm_inv_def new_admission_def queue_holders_def concur_holders_def)
next
  case (step s s')
  then show ?case using adm_step_inv by blast
qed

subsection \<open>Safety\<close>

text \<open>
  C3: the permits are conserved and the limits hold, under every interleaving, failure and cancellation:
  at most \<open>TTS_MAX_CONCURRENT_REQUESTS\<close> requests are past the concurrency semaphore, at most one runs on each
  (provider, model), every permit that is not free is held by one request, and a request is refused only
  when \<open>TTS_MAX_QUEUE_DEPTH\<close> others hold a queue permit.
\<close>

theorem admission_limits:
  assumes "adm_reachable max_queue max_concur s"
  shows "card (concur_holders s) \<le> max_concur \<and> card (queue_holders s) \<le> max_queue \<and>
    queue_free s = max_queue - card (queue_holders s) \<and> concur_free s = max_concur - card (concur_holders s) \<and>
    (\<forall>t u k. runs_on k (phases s t) \<and> runs_on k (phases s u) \<longrightarrow> t = u) \<and>
    (\<forall>s' t. adm_step s s' \<and> phases s t \<noteq> Refused \<and> phases s' t = Refused \<longrightarrow> card (queue_holders s) = max_queue)"
proof -
  have inv: "adm_inv max_queue max_concur s" using assms by (rule adm_reachable_inv)
  have excl: "t = u" if "runs_on k (phases s t)" "runs_on k (phases s u)" for t u k
    using lock_owner_iff [OF inv] that by (metis option.inject)
  have "card (queue_holders s) = max_queue"
    if "adm_step s s'" "phases s t \<noteq> Refused" "phases s' t = Refused" for s' t
  proof -
    from that have "queue_free s = 0"
      by cases (auto elim!: adm_progressE split: if_splits)
    with inv show ?thesis by (simp add: adm_inv_def)
  qed
  with inv excl show ?thesis unfolding adm_inv_def by auto
qed

definition two_tasks :: admission where
  "two_tasks = goto 2 (Queued (''p'', ''m'') 1) (goto 1 (Queued (''p'', ''m'') 1)
     \<lparr>queue_free = 0, concur_free = 1, lock_owner = (\<lambda>_. None), phases = (\<lambda>_. Idle)\<rparr>)"

lemma two_tasks_reachable: "adm_reachable 2 1 two_tasks"
proof -
  let ?k = "(''p'', ''m'')"
  let ?s1 = "goto 1 (Queued ?k 1) ((new_admission 2 1)\<lparr>queue_free := queue_free (new_admission 2 1) - 1\<rparr>)"
  have "adm_reachable 2 1 ?s1"
    by (rule adm_reachable.step [OF adm_reachable.init adm_step.admit]) (simp_all add: new_admission_def)
  moreover have "adm_step ?s1 (goto 2 (Queued ?k 1) (?s1\<lparr>queue_free := queue_free ?s1 - 1\<rparr>))"
    by (rule adm_step.admit) (simp_all add: new_admission_def)
  moreover have "goto 2 (Queued ?k 1) (?s1\<lparr>queue_free := queue_free ?s1 - 1\<rparr>) = two_tasks"
    by (simp add: two_tasks_def new_admission_def goto_def)
  ultimately show ?thesis by (metis adm_reachable.step)
qed

theorem admission_limits_witness:
  "card (queue_holders two_tasks) \<le> 2 \<and> queue_free two_tasks = 2 - card (queue_holders two_tasks)"
  using admission_limits [OF two_tasks_reachable] by blast

subsection \<open>Liveness\<close>

fun weight :: "phase \<Rightarrow> nat" where
  "weight (Prepared _ n) = n + 4"
| "weight (Queued _ n) = n + 3"
| "weight (Active _ n) = n + 2"
| "weight (Running _ n) = n + 1"
| "weight _ = 0"

text \<open>The work left in a state: an upper bound of the number of steps until every request is done.\<close>

definition work :: "admission \<Rightarrow> nat" where
  "work s = sum (\<lambda>t. weight (phases s t)) (queue_holders s)"

definition drained :: "nat \<Rightarrow> nat \<Rightarrow> nat \<Rightarrow> admission \<Rightarrow> bool" where
  "drained max_queue max_concur lost s \<longleftrightarrow> (\<forall>t. weight (phases s t) = 0) \<and>
     queue_free s = max_queue - lost \<and> concur_free s = max_concur \<and> (\<forall>k. lock_owner s k = None)"

definition abandoned :: "admission \<Rightarrow> nat set" where
  "abandoned s = {t. phases s t = Abandoned}"

lemma weight_zero: "\<not> has_queue p \<Longrightarrow> weight p = 0"
  by (cases p) auto

lemma work_upd:
  assumes "finite {u. has_queue (f u)}"
  shows "sum (\<lambda>u. weight ((f(t := p)) u)) {u. has_queue ((f(t := p)) u)} + weight (f t) =
    sum (\<lambda>u. weight (f u)) {u. has_queue (f u)} + weight p"
proof -
  let ?A = "insert t {u. has_queue (f u)}"
  have fin: "finite ?A" using assms by simp
  have "sum (\<lambda>u. weight ((f(t := p)) u)) {u. has_queue ((f(t := p)) u)} = sum (\<lambda>u. weight ((f(t := p)) u)) ?A"
    by (rule sum.mono_neutral_left [OF fin]) (auto simp: weight_zero)
  also have "\<dots> = weight p + sum (\<lambda>u. weight (f u)) (?A - {t})"
    using sum.remove [OF fin, of t "\<lambda>u. weight ((f(t := p)) u)"] by simp
  finally have 1: "sum (\<lambda>u. weight ((f(t := p)) u)) {u. has_queue ((f(t := p)) u)} =
      weight p + sum (\<lambda>u. weight (f u)) (?A - {t})" .
  have "sum (\<lambda>u. weight (f u)) {u. has_queue (f u)} = sum (\<lambda>u. weight (f u)) ?A"
    by (rule sum.mono_neutral_left [OF fin]) (auto simp: weight_zero)
  also have "\<dots> = weight (f t) + sum (\<lambda>u. weight (f u)) (?A - {t})"
    using sum.remove [OF fin, of t] by simp
  finally show ?thesis using 1 by simp
qed

lemma work_goto:
  assumes "adm_inv mq mc s" "phases s' = (phases s)(t := p)" "weight p < weight (phases s t)"
  shows "work s' < work s"
proof -
  have fin: "finite {u. has_queue (phases s u)}" using assms(1) by (simp add: adm_inv_def queue_holders_def)
  from work_upd [OF fin, of t p] assms(2,3) show ?thesis
    by (simp add: work_def queue_holders_def del: fun_upd_apply)
qed

lemma adm_progress_work:
  assumes "adm_progress s s'" "adm_inv mq mc s"
  shows "work s' < work s"
  using assms(1)
proof cases
  case (start t k n)
  then show ?thesis by (intro work_goto [OF assms(2), where t = t and p = "Queued k n"]) auto
next
  case (enter t k n)
  then show ?thesis by (intro work_goto [OF assms(2), where t = t and p = "Active k n"]) auto
next
  case (lock t k n)
  then show ?thesis by (intro work_goto [OF assms(2), where t = t and p = "Running k n"]) auto
next
  case (chunk t k n)
  then show ?thesis by (intro work_goto [OF assms(2), where t = t and p = "Running k n"]) auto
next
  case (finish t k)
  then show ?thesis by (intro work_goto [OF assms(2), where t = t and p = Finished]) auto
qed

text \<open>No deadlock: the concurrency semaphore is taken before the lock, and the lock is never held outside \<open>Running\<close>.\<close>

lemma adm_progress_possible:
  assumes inv: "adm_inv mq mc s" and mc: "0 < mc" and busy: "weight (phases s t) \<noteq> 0"
  shows "\<exists>s'. adm_progress s s'"
proof (cases "\<exists>u k n. phases s u = Running k n")
  case True
  then obtain u k n where "phases s u = Running k n" by blast
  then show ?thesis by (cases n) (auto intro: adm_progress.intros)
next
  case no_run: False
  then have "\<not> runs_on k (phases s u)" for k u by (cases "phases s u") auto
  then have free: "lock_owner s k = None" for k using lock_owner_iff [OF inv, of k] by (cases "lock_owner s k") auto
  show ?thesis
  proof (cases "\<exists>u k n. phases s u = Active k n")
    case True
    then obtain u k n where "phases s u = Active k n" by blast
    then show ?thesis using free [of k] by (blast intro: adm_progress.lock)
  next
    case no_active: False
    with no_run have "\<not> has_concur (phases s u)" for u by (cases "phases s u") auto
    then have "concur_holders s = {}" by (simp add: concur_holders_def)
    then have "0 < concur_free s" using inv mc by (simp add: adm_inv_def)
    with busy no_run no_active show ?thesis
      by (cases "phases s t") (auto intro: adm_progress.start adm_progress.enter)
  qed
qed

lemma adm_progress_abandoned: "adm_progress s s' \<Longrightarrow> abandoned s' = abandoned s"
  by (auto simp: abandoned_def elim!: adm_progressE split: if_splits)

lemma adm_progresses:
  assumes "adm_progress\<^sup>*\<^sup>* s s'" "adm_inv mq mc s"
  shows "adm_inv mq mc s' \<and> abandoned s' = abandoned s"
  using assms by (induction rule: rtranclp_induct) (auto dest: adm_progress_inv adm_progress_abandoned)

lemma stuck_drained:
  assumes inv: "adm_inv mq mc s" and mc: "0 < mc" and stuck: "\<nexists>s'. adm_progress s s'"
  shows "drained mq mc (card (abandoned s)) s"
proof -
  have w: "weight (phases s t) = 0" for t using adm_progress_possible [OF inv mc] stuck by blast
  have "has_queue (phases s t) \<longleftrightarrow> phases s t = Abandoned" for t using w [of t] by (cases "phases s t") auto
  then have "queue_holders s = abandoned s" by (simp add: queue_holders_def abandoned_def)
  moreover have "\<not> has_concur (phases s t)" for t using w [of t] by (cases "phases s t") auto
  then have "concur_holders s = {}" by (simp add: concur_holders_def)
  moreover have "lock_owner s k = None" for k
  proof (cases "lock_owner s k")
    case (Some t)
    then have "runs_on k (phases s t)" using lock_owner_iff [OF inv] by blast
    with w [of t] show ?thesis by (cases "phases s t") auto
  qed
  ultimately show ?thesis using inv w by (auto simp: drained_def adm_inv_def)
qed

lemma progress_run_bound:
  "adm_inv mq mc (f 0) \<Longrightarrow> \<forall>i<n. adm_progress (f i) (f (Suc i)) \<Longrightarrow> work (f n) + n \<le> work (f 0) \<and> adm_inv mq mc (f n)"
  by (induction n) (auto dest: adm_progress_work adm_progress_inv intro: order_trans, fastforce dest: adm_progress_work)

lemma drains_somehow:
  assumes "adm_inv mq mc s" "0 < mc"
  shows "\<exists>s'. adm_progress\<^sup>*\<^sup>* s s' \<and> (\<nexists>s''. adm_progress s' s'')"
  using assms
proof (induction "work s" arbitrary: s rule: less_induct)
  case less
  show ?case
  proof (cases "\<exists>s1. adm_progress s s1")
    case True
    then obtain s1 where s1: "adm_progress s s1" by blast
    from less.hyps [OF adm_progress_work [OF s1 less.prems(1)] adm_progress_inv [OF s1 less.prems(1)] less.prems(2)]
    show ?thesis using s1 by (meson converse_rtranclp_into_rtranclp)
  qed auto
qed

text \<open>
  C21: no deadlock and no lost permit among the requests that are served. From every reachable state, letting
  the requests go on ends after at most \<open>work s\<close> steps, in whatever order they are scheduled, and where it ends
  every request is done, every lock is free and every permit is back, except those of the streams that were
  never started.
\<close>

theorem admitted_requests_drain:
  assumes "adm_reachable max_queue max_concur s" "0 < max_concur"
  shows "(\<exists>s'. adm_progress\<^sup>*\<^sup>* s s' \<and> drained max_queue max_concur (card (abandoned s)) s') \<and>
    (\<forall>s'. adm_progress\<^sup>*\<^sup>* s s' \<and> (\<nexists>s''. adm_progress s' s'') \<longrightarrow> drained max_queue max_concur (card (abandoned s)) s') \<and>
    (\<forall>f n. f 0 = s \<and> (\<forall>i<n. adm_progress (f i) (f (Suc i))) \<longrightarrow> n \<le> work s)"
proof -
  have inv: "adm_inv max_queue max_concur s" using assms(1) by (rule adm_reachable_inv)
  have d: "drained max_queue max_concur (card (abandoned s)) s'"
    if "adm_progress\<^sup>*\<^sup>* s s'" "\<nexists>s''. adm_progress s' s''" for s'
    using adm_progresses [OF that(1) inv] stuck_drained [OF _ assms(2) that(2)] by metis
  moreover have "n \<le> work s" if "f 0 = s" "\<forall>i<n. adm_progress (f i) (f (Suc i))" for f n
    using progress_run_bound [of max_queue max_concur f n] that inv by simp
  ultimately show ?thesis using drains_somehow [OF inv assms(2)] by blast
qed

theorem admitted_requests_drain_witness:
  "\<exists>s'. adm_progress\<^sup>*\<^sup>* two_tasks s' \<and> drained 2 1 0 s'"
proof -
  have "abandoned two_tasks = {}" by (auto simp: abandoned_def two_tasks_def)
  then show ?thesis using admitted_requests_drain [OF two_tasks_reachable] by simp
qed

subsection \<open>Streams that are never started\<close>

lemma adm_step_abandoned: "adm_step s s' \<Longrightarrow> abandoned s \<subseteq> abandoned s'"
proof (induction rule: adm_step.cases)
  case progress
  then show ?case using adm_progress_abandoned by blast
qed (auto simp: abandoned_def split: if_splits)

lemma adm_steps_abandoned: "adm_step\<^sup>*\<^sup>* s s' \<Longrightarrow> abandoned s \<subseteq> abandoned s'"
  by (induction rule: rtranclp_induct) (use adm_step_abandoned in blast)+

definition all_abandoned :: "nat \<Rightarrow> nat \<Rightarrow> nat \<Rightarrow> admission" where
  "all_abandoned mq mc n = \<lparr>queue_free = mq - n, concur_free = mc, lock_owner = (\<lambda>_. None),
     phases = (\<lambda>t. if t < n then Abandoned else Idle)\<rparr>"

lemma all_abandoned_reachable: "n \<le> mq \<Longrightarrow> adm_reachable mq mc (all_abandoned mq mc n)"
proof (induction n)
  case 0
  then show ?case using adm_reachable.init [of mq mc] by (simp add: all_abandoned_def new_admission_def)
next
  case (Suc n)
  let ?k = "([], [])"
  let ?s = "all_abandoned mq mc n"
  let ?s1 = "goto n (Prepared ?k 0) (?s\<lparr>queue_free := queue_free ?s - 1\<rparr>)"
  have "adm_step ?s ?s1" using Suc.prems by (intro adm_step.admit_stream) (auto simp: all_abandoned_def)
  moreover have "adm_step ?s1 (goto n Abandoned ?s1)" by (rule adm_step.abandon) simp
  moreover have "goto n Abandoned ?s1 = all_abandoned mq mc (Suc n)"
    by (auto simp: goto_def all_abandoned_def fun_eq_iff)
  ultimately show ?case using Suc by (metis Suc_leD adm_reachable.step)
qed

text \<open>
  A streaming request whose generator is never started leaks its permit for good. After as many of them
  as the queue is deep the service refuses every request from then on, whatever happens: no request ever
  gets a permit again, although none is being served.
\<close>

theorem abandoned_streams_block_service:
  "\<exists>s. adm_reachable max_queue max_concur s \<and> drained max_queue max_concur max_queue s \<and>
    (\<forall>s'. adm_step\<^sup>*\<^sup>* s s' \<longrightarrow> queue_free s' = 0 \<and> (\<forall>t. phases s' t \<in> {Idle, Refused, Finished, Abandoned}))"
proof -
  let ?s = "all_abandoned max_queue max_concur max_queue"
  have ab: "abandoned ?s = {..<max_queue}" by (auto simp: abandoned_def all_abandoned_def)
  have reach: "adm_reachable max_queue max_concur ?s" by (rule all_abandoned_reachable) simp
  have "queue_free s' = 0 \<and> (\<forall>t. phases s' t \<in> {Idle, Refused, Finished, Abandoned})" if "adm_step\<^sup>*\<^sup>* ?s s'" for s'
  proof -
    have "adm_reachable max_queue max_concur s'"
      using that reach by (induction rule: rtranclp_induct) (auto intro: adm_reachable.step)
    then have inv: "adm_inv max_queue max_concur s'" by (rule adm_reachable_inv)
    have sub: "{..<max_queue} \<subseteq> abandoned s'" using adm_steps_abandoned [OF that] ab by simp
    have sub2: "abandoned s' \<subseteq> queue_holders s'" by (auto simp: abandoned_def queue_holders_def)
    have fin: "finite (queue_holders s')" and q: "queue_free s' + card (queue_holders s') = max_queue"
      using inv by (simp_all add: adm_inv_def)
    have "max_queue \<le> card (abandoned s')"
      using card_mono [OF finite_subset [OF sub2 fin] sub] by simp
    moreover have "card (abandoned s') \<le> card (queue_holders s')" by (rule card_mono [OF fin sub2])
    ultimately have 0: "queue_free s' = 0" "card (queue_holders s') = card (abandoned s')" using q by linarith+
    then have "queue_holders s' = abandoned s'" using card_subset_eq [OF fin sub2] by simp
    then have "has_queue (phases s' t) \<longleftrightarrow> phases s' t = Abandoned" for t
      by (auto simp: queue_holders_def abandoned_def set_eq_iff)
    then have "phases s' t \<in> {Idle, Refused, Finished, Abandoned}" for t
      by (metis has_queue.elims(3) has_queue.simps insertCI)
    with 0 show ?thesis by blast
  qed
  moreover have "drained max_queue max_concur max_queue ?s"
    by (auto simp: drained_def all_abandoned_def)
  ultimately show ?thesis using reach by blast
qed

end
