(* ===== verification/Wav.thy ===== *)
theory Wav
  imports Errors
begin

text \<open>
  WAV payloads: what the service uses of the \<open>wave\<close> module (the RIFF chunk reader, the PCM writer), the
  concatenation of chunks (\<open>_concat_wav_bytes\<close> of \<open>tts_service.py\<close>), their duration
  (\<open>_wav_duration_ms\<close> of \<open>synthesize_service.py\<close>) and the loudness normalization
  (\<open>audio_postprocessing.py\<close>), whose floating-point kernel is numpy's and a parameter.
\<close>

subsection \<open>Little-endian fields\<close>

fun le_bytes :: "nat \<Rightarrow> nat \<Rightarrow> bytes" where
  "le_bytes 0 n = []"
| "le_bytes (Suc k) n = of_nat (n mod 256) # le_bytes k (n div 256)"

fun le_val :: "bytes \<Rightarrow> nat" where
  "le_val [] = 0"
| "le_val (b # bs) = unat b + 256 * le_val bs"

lemma length_le_bytes [simp]: "length (le_bytes k n) = k"
  by (induction k arbitrary: n) auto

lemma le_val_le_bytes: "n < 256 ^ k \<Longrightarrow> le_val (le_bytes k n) = n"
proof (induction k arbitrary: n)
  case (Suc k)
  then have "n div 256 < 256 ^ k" by (simp add: less_mult_imp_div_less mult.commute)
  with Suc.IH show ?case by (simp add: unat_of_nat)
qed simp

lemma le_val_less: "le_val bs < 256 ^ length bs"
proof (induction bs)
  case (Cons b bs)
  have "(unsigned b :: nat) < 2 ^ LENGTH(8)" by (rule unsigned_less)
  then have "unat b < 256" by simp
  with Cons show ?case by simp
qed simp

subsection \<open>Reading\<close>

text \<open>
  The exceptions of the module: \<open>wave.Error\<close>, \<open>EOFError\<close>, the \<open>RuntimeError\<close> of a seek past the end of
  the RIFF chunk, and \<open>struct.error\<close> of a field that is too large.
\<close>

datatype wave_exc = WaveError string | WaveEOF | WaveSeek | WaveStruct

fun wave_py :: "wave_exc \<Rightarrow> py_exc" where
  "wave_py (WaveError m) = OtherErr m"
| "wave_py WaveEOF = OtherErr []"
| "wave_py WaveSeek = RuntimeErr []"
| "wave_py WaveStruct = OtherErr ''argument out of range''"

record wav_audio =
  wa_channels :: nat
  wa_width :: nat
  wa_rate :: nat
  wa_nframes :: nat
  wa_frames :: bytes

text \<open>
  Reading inside the RIFF chunk, whose body follows its 8 bytes of header: the next \<open>n\<close> bytes at \<open>ofs\<close>,
  within the declared size, and the position after them; a byte of padding is skipped at the end of
  a chunk of odd size.
\<close>

definition riff_read :: "bytes \<Rightarrow> nat \<Rightarrow> nat \<Rightarrow> nat \<Rightarrow> bytes \<times> nat" where
  "riff_read body rsz ofs n =
     (if rsz \<le> ofs then ([], ofs)
      else (let d = take (min n (rsz - ofs)) (drop ofs body);
                ofs' = ofs + length d
            in (d, if ofs' = rsz \<and> odd rsz \<and> ofs' < length body then ofs' + 1 else ofs')))"

text \<open>The same one level down: \<open>(ofs, dn)\<close> are the positions in the RIFF chunk and in the inner chunk.\<close>

definition chunk_read :: "bytes \<Rightarrow> nat \<Rightarrow> nat \<Rightarrow> nat \<times> nat \<Rightarrow> nat \<Rightarrow> bytes \<times> (nat \<times> nat)" where
  "chunk_read body rsz csize pos n = (case pos of (ofs, dn) \<Rightarrow>
     if csize \<le> dn then ([], pos)
     else (case riff_read body rsz ofs (min n (csize - dn)) of (d, ofs1) \<Rightarrow>
       (let dn1 = dn + length d in
        if dn1 = csize \<and> odd csize
        then (case riff_read body rsz ofs1 1 of (pad, ofs2) \<Rightarrow> (d, (ofs2, dn1 + length pad)))
        else (d, (ofs1, dn1)))))"

definition chunk_skip :: "nat \<Rightarrow> nat \<Rightarrow> nat \<times> nat \<Rightarrow> wave_exc + nat" where
  "chunk_skip rsz csize pos = (case pos of (ofs, dn) \<Rightarrow>
     (let n = (csize + (if odd csize then 1 else 0)) - dn in
      if rsz < ofs + n then Inl WaveSeek else Inr (ofs + n)))"

text \<open>The header of the next chunk, \<open>None\<close> at the end of the data.\<close>

definition next_chunk :: "bytes \<Rightarrow> nat \<Rightarrow> nat \<Rightarrow> (bytes \<times> nat \<times> nat) option" where
  "next_chunk body rsz ofs = (case riff_read body rsz ofs 4 of (name, ofs1) \<Rightarrow>
     if length name < 4 then None
     else (case riff_read body rsz ofs1 4 of (sz, ofs2) \<Rightarrow>
       if length sz < 4 then None else Some (name, le_val sz, ofs2)))"

definition pcm_subformat :: bytes where
  "pcm_subformat = [1, 0, 0, 0, 0, 0, 0x10, 0, 0x80, 0, 0, 0xAA, 0, 0x38, 0x9B, 0x71]"

text \<open>The \<open>fmt\<close> chunk: channels, sample width in bytes and rate, for PCM and extensible PCM.\<close>

definition read_fmt_chunk :: "bytes \<Rightarrow> nat \<Rightarrow> nat \<Rightarrow> nat \<times> nat \<Rightarrow> wave_exc + (nat \<times> nat \<times> nat) \<times> nat \<times> nat" where
  "read_fmt_chunk body rsz csize pos = (case chunk_read body rsz csize pos 14 of (h, pos1) \<Rightarrow>
     if length h < 14 then Inl WaveEOF
     else (let tag = le_val (take 2 h); channels = le_val (take 2 (drop 2 h)); rate = le_val (take 4 (drop 4 h)) in
       if tag \<noteq> 1 \<and> tag \<noteq> 0xFFFE then Inl (WaveError (''unknown format: '' @ nat_str tag))
       else (case chunk_read body rsz csize pos1 2 of (b, pos2) \<Rightarrow>
         if length b < 2 then Inl WaveEOF
         else (let width = (le_val b + 7) div 8;
                   finish = (\<lambda>pos. if width = 0 then Inl (WaveError ''bad sample width'')
                     else if channels = 0 then Inl (WaveError ''bad # of channels'')
                     else Inr ((channels, width, rate), pos))
               in if tag = 1 then finish pos2
                  else (case chunk_read body rsz csize pos2 8 of (e, pos3) \<Rightarrow>
                    if length e < 8 then Inl WaveEOF
                    else (case chunk_read body rsz csize pos3 16 of (sub, pos4) \<Rightarrow>
                      if length sub < 16 then Inl WaveEOF
                      else if sub \<noteq> pcm_subformat then Inl (WaveError ''unknown extended format'')
                      else finish pos4))))))"

lemma riff_read_mono: "riff_read body rsz ofs n = (d, ofs') \<Longrightarrow> ofs + length d \<le> ofs' \<and> (d \<noteq> [] \<longrightarrow> ofs < length body)"
  by (auto simp: riff_read_def Let_def split: if_splits)

lemma chunk_read_mono: "chunk_read body rsz csize (ofs, dn) n = (d, (ofs', dn')) \<Longrightarrow> ofs \<le> ofs'"
  by (auto simp: chunk_read_def Let_def split: if_splits prod.splits dest!: riff_read_mono)

lemma next_chunk_mono: "next_chunk body rsz ofs = Some (name, sz, ofs') \<Longrightarrow> ofs < length body \<and> ofs + 8 \<le> ofs'"
  by (auto simp: next_chunk_def split: if_splits prod.splits dest!: riff_read_mono)

lemma read_fmt_chunk_mono: "read_fmt_chunk body rsz csize (ofs, dn) = Inr (f, (ofs', dn')) \<Longrightarrow> ofs \<le> ofs'"
  by (auto simp: read_fmt_chunk_def Let_def split: if_splits prod.splits dest!: chunk_read_mono)

lemma chunk_skip_mono: "chunk_skip rsz csize (ofs, dn) = Inr ofs' \<Longrightarrow> ofs \<le> ofs'"
  by (auto simp: chunk_skip_def Let_def split: if_splits)

text \<open>The loop of \<open>initfp\<close>: chunks up to the data chunk, which needs the format before it.\<close>

function wave_chunks :: "bytes \<Rightarrow> nat \<Rightarrow> nat \<Rightarrow> (nat \<times> nat \<times> nat) option \<Rightarrow> wave_exc + wav_audio" where
  "wave_chunks body rsz ofs fmt = (case next_chunk body rsz ofs of
       None \<Rightarrow> Inl (WaveError ''fmt chunk and/or data chunk missing'')
     | Some (name, csize, ofs1) \<Rightarrow>
         if name = ascii ''fmt ''
         then (case read_fmt_chunk body rsz csize (ofs1, 0) of
             Inl e \<Rightarrow> Inl e
           | Inr (f, pos) \<Rightarrow> (case chunk_skip rsz csize pos of
               Inl e \<Rightarrow> Inl e
             | Inr ofs2 \<Rightarrow> wave_chunks body rsz ofs2 (Some f)))
         else if name = ascii ''data''
         then (case fmt of
             None \<Rightarrow> Inl (WaveError ''data chunk before fmt chunk'')
           | Some (channels, width, rate) \<Rightarrow>
               (let nframes = csize div (channels * width) in
                Inr \<lparr>wa_channels = channels, wa_width = width, wa_rate = rate, wa_nframes = nframes,
                  wa_frames = (if nframes = 0 then []
                    else fst (chunk_read body rsz csize (ofs1, 0) (nframes * (channels * width))))\<rparr>))
         else (case chunk_skip rsz csize (ofs1, 0) of
             Inl e \<Rightarrow> Inl e
           | Inr ofs2 \<Rightarrow> wave_chunks body rsz ofs2 fmt))"
  by pat_completeness auto
termination
  by (relation "measure (\<lambda>(body, rsz, ofs, fmt). length body - ofs)")
    (auto dest!: next_chunk_mono read_fmt_chunk_mono chunk_skip_mono)

declare wave_chunks.simps [simp del]

text \<open>\<open>wave.open(io.BytesIO(b), "rb")\<close> and \<open>readframes(getnframes())\<close>.\<close>

definition wave_read :: "bytes \<Rightarrow> wave_exc + wav_audio" where
  "wave_read b =
     (if length b < 8 then Inl WaveEOF
      else if take 4 b \<noteq> ascii ''RIFF'' then Inl (WaveError ''file does not start with RIFF id'')
      else (let rsz = le_val (take 4 (drop 4 b)); body = drop 8 b in
        (case riff_read body rsz 0 4 of (w, ofs) \<Rightarrow>
           if w \<noteq> ascii ''WAVE'' then Inl (WaveError ''not a WAVE file'')
           else wave_chunks body rsz ofs None)))"

subsection \<open>Writing\<close>

text \<open>\<open>wave.open(out, "wb")\<close>, the setters, \<open>writeframes\<close> for each item and the patched header.\<close>

definition wave_header :: "nat \<Rightarrow> nat \<Rightarrow> nat \<Rightarrow> nat \<Rightarrow> bytes" where
  "wave_header channels width rate n =
     ascii ''RIFF'' @ le_bytes 4 (36 + n) @ ascii ''WAVE'' @ ascii ''fmt '' @ le_bytes 4 16 @
     le_bytes 2 1 @ le_bytes 2 channels @ le_bytes 4 rate @ le_bytes 4 (channels * rate * width) @
     le_bytes 2 (channels * width) @ le_bytes 2 (width * 8) @ ascii ''data'' @ le_bytes 4 n"

definition header_fits :: "nat \<Rightarrow> nat \<Rightarrow> nat \<Rightarrow> nat \<Rightarrow> bool" where
  "header_fits channels width rate n \<longleftrightarrow> 36 + n < 2 ^ 32 \<and> channels < 2 ^ 16 \<and> rate < 2 ^ 32 \<and>
     channels * rate * width < 2 ^ 32 \<and> channels * width < 2 ^ 16 \<and> width * 8 < 2 ^ 16"

definition wave_write :: "nat \<Rightarrow> nat \<Rightarrow> nat \<Rightarrow> bytes list \<Rightarrow> wave_exc + bytes" where
  "wave_write channels width rate frames =
     (if channels < 1 then Inl (WaveError ''bad # of channels'')
      else if width < 1 \<or> 4 < width then Inl (WaveError ''bad sample width'')
      else if rate < 1 then Inl (WaveError ''bad frame rate'')
      else if \<not> header_fits channels width rate (length (concat frames)) then Inl WaveStruct
      else Inr (wave_header channels width rate (length (concat frames)) @ concat frames))"

subsection \<open>Concatenation and duration\<close>

definition wav_params :: "wav_audio \<Rightarrow> nat \<times> nat \<times> nat" where
  "wav_params a = (wa_channels a, wa_width a, wa_rate a)"

text \<open>The loop over the parts: the parameters of the first, the frames of all.\<close>

fun concat_loop :: "(nat \<times> nat \<times> nat) option \<Rightarrow> bytes list \<Rightarrow> bytes list \<Rightarrow> ((nat \<times> nat \<times> nat) option \<times> bytes list) res" where
  "concat_loop params frames [] = Inr (params, frames)"
| "concat_loop params frames (item # items) = (case wave_read item of
       Inl e \<Rightarrow> Inl (wave_py e)
     | Inr a \<Rightarrow> (case params of
         None \<Rightarrow> concat_loop (Some (wav_params a)) (frames @ [wa_frames a]) items
       | Some p \<Rightarrow>
           if p \<noteq> wav_params a then Inl (internal_error ''Speech generation failed: incompatible WAV chunks'')
           else concat_loop params (frames @ [wa_frames a]) items))"

definition concat_wav_bytes :: "bytes list \<Rightarrow> bytes res" where
  "concat_wav_bytes parts = (case parts of
       [] \<Rightarrow> Inr []
     | [p] \<Rightarrow> Inr p
     | _ \<Rightarrow> (case concat_loop None [] parts of
         Inl e \<Rightarrow> Inl e
       | Inr (None, _) \<Rightarrow> Inr []
       | Inr (Some (channels, width, rate), frames) \<Rightarrow>
           map_sum wave_py id (wave_write channels width rate frames)))"

text \<open>\<open>round\<close>: to the nearest integer, ties to even.\<close>

definition py_round :: "rat \<Rightarrow> int" where
  "py_round x = (let f = floor x; d = x - of_int f in
     if d < 1 / 2 then f else if 1 / 2 < d then f + 1 else if even f then f else f + 1)"

definition wav_duration_ms :: "bytes \<Rightarrow> int res" where
  "wav_duration_ms b =
     (if b = [] then Inr 0
      else (case wave_read b of
          Inl (WaveError _) \<Rightarrow> Inr 0
        | Inl e \<Rightarrow> Inl (wave_py e)
        | Inr a \<Rightarrow> if wa_rate a = 0 then Inr 0
            else Inr (py_round (of_nat (wa_nframes a) / of_nat (wa_rate a) * 1000))))"

subsection \<open>Loudness\<close>

text \<open>Signed little-endian samples of a width in bytes, as \<open>numpy.frombuffer\<close> reads and \<open>tobytes\<close> writes them.\<close>

definition sample_val :: "nat \<Rightarrow> bytes \<Rightarrow> int" where
  "sample_val w bs = (let v = int (le_val bs) in if 2 ^ (8 * w - 1) \<le> v then v - 2 ^ (8 * w) else v)"

definition sample_bytes :: "nat \<Rightarrow> int \<Rightarrow> bytes" where
  "sample_bytes w v = le_bytes w (nat (v mod 2 ^ (8 * w)))"

fun groups :: "nat \<Rightarrow> nat \<Rightarrow> bytes \<Rightarrow> bytes list" where
  "groups 0 w bs = []"
| "groups (Suc n) w bs = take w bs # groups n w (drop w bs)"

definition samples :: "nat \<Rightarrow> bytes \<Rightarrow> int list" where
  "samples w bs = map (sample_val w) (groups (length bs div w) w bs)"

text \<open>numpy on the samples: whether the RMS is at most \<open>1e-9\<close>, and the scaled, clipped samples.\<close>

record loudness =
  ld_quiet :: "nat \<Rightarrow> int list \<Rightarrow> bool"
  ld_scale :: "nat \<Rightarrow> pyfloat \<Rightarrow> int list \<Rightarrow> int list"

definition normalize_wav_rms :: "loudness \<Rightarrow> bytes \<Rightarrow> pyfloat \<Rightarrow> bytes res" where
  "normalize_wav_rms D b target_db =
     (if b = [] then Inr b
      else (case wave_read b of
          Inl e \<Rightarrow> Inl (wave_py e)
        | Inr a \<Rightarrow>
            if wa_width a \<notin> {2, 4} then Inr b
            else if length (wa_frames a) mod wa_width a \<noteq> 0
            then Inl (ValueErr ''buffer size must be a multiple of element size'')
            else (let xs = samples (wa_width a) (wa_frames a) in
              if xs = [] then Inr b
              else if ld_quiet D (wa_width a) xs then Inr b
              else map_sum wave_py id (wave_write (wa_channels a) (wa_width a) (wa_rate a)
                [concat (map (sample_bytes (wa_width a)) (ld_scale D (wa_width a) target_db xs))]))))"

subsection \<open>What is written reads back\<close>

lemma length_ascii [simp]: "length (ascii s) = length s"
  by (simp add: ascii_def)

lemma ascii_ne [simp]:
  "ascii ''data'' \<noteq> ascii ''fmt ''"
  by (simp add: ascii_def)

lemma riff_read_within:
  "length body = rsz \<Longrightarrow> ofs + n \<le> rsz \<Longrightarrow> riff_read body rsz ofs n = (take n (drop ofs body), ofs + n)"
  by (auto simp: riff_read_def Let_def min_def)

lemma chunk_read_within:
  "length body = rsz \<Longrightarrow> ofs + n \<le> rsz \<Longrightarrow> dn + n \<le> csize \<Longrightarrow> even csize \<Longrightarrow>
   chunk_read body rsz csize (ofs, dn) n = (take n (drop ofs body), (ofs + n, dn + n))"
  by (auto simp: chunk_read_def riff_read_within Let_def min_def split: prod.splits)

lemma chunk_read_data:
  "length body = rsz \<Longrightarrow> ofs + n \<le> rsz \<Longrightarrow> n \<le> csize \<Longrightarrow>
   fst (chunk_read body rsz csize (ofs, 0) n) = take n (drop ofs body)"
  by (auto simp: chunk_read_def riff_read_within Let_def min_def split: prod.splits)

lemma next_chunk_within:
  "length body = rsz \<Longrightarrow> ofs + 8 \<le> rsz \<Longrightarrow>
   next_chunk body rsz ofs = Some (take 4 (drop ofs body), le_val (take 4 (drop (ofs + 4) body)), ofs + 8)"
  by (simp add: next_chunk_def riff_read_within)

lemma read_fmt_within:
  assumes "length body = rsz" "ofs + 16 \<le> rsz"
    and "le_val (take 2 (take 14 (drop ofs body))) = 1"
    and "le_val (take 2 (drop 2 (take 14 (drop ofs body)))) = channels" "0 < channels"
    and "le_val (take 4 (drop 4 (take 14 (drop ofs body)))) = rate"
    and "le_val (take 2 (drop (ofs + 14) body)) = 8 * width" "0 < width"
  shows "read_fmt_chunk body rsz 16 (ofs, 0) = Inr ((channels, width, rate), (ofs + 16, 16))"
  using assms by (simp add: read_fmt_chunk_def chunk_read_within Let_def)

lemma wave_read_written:
  assumes "1 \<le> channels" "1 \<le> width" "header_fits channels width rate (length data)"
  shows "wave_read (wave_header channels width rate (length data) @ data) =
    Inr \<lparr>wa_channels = channels, wa_width = width, wa_rate = rate, wa_nframes = length data div (channels * width),
      wa_frames = take (length data div (channels * width) * (channels * width)) data\<rparr>"
proof -
  let ?n = "length data"
  let ?fmt = "le_bytes 2 1 @ le_bytes 2 channels @ le_bytes 4 rate @ le_bytes 4 (channels * rate * width) @
     le_bytes 2 (channels * width) @ le_bytes 2 (width * 8)"
  define body where "body = ascii ''WAVE'' @ ascii ''fmt '' @ le_bytes 4 16 @ ?fmt @ ascii ''data'' @ le_bytes 4 ?n @ data"
  have len: "length body = 36 + ?n" by (simp add: body_def)
  have vals: "le_val (le_bytes 4 (36 + ?n)) = 36 + ?n" "le_val (le_bytes 2 channels) = channels"
      "le_val (le_bytes 4 rate) = rate" "le_val (le_bytes 2 (width * 8)) = width * 8"
      "le_val (le_bytes 4 ?n) = ?n" "le_val (le_bytes 4 16) = 16" "le_val (le_bytes 2 1) = 1"
    using assms(3) by (simp_all add: header_fits_def le_val_le_bytes del: le_bytes.simps)
  have w: "wave_header channels width rate ?n @ data = ascii ''RIFF'' @ le_bytes 4 (36 + ?n) @ body"
    by (simp add: wave_header_def body_def del: le_bytes.simps)
  have magic: "riff_read body (36 + ?n) 0 4 = (ascii ''WAVE'', 4)"
    using len by (simp add: riff_read_within body_def del: le_bytes.simps)
  have c1: "next_chunk body (36 + ?n) 4 = Some (ascii ''fmt '', 16, 12)"
    using len vals by (simp add: next_chunk_within body_def del: le_bytes.simps)
  have f: "read_fmt_chunk body (36 + ?n) 16 (12, 0) = Inr ((channels, width, rate), (12 + 16, 16))"
    by (rule read_fmt_within) (use len vals assms in \<open>simp_all add: body_def del: le_bytes.simps\<close>)
  have c2: "next_chunk body (36 + ?n) 28 = Some (ascii ''data'', ?n, 36)"
    using len vals by (simp add: next_chunk_within body_def del: le_bytes.simps)
  have d: "fst (chunk_read body (36 + ?n) ?n (36, 0) m) = take m data" if "m \<le> ?n" for m
    using len that by (simp add: chunk_read_data body_def del: le_bytes.simps)
  have "wave_chunks body (36 + ?n) 28 (Some (channels, width, rate)) =
    Inr \<lparr>wa_channels = channels, wa_width = width, wa_rate = rate, wa_nframes = ?n div (channels * width),
      wa_frames = take (?n div (channels * width) * (channels * width)) data\<rparr>"
    by (subst wave_chunks.simps) (simp add: c2 d Let_def)
  then have "wave_chunks body (36 + ?n) 4 None =
    Inr \<lparr>wa_channels = channels, wa_width = width, wa_rate = rate, wa_nframes = ?n div (channels * width),
      wa_frames = take (?n div (channels * width) * (channels * width)) data\<rparr>"
    by (subst wave_chunks.simps) (simp add: c1 f chunk_skip_def)
  then show ?thesis
    by (simp add: wave_read_def w vals magic del: le_bytes.simps)
qed

lemma wave_write_Inr:
  "wave_write channels width rate frames = Inr b \<longleftrightarrow>
     1 \<le> channels \<and> 1 \<le> width \<and> width \<le> 4 \<and> 1 \<le> rate \<and> header_fits channels width rate (length (concat frames)) \<and>
     b = wave_header channels width rate (length (concat frames)) @ concat frames"
  by (auto simp: wave_write_def)

lemma wave_write_read:
  assumes "wave_write channels width rate frames = Inr b" "channels * width dvd length (concat frames)"
  shows "wave_read b = Inr \<lparr>wa_channels = channels, wa_width = width, wa_rate = rate,
    wa_nframes = length (concat frames) div (channels * width), wa_frames = concat frames\<rparr>"
proof -
  from assms(1) have w: "1 \<le> channels" "1 \<le> width" "header_fits channels width rate (length (concat frames))"
    "b = wave_header channels width rate (length (concat frames)) @ concat frames"
    by (auto simp: wave_write_Inr)
  from wave_read_written [OF w(1-3)] assms(2) show ?thesis by (simp only: w(4)) (simp add: dvd_div_mult_self)
qed

text \<open>A payload whose frames are all there: nothing is cut off, and the declared count is that of the bytes.\<close>

definition whole_wav :: "nat \<times> nat \<times> nat \<Rightarrow> bytes \<Rightarrow> bytes \<Rightarrow> bool" where
  "whole_wav p b data \<longleftrightarrow> (\<exists>a. wave_read b = Inr a \<and> wav_params a = p \<and> wa_frames a = data \<and>
     length data = wa_nframes a * (wa_channels a * wa_width a))"

lemma whole_wav_dvd: "whole_wav (channels, width, rate) b d \<Longrightarrow> channels * width dvd length d"
  by (auto simp: whole_wav_def wav_params_def)

lemma dvd_length_concat: "\<forall>d\<in>set ds. k dvd length d \<Longrightarrow> k dvd length (concat ds)"
  by (induction ds) auto

lemma concat_loop_same:
  "list_all2 (\<lambda>b data. \<exists>a. wave_read b = Inr a \<and> wav_params a = p \<and> wa_frames a = data) items ds \<Longrightarrow>
   concat_loop (Some p) frames items = Inr (Some p, frames @ ds)"
  by (induction items ds arbitrary: frames rule: list_all2_induct) auto

lemma concat_loop_mismatch:
  "(\<forall>b\<in>set items. \<exists>a. wave_read b = Inr a) \<Longrightarrow> b \<in> set items \<Longrightarrow> wave_read b = Inr a \<Longrightarrow> wav_params a \<noteq> p \<Longrightarrow>
   concat_loop (Some p) frames items = Inl (internal_error ''Speech generation failed: incompatible WAV chunks'')"
  by (induction items arbitrary: frames) auto

lemma concat_wav_two: "concat_wav_bytes (a # b # cs) = (case concat_loop None [] (a # b # cs) of
     Inl e \<Rightarrow> Inl e
   | Inr (None, _) \<Rightarrow> Inr []
   | Inr (Some (channels, width, rate), frames) \<Rightarrow> map_sum wave_py id (wave_write channels width rate frames))"
  by (simp add: concat_wav_bytes_def)

lemma concat_wav_frames:
  assumes parts: "2 \<le> length parts" "list_all2 (whole_wav (channels, width, rate)) parts ds"
    and fits: "1 \<le> channels" "1 \<le> width" "width \<le> 4" "1 \<le> rate" "header_fits channels width rate (length (concat ds))"
  shows "\<exists>b. concat_wav_bytes parts = Inr b \<and> whole_wav (channels, width, rate) b (concat ds)"
proof -
  obtain x y zs where xs: "parts = x # y # zs" using parts(1) by (metis Suc_le_length_iff numeral_2_eq_2)
  from parts(2) xs obtain d ds' where ds: "ds = d # ds'" "whole_wav (channels, width, rate) x d"
    and rest: "list_all2 (whole_wav (channels, width, rate)) (y # zs) ds'"
    by (auto simp: list_all2_Cons1)
  have "list_all2 (\<lambda>b data. \<exists>a. wave_read b = Inr a \<and> wav_params a = (channels, width, rate) \<and> wa_frames a = data) (y # zs) ds'"
    using rest by (rule list_all2_mono) (auto simp: whole_wav_def)
  from concat_loop_same [OF this] ds
  have loop: "concat_loop None [] parts = Inr (Some (channels, width, rate), ds)"
    by (auto simp: xs whole_wav_def)
  obtain b where b: "wave_write channels width rate ds = Inr b" using fits by (simp add: wave_write_def)
  have "\<forall>d\<in>set ds. channels * width dvd length d"
    using parts(2) by (induction rule: list_all2_induct) (auto dest: whole_wav_dvd)
  then have dvd: "channels * width dvd length (concat ds)"
    by (rule dvd_length_concat)
  have "whole_wav (channels, width, rate) b (concat ds)"
    using wave_write_read [OF b dvd] dvd by (auto simp: whole_wav_def wav_params_def)
  moreover have "concat_wav_bytes parts = Inr b"
    using loop b unfolding xs by (simp add: concat_wav_two del: concat_loop.simps)
  ultimately show ?thesis by blast
qed

text \<open>
  C25: the audio of a response is the audio of its chunks. Concatenating two or more payloads of one format
  gives a payload of that format whose samples are theirs, in order, none lost; one payload is passed
  on as it is; and payloads of different formats are refused with an internal error, never mixed.
\<close>

theorem concat_wav_bytes_correct:
  "(list_all2 (whole_wav (channels, width, rate)) parts ds \<and> 2 \<le> length parts \<and> 1 \<le> channels \<and> 1 \<le> width \<and> width \<le> 4 \<and>
     1 \<le> rate \<and> header_fits channels width rate (length (concat ds)) \<longrightarrow>
     (\<exists>b. concat_wav_bytes parts = Inr b \<and> whole_wav (channels, width, rate) b (concat ds))) \<and>
   concat_wav_bytes [p] = Inr p \<and> concat_wav_bytes [] = Inr [] \<and>
   (\<forall>first rest. parts = first # rest \<and> (\<forall>b\<in>set parts. \<exists>a. wave_read b = Inr a) \<and>
     (\<exists>b\<in>set rest. map_sum id wav_params (wave_read b) \<noteq> map_sum id wav_params (wave_read first)) \<longrightarrow>
     concat_wav_bytes parts = Inl (internal_error ''Speech generation failed: incompatible WAV chunks''))"
proof -
  have "concat_wav_bytes (first # rest) = Inl (internal_error ''Speech generation failed: incompatible WAV chunks'')"
    if all: "\<forall>b\<in>set (first # rest). \<exists>a. wave_read b = Inr a" and b: "b \<in> set rest"
      and ne: "map_sum id wav_params (wave_read b) \<noteq> map_sum id wav_params (wave_read first)" for first rest b
  proof -
    obtain y zs where rest: "rest = y # zs" using b by (cases rest) auto
    obtain a0 where a0: "wave_read first = Inr a0" using all by auto
    obtain a where a: "wave_read b = Inr a" using all b by auto
    have "wav_params a \<noteq> wav_params a0" using ne a a0 by auto
    from concat_loop_mismatch [OF _ b a this] all
    have "concat_loop (Some (wav_params a0)) [wa_frames a0] rest =
        Inl (internal_error ''Speech generation failed: incompatible WAV chunks'')" by simp
    then show ?thesis unfolding rest concat_wav_two using a0 by simp
  qed
  then show ?thesis
    using concat_wav_frames [of parts channels width rate ds] by (auto simp: concat_wav_bytes_def)
qed

lemma sample_wav: "whole_wav (1, 2, 8000) (wave_header 1 2 8000 (length [x, y]) @ [x, y]) [x, y]"
proof -
  have "wave_write 1 2 8000 [[x, y]] = Inr (wave_header 1 2 8000 (length [x, y]) @ [x, y])"
    by (simp add: wave_write_def header_fits_def)
  from wave_write_read [OF this] show ?thesis by (simp add: whole_wav_def wav_params_def)
qed

theorem concat_wav_bytes_correct_witness:
  "\<exists>b. concat_wav_bytes [wave_header 1 2 8000 (length [1, 2 :: byte]) @ [1, 2], wave_header 1 2 8000 (length [3, 4 :: byte]) @ [3, 4]] = Inr b \<and>
     whole_wav (1, 2, 8000) b [1, 2, 3, 4]"
proof -
  have "list_all2 (whole_wav (1, 2, 8000))
     [wave_header 1 2 8000 (length [1, 2 :: byte]) @ [1, 2], wave_header 1 2 8000 (length [3, 4 :: byte]) @ [3, 4]] [[1, 2], [3, 4]]"
    using sample_wav [of 1 2] sample_wav [of 3 4] by simp
  with concat_wav_bytes_correct [of 1 2 8000
      "[wave_header 1 2 8000 (length [1, 2 :: byte]) @ [1, 2], wave_header 1 2 8000 (length [3, 4 :: byte]) @ [3, 4]]" "[[1, 2], [3, 4]]"]
  show ?thesis by (simp add: header_fits_def)
qed

subsection \<open>Properties of the normalization and of the duration\<close>

definition loudness_law :: "loudness \<Rightarrow> bool" where
  "loudness_law D \<longleftrightarrow> (\<forall>w t xs. length (ld_scale D w t xs) = length xs \<and>
     (\<forall>y\<in>set (ld_scale D w t xs). - (2 ^ (8 * w - 1)) \<le> y \<and> y < 2 ^ (8 * w - 1)))"

lemma sample_val_bytes:
  assumes "0 < w" "- (2 ^ (8 * w - 1)) \<le> y" "y < 2 ^ (8 * w - 1)"
  shows "sample_val w (sample_bytes w y) = y"
proof -
  have half: "(2 :: int) ^ (8 * w) = 2 * 2 ^ (8 * w - 1)"
    using assms(1) by (metis Suc_diff_1 mult_pos_pos power_Suc zero_less_numeral)
  have pow: "(256 :: nat) ^ w = 2 ^ (8 * w)" by (simp add: power_mult)
  have "nat (y mod 2 ^ (8 * w)) < 256 ^ w"
    unfolding pow by (simp add: nat_less_iff)
  then have v: "int (le_val (sample_bytes w y)) = y mod 2 ^ (8 * w)"
    by (simp add: sample_bytes_def le_val_le_bytes)
  show ?thesis
  proof (cases "0 \<le> y")
    case True
    then have "y mod 2 ^ (8 * w) = y" using assms(3) half by (simp add: mod_pos_pos_trivial)
    with v True assms(3) show ?thesis by (simp add: sample_val_def Let_def)
  next
    case False
    then have "(y + 2 ^ (8 * w)) mod 2 ^ (8 * w) = y + 2 ^ (8 * w)"
      using assms(2) half by (intro mod_pos_pos_trivial) auto
    then have "y mod 2 ^ (8 * w) = y + 2 ^ (8 * w)" by simp
    with v False assms(2) half show ?thesis by (simp add: sample_val_def Let_def)
  qed
qed

lemma length_sample_bytes [simp]: "length (sample_bytes w y) = w"
  by (simp add: sample_bytes_def)

lemma groups_concat:
  "\<forall>g\<in>set gs. length g = w \<Longrightarrow> groups (length gs) w (concat gs) = gs"
  by (induction gs) auto

lemma length_groups [simp]: "length (groups n w bs) = n"
  by (induction n arbitrary: bs) auto

lemma samples_encoded:
  assumes "0 < w" "\<forall>y\<in>set ys. - (2 ^ (8 * w - 1)) \<le> y \<and> y < 2 ^ (8 * w - 1)"
  shows "samples w (concat (map (sample_bytes w) ys)) = ys"
proof -
  have len: "length (concat (map (sample_bytes w) ys)) = length ys * w"
    by (induction ys) auto
  have "groups (length ys) w (concat (map (sample_bytes w) ys)) = map (sample_bytes w) ys"
    using groups_concat [of "map (sample_bytes w) ys" w] by simp
  with len assms show ?thesis
    by (simp add: samples_def map_idI sample_val_bytes)
qed

lemma whole_wav_read:
  assumes "whole_wav (channels, width, rate) b data"
  obtains nf where "wave_read b = Inr \<lparr>wa_channels = channels, wa_width = width, wa_rate = rate,
      wa_nframes = nf, wa_frames = data\<rparr>" "length data = nf * (channels * width)"
proof -
  from assms obtain a where "wave_read b = Inr a" "wav_params a = (channels, width, rate)" "wa_frames a = data"
      "length data = wa_nframes a * (wa_channels a * wa_width a)"
    by (auto simp: whole_wav_def)
  then show ?thesis by (intro that [of "wa_nframes a"]) (cases a; simp add: wav_params_def)+
qed

lemma wave_read_Nil: "wave_read [] = Inl WaveEOF"
  by (simp add: wave_read_def)

lemma normalize_loud:
  assumes law: "loudness_law D" and whole: "whole_wav (channels, width, rate) b data"
    and fits: "1 \<le> channels" "1 \<le> rate" "header_fits channels width rate (length data)"
    and w: "width \<in> {2, 4}" and loud: "data \<noteq> []" "\<not> ld_quiet D width (samples width data)"
  shows "\<exists>b' data'. normalize_wav_rms D b target_db = Inr b' \<and> whole_wav (channels, width, rate) b' data' \<and>
    length data' = length data \<and> samples width data' = ld_scale D width target_db (samples width data)"
proof -
  define ys where "ys = ld_scale D width target_db (samples width data)"
  let ?out = "concat (map (sample_bytes width) ys)"
  obtain nf where rd: "wave_read b = Inr \<lparr>wa_channels = channels, wa_width = width, wa_rate = rate,
      wa_nframes = nf, wa_frames = data\<rparr>" using whole by (rule whole_wav_read)
  have ne: "b \<noteq> []" using rd by (auto simp: wave_read_Nil)
  have dvd: "channels * width dvd length data" using whole by (rule whole_wav_dvd)
  then have wd: "length data mod width = 0" by (simp add: dvd_imp_mod_0 dvd_mult_right)
  then have len: "length (samples width data) * width = length data" by (simp add: samples_def dvd_div_mult_self mod_0_imp_dvd)
  then have xs: "samples width data \<noteq> []" using loud by auto
  have ys: "length ys = length (samples width data)" "\<forall>y\<in>set ys. - (2 ^ (8 * width - 1)) \<le> y \<and> y < 2 ^ (8 * width - 1)"
    using law unfolding loudness_law_def ys_def by blast+
  have "length ?out = length ys * width" by (induction ys) (auto simp: length_concat sum_list_triv comp_def)
  with ys(1) len have lout: "length ?out = length data" by simp
  have "1 \<le> width" "width \<le> 4" using w by auto
  then obtain b' where b': "wave_write channels width rate [?out] = Inr b'"
    using fits lout by (simp add: wave_write_def)
  have "channels * width dvd length (concat [?out])" using dvd lout by simp
  from wave_write_read [OF b' this] lout dvd have "whole_wav (channels, width, rate) b' ?out"
    by (simp add: whole_wav_def wav_params_def)
  moreover have "samples width ?out = ys" using w ys(2) by (intro samples_encoded) auto
  moreover have "normalize_wav_rms D b target_db = Inr b'"
    using rd ne w wd xs loud b' by (auto simp: normalize_wav_rms_def Let_def ys_def)
  ultimately show ?thesis using lout unfolding ys_def by blast
qed


definition plain_loudness :: loudness where
  "plain_loudness = \<lparr>ld_quiet = (\<lambda>w xs. list_all (\<lambda>x. x = 0) xs), ld_scale = (\<lambda>w t xs. map (\<lambda>_. 0) xs)\<rparr>"


text \<open>
  The duration of a complete payload is its number of frames over its rate, in milliseconds, rounded. A payload
  that is cut off inside its first eight bytes is not a duration of 0, though: the \<open>EOFError\<close> of the
  reader is no \<open>wave.Error\<close> and escapes.
\<close>

theorem wav_duration_ms_exact:
  "(whole_wav (channels, width, rate) b data \<and> 1 \<le> channels \<and> 1 \<le> width \<and> 1 \<le> rate \<longrightarrow>
     wav_duration_ms b = Inr (py_round (of_nat (length data div (channels * width)) / of_nat rate * 1000))) \<and>
   (0 < length stub \<and> length stub < 8 \<longrightarrow> wav_duration_ms stub = Inl (wave_py WaveEOF))"
proof -
  have "wav_duration_ms b = Inr (py_round (of_nat (length data div (channels * width)) / of_nat rate * 1000))"
    if w: "whole_wav (channels, width, rate) b data" and p: "1 \<le> channels" "1 \<le> width" "1 \<le> rate"
  proof -
    obtain nf where r: "wave_read b = Inr \<lparr>wa_channels = channels, wa_width = width, wa_rate = rate,
        wa_nframes = nf, wa_frames = data\<rparr>" "length data = nf * (channels * width)"
      using w by (rule whole_wav_read)
    have "b \<noteq> []" using r(1) by (auto simp: wave_read_Nil)
    then show ?thesis using r p by (simp add: wav_duration_ms_def)
  qed
  then show ?thesis by (auto simp: wav_duration_ms_def wave_read_def)
qed

theorem wav_duration_ms_exact_witness:
  "wav_duration_ms (wave_header 1 2 8000 (length [1, 2 :: byte]) @ [1, 2]) = Inr (py_round (1 / 8)) \<and>
   wav_duration_ms [0x52] = Inl (OtherErr [])"
  using wav_duration_ms_exact [of 1 2 8000 "wave_header 1 2 8000 (length [1, 2 :: byte]) @ [1, 2]" "[1, 2]" "[0x52]"]
    sample_wav [of 1 2] by simp

end
