(* ===== verification/PresetResolution.thy ===== *)
theory PresetResolution
  imports Presets
begin

text \<open>
  The request of the rich endpoint (\<open>schemas/synthesis.py\<close>) and what a request resolves to: the preset with the
  explicit fields over it (\<open>resolve_preset\<close> and the preset headers of \<open>synthesize_service.py\<close>), the provider
  and the model, and the voice configuration. The text of a number is the standard library's
  (\<open>float_repr\<close>); logging is left out.
\<close>

subsection \<open>The request\<close>

record synthesize_request =
  sr_input :: utext
  sr_voice :: "string option"
  sr_provider :: "string option"
  sr_model :: "string option"
  sr_response_format :: string
  sr_stream :: bool
  sr_preset :: "string option"
  sr_normalize_db :: "pyfloat option"
  sr_max_sentences :: "int option"
  sr_language :: "string option"
  sr_number_lang :: "string option"
  sr_temperature :: "pyfloat option"
  sr_top_p :: "pyfloat option"

subsection \<open>Presets\<close>

definition pipeline_supported_formats :: "string list" where
  "pipeline_supported_formats = [''wav'']"

record effective_config =
  ef_preset_name :: string
  ef_provider :: "string option"
  ef_model :: "string option"
  ef_temperature :: "pyfloat option"
  ef_top_p :: "pyfloat option"
  ef_max_sentences :: "int option"
  ef_normalize_db :: "pyfloat option"
  ef_response_format :: string
  ef_postprocess :: "preset_postprocess option"
  ef_language :: "string option"
  ef_number_lang :: "string option"
  ef_voice :: "string option"
  ef_ignored_knobs :: "string list"
  ef_overrides :: "(string \<times> string) list"

text \<open>\<open>_pick\<close>: the explicit value if there is one; a disagreement with the preset is recorded.\<close>

definition pick :: "('a \<Rightarrow> string) \<Rightarrow> ('a \<Rightarrow> 'a \<Rightarrow> bool) \<Rightarrow> string \<Rightarrow> 'a option \<Rightarrow> 'a option \<Rightarrow>
    (string \<times> string) list \<Rightarrow> 'a option \<times> (string \<times> string) list" where
  "pick fmt eq name explicit preset overrides = (case explicit of
       None \<Rightarrow> (preset, overrides)
     | Some e \<Rightarrow> (case preset of
         None \<Rightarrow> (Some e, overrides)
       | Some p \<Rightarrow> if eq e p then (Some e, overrides) else (Some e, AList.update name (fmt e) overrides)))"

definition preset_unknown :: "string \<Rightarrow> string list \<Rightarrow> py_exc" where
  "preset_unknown name available = HTTPErr 400
     \<lparr>oe_message = ''unknown preset '' @ repr_str name @ ''; available presets: '' @ repr_str_list available,
      oe_type = ValidationError, oe_code = ''preset_unknown'', oe_param = Some ''preset''\<rparr>"

definition preset_name_of :: "synthesize_request \<Rightarrow> settings \<Rightarrow> string" where
  "preset_name_of req s = (case sr_preset req of Some n \<Rightarrow> n | None \<Rightarrow> tts_default_preset s)"

definition resolve_preset :: "stdlib \<Rightarrow> synthesize_request \<Rightarrow> preset_registry \<Rightarrow> settings \<Rightarrow> effective_config res" where
  "resolve_preset L req snapshot s =
     (let name = preset_name_of req s in
      case preset_get snapshot name of
        None \<Rightarrow> Inl (preset_unknown name (sort (map fst snapshot)))
      | Some entry \<Rightarrow>
         (let d = pe_defaults entry; eqs = (\<lambda>a b. a = b); fl = float_repr L;
              (provider, o1) = pick id eqs ''provider'' (sr_provider req) (df_provider d) [];
              (model, o2) = pick id eqs ''model'' (sr_model req) (df_model d) o1;
              (temperature, o3) = pick fl feq ''temperature'' (sr_temperature req) (df_temperature d) o2;
              (top_p, o4) = pick fl feq ''top_p'' (sr_top_p req) (df_top_p d) o3;
              (max_sentences, o5) = pick int_str (\<lambda>a b. a = b) ''max_sentences_per_chunk'' (sr_max_sentences req) (df_max_sentences d) o4;
              (normalize_db, o6) = pick fl feq ''normalize_db'' (sr_normalize_db req) (df_normalize_db d) o5;
              (language, o7) = pick id eqs ''language'' (sr_language req) (df_language d) o6;
              (number_lang, o8) = pick id eqs ''number_lang'' (sr_number_lang req) (df_number_lang d) o7;
              (voice, o9) = pick id eqs ''voice'' (sr_voice req) (df_voice d) o8;
              resolved_format = (case df_response_format d of Some f \<Rightarrow> f | None \<Rightarrow> sr_response_format req)
          in Inr \<lparr>ef_preset_name = name, ef_provider = provider, ef_model = model, ef_temperature = temperature,
               ef_top_p = top_p, ef_max_sentences = max_sentences, ef_normalize_db = normalize_db,
               ef_response_format = resolved_format, ef_postprocess = df_postprocess d, ef_language = language,
               ef_number_lang = number_lang, ef_voice = voice,
               ef_ignored_knobs = (if resolved_format \<in> set pipeline_supported_formats then [] else [''response_format'']),
               ef_overrides = o9\<rparr>))"

text \<open>\<open>X-Preset-Effective\<close>: the resolved fields, sorted by name.\<close>

definition opt_part :: "string \<Rightarrow> ('a \<Rightarrow> string) \<Rightarrow> 'a option \<Rightarrow> (string \<times> string) list" where
  "opt_part name fmt v = (case v of None \<Rightarrow> [] | Some x \<Rightarrow> [(name, fmt x)])"

definition format_preset_effective_header :: "stdlib \<Rightarrow> effective_config \<Rightarrow> string" where
  "format_preset_effective_header L cfg =
     (let fl = float_repr L;
          parts = opt_part ''provider'' id (ef_provider cfg) @ opt_part ''model'' id (ef_model cfg) @
            opt_part ''temperature'' fl (ef_temperature cfg) @ opt_part ''top_p'' fl (ef_top_p cfg) @
            opt_part ''max_sentences_per_chunk'' int_str (ef_max_sentences cfg) @
            opt_part ''normalize_db'' fl (ef_normalize_db cfg) @ opt_part ''language'' id (ef_language cfg) @
            opt_part ''number_lang'' id (ef_number_lang cfg) @ opt_part ''voice'' id (ef_voice cfg) @
            [(''response_format'', ef_response_format cfg)];
          body = join '','' (map (\<lambda>kv. fst kv @ ''='' @ snd kv) (sort_key fst parts))
      in ef_preset_name cfg @ ''('' @ body @ '')'')"

subsection \<open>Provider, model and voice\<close>

definition or_stripped :: "string option \<Rightarrow> string \<Rightarrow> string" where
  "or_stripped v dflt = (let t = strip (case v of Some x \<Rightarrow> x | None \<Rightarrow> []) in if t = [] then dflt else t)"

definition resolve_provider_and_model :: "settings \<Rightarrow> 'p provider_registry \<Rightarrow> provider_selection \<Rightarrow> effective_config \<Rightarrow>
    (string \<times> string \<times> 'p tts_provider_strategy) res" where
  "resolve_provider_and_model s registry sel effective =
     (let provider_name = or_stripped (ef_provider effective) (sel_provider sel) in
      bindE (registry_get registry provider_name) (\<lambda>strategy.
        (let model_name = or_stripped (ef_model effective) (model_default_for s provider_name);
             allowed = model_allowed_for s provider_name
         in if allowed \<noteq> [] \<and> model_name \<notin> set allowed
            then Inl (invalid_request_code (''model '' @ repr_str model_name @ '' is not allowed for provider '' @
              repr_str provider_name) (Some ''model'') ''unknown_model'')
            else Inr (provider_name, model_name, strategy))))"

text \<open>\<open>x if x is not None else default\<close>.\<close>

definition dflt :: "'a option \<Rightarrow> 'a \<Rightarrow> 'a" where
  "dflt v d = (case v of Some x \<Rightarrow> x | None \<Rightarrow> d)"

definition build_voice_config :: "voice_record \<Rightarrow> string \<Rightarrow> effective_config \<Rightarrow> voice_config" where
  "build_voice_config r tmp_path ef =
     (let lang0 = (case ef_language ef of Some x \<Rightarrow> if x = [] then vr_language r else x | None \<Rightarrow> vr_language r);
          language = (if strip lang0 = [] then vr_language r else strip lang0)
      in \<lparr>vc_ref_audio_path = tmp_path, vc_ref_text = vr_transcript r, vc_language = language,
          vc_number_lang = dflt (ef_number_lang ef) (vr_number_lang r),
          vc_temperature = dflt (ef_temperature ef) (vr_temperature r),
          vc_top_p = dflt (ef_top_p ef) (vr_top_p r),
          vc_target_db = dflt (ef_normalize_db ef) (vr_target_db r),
          vc_max_sentences = dflt (ef_max_sentences ef) (vr_max_sentences r)\<rparr>)"

subsection \<open>Properties\<close>

text \<open>The explicit value over the one of the preset, and the record of a disagreement.\<close>

definition over :: "'a option \<Rightarrow> 'a option \<Rightarrow> 'a option" where
  "over explicit preset = (if explicit = None then preset else explicit)"

definition differs :: "('a \<Rightarrow> 'a \<Rightarrow> bool) \<Rightarrow> 'a option \<Rightarrow> 'a option \<Rightarrow> bool" where
  "differs eq explicit preset = (\<exists>e p. explicit = Some e \<and> preset = Some p \<and> \<not> eq e p)"

lemma pick_spec: "pick fmt eq name e p os = (over e p, if differs eq e p then AList.update name (fmt (the e)) os else os)"
  by (auto simp: pick_def over_def differs_def split: option.splits)

lemma dom_update_list: "fst ` set (AList.update k v al) = insert k (fst ` set al)"
  by (induction al) auto

lemma update_names:
  "fst ` set (if b then AList.update k v al else al) = (if b then {k} else {}) \<union> fst ` set al"
  by (simp add: dom_update_list)


lemma resolve_model_ok:
  "resolve_provider_and_model s registry sel ef = Inr (provider, model, strategy) \<Longrightarrow>
   registry_find registry provider = Some strategy \<and>
   (model_allowed_for s provider = [] \<or> model \<in> set (model_allowed_for s provider))"
  by (auto simp: resolve_provider_and_model_def registry_get_def registry_find_def Let_def split: option.splits if_splits)

text \<open>
  The provider and the model of a request. The provider is registered under the name returned, the name is the
  effective one or the one selected at start-up, and the model is the effective or default one and in the provider's
  allow-list, unless that list is empty; an unknown provider or a model outside the list is a 400 that names
  the parameter.
\<close>

theorem resolve_provider_and_model_sound:
  "case resolve_provider_and_model s registry sel ef of
     Inr (provider, model, strategy) \<Rightarrow>
       registry_find registry provider = Some strategy \<and> provider = or_stripped (ef_provider ef) (sel_provider sel) \<and>
       model = or_stripped (ef_model ef) (model_default_for s provider) \<and>
       (model_allowed_for s provider = [] \<or> model \<in> set (model_allowed_for s provider))
   | Inl e \<Rightarrow> (\<exists>err. e = HTTPErr 400 err \<and> oe_type err = ValidationError \<and>
       (oe_param err = Some ''provider'' \<and> registry_find registry (or_stripped (ef_provider ef) (sel_provider sel)) = None \<or>
        oe_param err = Some ''model'' \<and> oe_code err = ''unknown_model''))"
  by (auto simp: resolve_provider_and_model_def registry_get_def registry_find_def Let_def factory_defs registered_def
      split: option.splits)

end
