(* ===== verification/Synthesize.thy ===== *)
theory Synthesize
  imports PresetResolution TextPreprocessing Wav FsBlob
begin

text \<open>
  The synthesis pipeline of \<open>synthesize_service.py\<close>, which both endpoints call: \<open>synthesize_core\<close> with its
  admission, its temporary file, the buffered run (\<open>_run_synthesis\<close>) and the streaming generator
  (\<open>_stream_synthesis_chunks\<close>). One request is followed from its arrival to its response; what the other requests
  do meanwhile is the theory of the admission. A provider is a function from a request, the temporary
  files it may read and the state of the engine to its WAV payloads or an exception.
\<close>

subsection \<open>Requests to a provider\<close>

record generation_options =
  go_language :: string
  go_temperature :: pyfloat
  go_top_p :: pyfloat

record synthesis_request =
  sy_model_name :: string
  sy_chunks :: "utext list"
  sy_voice :: voice_config
  sy_voice_name :: string
  sy_response_format :: string
  sy_generation :: "generation_options option"

type_synonym 'w synth = "synthesis_request \<Rightarrow> (string \<Rightarrow> bytes option) \<Rightarrow> 'w \<Rightarrow> bytes list res \<times> 'w"

definition build_synthesis_request :: "string \<Rightarrow> voice_config \<Rightarrow> string \<Rightarrow> string \<Rightarrow> utext \<Rightarrow> synthesis_request" where
  "build_synthesis_request model_name voice voice_name response_format chunk_text =
     \<lparr>sy_model_name = model_name, sy_chunks = [chunk_text], sy_voice = voice, sy_voice_name = voice_name,
      sy_response_format = response_format,
      sy_generation = Some \<lparr>go_language = vc_language voice, go_temperature = vc_temperature voice, go_top_p = vc_top_p voice\<rparr>\<rparr>"

text \<open>
  What one request sees and changes: the free permits of the queue semaphore, the temporary files, the state
  of the engine.
\<close>

record 'w world =
  wd_queue :: nat
  wd_tmp :: "(string \<times> bytes) list"
  wd_engine :: 'w

definition acquire_queue :: "'w world \<Rightarrow> 'w world" where
  "acquire_queue w = w\<lparr>wd_queue := wd_queue w - 1\<rparr>"

definition release_permit :: "'w world \<Rightarrow> 'w world" where
  "release_permit w = w\<lparr>wd_queue := wd_queue w + 1\<rparr>"

definition remove_tmp :: "string \<Rightarrow> 'w world \<Rightarrow> 'w world" where
  "remove_tmp p w = w\<lparr>wd_tmp := AList.delete p (wd_tmp w)\<rparr>"

definition server_at_capacity :: py_exc where
  "server_at_capacity = capacity_error ''queue_full'' ''Server is at capacity; queue is full'' 429 None"

subsection \<open>The buffered run\<close>

text \<open>The loop over the chunks; \<open>disc i\<close>: the client has gone before chunk \<open>i\<close>.\<close>

fun run_loop :: "(nat \<Rightarrow> bool) \<Rightarrow> (utext \<Rightarrow> synthesis_request) \<Rightarrow> 'w synth \<Rightarrow> (string \<Rightarrow> bytes option) \<Rightarrow> nat \<Rightarrow>
    utext list \<Rightarrow> 'w \<Rightarrow> bytes list res \<times> 'w" where
  "run_loop disc mk synth files i [] g = (Inr [], g)"
| "run_loop disc mk synth files i (c # cs) g =
     (if disc i then (Inl (Cancelled ''client disconnected''), g)
      else (case synth (mk c) files g of
          (Inl e, g1) \<Rightarrow> (Inl e, g1)
        | (Inr rs, g1) \<Rightarrow> (case run_loop disc mk synth files (i + 1) cs g1 of
            (Inl e, g2) \<Rightarrow> (Inl e, g2)
          | (Inr out, g2) \<Rightarrow> (Inr (rs @ out), g2))))"

definition run_synthesis :: "(nat \<Rightarrow> bool) \<Rightarrow> (utext \<Rightarrow> synthesis_request) \<Rightarrow> 'w synth \<Rightarrow> utext list \<Rightarrow> 'w world \<Rightarrow>
    bytes list res \<times> 'w world" where
  "run_synthesis disc mk synth chunks w =
     (if wd_queue w = 0 then (Inl server_at_capacity, w)
      else (let w1 = acquire_queue w in
        (case run_loop disc mk synth (map_of (wd_tmp w1)) 0 chunks (wd_engine w1) of
           (r, g) \<Rightarrow> (r, release_permit (w1\<lparr>wd_engine := g\<rparr>)))))"

subsection \<open>The streaming generator\<close>

text \<open>
  The generator a streaming response owns. The consumer takes \<open>taken\<close> chunks and closes it, or all of them
  (\<open>None\<close>). The result has the chunks that were sent, how the generator ended and the totals of the trailers.
\<close>

record 'w stream_job =
  sj_request :: "utext \<Rightarrow> synthesis_request"
  sj_synth :: "'w synth"
  sj_chunks :: "utext list"
  sj_target_db :: pyfloat
  sj_tmp_path :: string

fun stream_loop :: "loudness \<Rightarrow> pyfloat \<Rightarrow> (utext \<Rightarrow> synthesis_request) \<Rightarrow> 'w synth \<Rightarrow> (string \<Rightarrow> bytes option) \<Rightarrow>
    nat option \<Rightarrow> utext list \<Rightarrow> nat \<times> int \<Rightarrow> 'w \<Rightarrow> bytes list \<times> unit res \<times> (nat \<times> int) \<times> 'w" where
  "stream_loop D db mk synth files taken [] tot g = ([], Inr (), tot, g)"
| "stream_loop D db mk synth files taken (c # cs) (n, ms) g =
     (case synth (mk c) files g of
        (Inl e, g1) \<Rightarrow> ([], Inl e, (n, ms), g1)
      | (Inr [], g1) \<Rightarrow> ([], Inl (OtherErr ''list index out of range''), (n, ms), g1)
      | (Inr (r # rs), g1) \<Rightarrow> (case normalize_wav_rms D r db of
          Inl e \<Rightarrow> ([], Inl e, (n, ms), g1)
        | Inr wav \<Rightarrow> (case wav_duration_ms wav of
            Inl e \<Rightarrow> ([], Inl e, (n + 1, ms), g1)
          | Inr d \<Rightarrow>
              if taken = Some 1 then ([wav], Inr (), (n + 1, ms + d), g1)
              else (case stream_loop D db mk synth files (map_option (\<lambda>k. k - 1) taken) cs (n + 1, ms + d) g1 of
                (out, rest) \<Rightarrow> (wav # out, rest)))))"

text \<open>From the first \<open>__anext__\<close> to the \<open>finally\<close>, which runs however the loop ends.\<close>

definition stream_run :: "loudness \<Rightarrow> nat option \<Rightarrow> 'w stream_job \<Rightarrow> 'w world \<Rightarrow>
    bytes list \<times> unit res \<times> (nat \<times> int) \<times> 'w world" where
  "stream_run D taken j w =
     (case stream_loop D (sj_target_db j) (sj_request j) (sj_synth j) (map_of (wd_tmp w)) taken (sj_chunks j) (0, 0) (wd_engine w) of
        (out, r, tot, g) \<Rightarrow> (out, r, tot, remove_tmp (sj_tmp_path j) (release_permit (w\<lparr>wd_engine := g\<rparr>))))"

subsection \<open>Response headers and trailers\<close>

definition opt_header :: "string \<Rightarrow> string option \<Rightarrow> (string \<times> string) list" where
  "opt_header k v = (case v of None \<Rightarrow> [] | Some x \<Rightarrow> [(k, x)])"

definition synthesis_headers :: "stdlib \<Rightarrow> string \<Rightarrow> string \<Rightarrow> string \<Rightarrow> device_profile \<Rightarrow> voice_record \<Rightarrow> nat option \<Rightarrow>
    int option \<Rightarrow> (string \<times> string) list" where
  "synthesis_headers L rid provider_name model_name dev r chunks duration_ms =
     [(''X-Request-ID'', rid), (''X-Provider'', provider_name), (''X-Model'', model_name), (''X-Device'', dp_device dev),
      (''X-Dtype'', dp_dtype dev), (''X-Voice-Source'', py_str (float_repr L) (vr_source r)), (''X-Voice-Id'', vr_id r)] @
     opt_header ''X-Chunks'' (map_option nat_str chunks) @ opt_header ''X-Total-Duration-Ms'' (map_option int_str duration_ms)"

definition preset_headers :: "stdlib \<Rightarrow> effective_config \<Rightarrow> (string \<times> string) list" where
  "preset_headers L ef = [(''X-Preset-Effective'', format_preset_effective_header L ef)] @
     opt_header ''X-Preset-Ignored-Knobs'' (if ef_ignored_knobs ef = [] then None else Some (join '','' (ef_ignored_knobs ef)))"

definition client_advertises_trailers :: "string \<Rightarrow> bool" where
  "client_advertises_trailers te_header =
     (if te_header = [] then False
      else ''trailers'' \<in> set (map (\<lambda>t. lower (fst (split1 (CHR '';'') (strip t)))) (split_on (CHR '','') te_header)))"

text \<open>The ASGI messages of a response: Starlette's, with the flag on the first and the trailers at the end.\<close>

datatype asgi_message =
    ResponseStart int "(string \<times> string) list" bool
  | ResponseBody bytes bool
  | ResponseTrailers "(string \<times> string) list"

fun flag_start :: "asgi_message \<Rightarrow> asgi_message" where
  "flag_start (ResponseStart st hs _) = ResponseStart st hs True"
| "flag_start m = m"

definition trailer_response_call :: "bool \<Rightarrow> bool \<Rightarrow> nat \<times> int \<Rightarrow> asgi_message list \<Rightarrow> asgi_message list" where
  "trailer_response_call te_trailers server_extension totals messages =
     (if te_trailers \<and> server_extension
      then map flag_start messages @ [ResponseTrailers
        [(''x-chunks'', nat_str (fst totals)), (''x-total-duration-ms'', int_str (snd totals))]]
      else messages)"

subsection \<open>Synthesis\<close>

text \<open>
  What the application holds, and what a request brings besides its payload: the header \<open>TE\<close>, the chunks
  before which its client is gone, and what the temporary directory does for it.
\<close>

record ('s, 'b, 'w) app =
  app_lib :: stdlib
  app_unidata :: unidata
  app_num2words :: num2words
  app_loudness :: loudness
  app_settings :: settings
  app_registry :: "'w synth provider_registry"
  app_selection :: provider_selection
  app_device :: device_profile
  app_metadata :: "'s metadata_ops"
  app_blobs :: "'b blob_ops"

datatype tmp_outcome = TmpFile string | TmpOpenFails py_exc | TmpWriteFails string py_exc

record request_context =
  rq_id :: string
  rq_now :: datetime
  rq_te :: string
  rq_gone :: "nat \<Rightarrow> bool"
  rq_tmp :: tmp_outcome
  rq_snapshot :: preset_registry

datatype 'w synth_response =
    BufferedAudio bytes "(string \<times> string) list"
  | StreamingAudio "'w stream_job" "(string \<times> string) list" bool

definition required_voice :: "synthesize_request \<Rightarrow> effective_config \<Rightarrow> string" where
  "required_voice payload ef = strip (case sr_voice payload of
       Some v \<Rightarrow> if v = [] then dflt (ef_voice ef) [] else v
     | None \<Rightarrow> dflt (ef_voice ef) [])"

definition voice_required :: py_exc where
  "voice_required = invalid_request_code ''voice is required'' (Some ''voice'') ''voice_required''"

definition input_required :: py_exc where
  "input_required = invalid_request ''input is required'' (Some ''input'')"

definition check_input :: "settings \<Rightarrow> utext \<Rightarrow> unit res" where
  "check_input s t =
     (if tstrip t = [] then Inl input_required
      else if tts_max_input_chars s < int (length t)
      then Inl (invalid_request_code (''input length '' @ nat_str (length t) @ '' exceeds TTS_MAX_INPUT_CHARS='' @
        int_str (tts_max_input_chars s)) (Some ''input'') ''input_too_long'')
      else Inr ())"

definition resolve_voice :: "'s metadata_ops \<Rightarrow> 'b blob_ops \<Rightarrow> datetime \<Rightarrow> string \<Rightarrow> 's \<times> 'b \<Rightarrow>
    (voice_record \<times> bytes) res \<times> 's \<times> 'b" where
  "resolve_voice repo blobs now v sb = (case sb of (s, b) \<Rightarrow>
     (case m_get repo now v s of
        (Inl (VoiceNotFound _), s1) \<Rightarrow>
          (Inl (voice_error ''voice_not_found'' (''voice '' @ repr_str v @ '' not found in voice store'') 404 (Some ''voice'')), s1, b)
      | (Inl (VoiceIdInvalid m), s1) \<Rightarrow> (Inl (invalid_request m (Some ''voice'')), s1, b)
      | (Inl e, s1) \<Rightarrow> (Inl e, s1, b)
      | (Inr record, s1) \<Rightarrow> (case b_get blobs v b of
          (Inl (VoiceNotFound _), b1) \<Rightarrow>
            (Inl (voice_error ''voice_blob_missing'' (''voice '' @ repr_str v @ '' metadata exists but blob is missing'') 422
              (Some ''voice'')), s1, b1)
        | (Inl e, b1) \<Rightarrow> (Inl e, s1, b1)
        | (Inr d, b1) \<Rightarrow> (Inr (record, d), s1, b1))))"

fun wrap_failure :: "py_exc \<Rightarrow> py_exc" where
  "wrap_failure (HTTPErr st e) = HTTPErr st e"
| "wrap_failure e = (if is_exception e then internal_error (''Speech generation failed: '' @ exc_str e) else e)"

definition prepare_chunks :: "('s, 'b, 'w) app \<Rightarrow> utext \<Rightarrow> voice_config \<Rightarrow> utext list res" where
  "prepare_chunks A t vc =
     bindE (preprocess_for_tts (app_unidata A) (app_num2words A) t
         (if vc_number_lang vc = [] then vc_language vc else vc_number_lang vc)) (\<lambda>normalized.
     bindE (split_text_semantic normalized (nat (tts_max_input_chars (app_settings A))) (vc_max_sentences vc)) (\<lambda>chunks.
       if chunks = [] then Inl input_required else Inr chunks))"

definition update_headers :: "(string \<times> string) list \<Rightarrow> (string \<times> string) list \<Rightarrow> (string \<times> string) list" where
  "update_headers hs new = fold (\<lambda>kv. AList.update (fst kv) (snd kv)) new hs"

text \<open>What the two paths do once there are chunks; \<open>p\<close> is the temporary file with the reference audio.\<close>

definition stream_path :: "('s, 'b, 'w) app \<Rightarrow> request_context \<Rightarrow> effective_config \<Rightarrow> voice_record \<Rightarrow> string \<Rightarrow> string \<Rightarrow>
    'w synth \<Rightarrow> (utext \<Rightarrow> synthesis_request) \<Rightarrow> pyfloat \<Rightarrow> utext list \<Rightarrow> string \<Rightarrow> 'w world \<Rightarrow> 'w synth_response res \<times> 'w world" where
  "stream_path A rq ef r provider model synth mk db chunks p w =
     (if wd_queue w = 0 then (Inl server_at_capacity, remove_tmp p w)
      else (Inr (StreamingAudio
          \<lparr>sj_request = mk, sj_synth = synth, sj_chunks = chunks, sj_target_db = db, sj_tmp_path = p\<rparr>
          (update_headers (synthesis_headers (app_lib A) (rq_id rq) provider model (app_device A) r None None)
            (preset_headers (app_lib A) ef))
          (client_advertises_trailers (rq_te rq))), acquire_queue w))"

definition merge_audio :: "loudness \<Rightarrow> pyfloat \<Rightarrow> bytes list \<Rightarrow> (bytes \<times> int) res" where
  "merge_audio D db wavs =
     bindE (res_map (\<lambda>wav. normalize_wav_rms D wav db) wavs) (\<lambda>normalized.
     bindE (concat_wav_bytes normalized) (\<lambda>merged. bindE (wav_duration_ms merged) (\<lambda>ms. Inr (merged, ms))))"

definition buffered_path :: "('s, 'b, 'w) app \<Rightarrow> request_context \<Rightarrow> effective_config \<Rightarrow> voice_record \<Rightarrow> string \<Rightarrow> string \<Rightarrow>
    'w synth \<Rightarrow> (utext \<Rightarrow> synthesis_request) \<Rightarrow> pyfloat \<Rightarrow> utext list \<Rightarrow> string \<Rightarrow> 'w world \<Rightarrow> 'w synth_response res \<times> 'w world" where
  "buffered_path A rq ef r provider model synth mk db chunks p w =
     (case run_synthesis (rq_gone rq) mk synth chunks w of
        (Inl e, w1) \<Rightarrow> (Inl (wrap_failure e), remove_tmp p w1)
      | (Inr wavs, w1) \<Rightarrow> (case merge_audio (app_loudness A) db wavs of
          Inl e \<Rightarrow> (Inl (wrap_failure e), remove_tmp p w1)
        | Inr (merged, ms) \<Rightarrow> (Inr (BufferedAudio merged
            (update_headers (synthesis_headers (app_lib A) (rq_id rq) provider model (app_device A) r (Some (length wavs)) (Some ms))
              (preset_headers (app_lib A) ef))), remove_tmp p w1)))"

text \<open>
  The body of the \<open>try\<close>, its \<open>except\<close> clauses and its \<open>finally\<close>. A write that fails leaves the file: its
  path is not assigned yet.
\<close>

definition with_reference_audio :: "('s, 'b, 'w) app \<Rightarrow> request_context \<Rightarrow> synthesize_request \<Rightarrow> effective_config \<Rightarrow> voice_record \<Rightarrow>
    bytes \<Rightarrow> string \<Rightarrow> string \<Rightarrow> string \<Rightarrow> 'w synth \<Rightarrow> 'w world \<Rightarrow> 'w synth_response res \<times> 'w world" where
  "with_reference_audio A rq payload ef r audio v provider model synth w = (case rq_tmp rq of
       TmpOpenFails e \<Rightarrow> (Inl (wrap_failure e), w)
     | TmpWriteFails p e \<Rightarrow> (Inl (wrap_failure e), w\<lparr>wd_tmp := (p, []) # wd_tmp w\<rparr>)
     | TmpFile p \<Rightarrow>
         (let w1 = w\<lparr>wd_tmp := (p, audio) # wd_tmp w\<rparr>;
              vc = build_voice_config r p ef;
              mk = build_synthesis_request model vc v (sr_response_format payload)
          in (case prepare_chunks A (sr_input payload) vc of
             Inl e \<Rightarrow> (Inl (wrap_failure e), remove_tmp p w1)
           | Inr chunks \<Rightarrow>
               (if sr_stream payload then stream_path else buffered_path)
                 A rq ef r provider model synth mk (vc_target_db vc) chunks p w1)))"

definition synthesize_core :: "('s, 'b, 'w) app \<Rightarrow> request_context \<Rightarrow> synthesize_request \<Rightarrow> 's \<times> 'b \<Rightarrow> 'w world \<Rightarrow>
    'w synth_response res \<times> ('s \<times> 'b) \<times> 'w world" where
  "synthesize_core A rq payload sb w =
     (case resolve_preset (app_lib A) payload (rq_snapshot rq) (app_settings A) of
        Inl e \<Rightarrow> (Inl e, sb, w)
      | Inr ef \<Rightarrow>
          (let v = required_voice payload ef in
           if v = [] then (Inl voice_required, sb, w)
           else (case check_input (app_settings A) (sr_input payload) of
               Inl e \<Rightarrow> (Inl e, sb, w)
             | Inr _ \<Rightarrow> (case resolve_voice (app_metadata A) (app_blobs A) (rq_now rq) v sb of
                 (Inl e, sb1) \<Rightarrow> (Inl e, sb1, w)
               | (Inr (r, audio), sb1) \<Rightarrow>
                   (case resolve_provider_and_model (app_settings A) (app_registry A) (app_selection A) ef of
                      Inl e \<Rightarrow> (Inl e, sb1, w)
                    | Inr (provider, model, strategy) \<Rightarrow>
                        (case with_reference_audio A rq payload ef r audio v provider model (pv_impl strategy) w of
                           (res, w1) \<Rightarrow> (res, sb1, w1)))))))"

subsection \<open>Permits and temporary files\<close>

lemmas world_ops = acquire_queue_def release_permit_def remove_tmp_def

lemma run_synthesis_frame:
  "run_synthesis disc mk synth chunks w = (r, w') \<Longrightarrow> wd_queue w' = wd_queue w \<and> wd_tmp w' = wd_tmp w"
  by (auto simp: run_synthesis_def Let_def world_ops split: if_splits prod.splits)

lemma stream_run_frame:
  "stream_run D taken j w = (out, res, tot, w') \<Longrightarrow>
   wd_queue w' = wd_queue w + 1 \<and> wd_tmp w' = AList.delete (sj_tmp_path j) (wd_tmp w)"
  by (auto simp: stream_run_def world_ops split: prod.splits)

lemma buffered_path_frame:
  "buffered_path A rq ef r provider model synth mk db chunks p w = (res, w') \<Longrightarrow>
   wd_queue w' = wd_queue w \<and> wd_tmp w' = AList.delete p (wd_tmp w) \<and> (\<forall>j hs te. res \<noteq> Inr (StreamingAudio j hs te))"
  by (auto simp: buffered_path_def remove_tmp_def dest!: run_synthesis_frame split: prod.splits sum.splits)

lemma stream_path_frame:
  "stream_path A rq ef r provider model synth mk db chunks p w = (res, w') \<Longrightarrow>
   (\<exists>hs te. 0 < wd_queue w \<and> w' = acquire_queue w \<and> res = Inr (StreamingAudio \<lparr>sj_request = mk, sj_synth = synth,
      sj_chunks = chunks, sj_target_db = db, sj_tmp_path = p\<rparr> hs te)) \<or>
   wd_queue w = 0 \<and> w' = remove_tmp p w \<and> res = Inl server_at_capacity"
  by (auto simp: stream_path_def split: if_splits)

text \<open>Everything before the temporary file, in one step.\<close>

definition admitted :: "('s, 'b, 'w) app \<Rightarrow> request_context \<Rightarrow> synthesize_request \<Rightarrow> 's \<times> 'b \<Rightarrow>
    effective_config \<Rightarrow> voice_record \<Rightarrow> bytes \<Rightarrow> string \<Rightarrow> string \<Rightarrow> 'w synth \<Rightarrow> bool" where
  "admitted A rq payload sb ef r audio provider model synth \<longleftrightarrow>
     resolve_preset (app_lib A) payload (rq_snapshot rq) (app_settings A) = Inr ef \<and> required_voice payload ef \<noteq> [] \<and>
     check_input (app_settings A) (sr_input payload) = Inr () \<and>
     fst (resolve_voice (app_metadata A) (app_blobs A) (rq_now rq) (required_voice payload ef) sb) = Inr (r, audio) \<and>
     (\<exists>strategy. resolve_provider_and_model (app_settings A) (app_registry A) (app_selection A) ef =
        Inr (provider, model, strategy) \<and> synth = pv_impl strategy)"

lemma synthesize_core_cases:
  assumes "synthesize_core A rq payload sb w = (res, sb', w')"
  obtains (refused) e where "res = Inl e" "w' = w"
  | (run) ef r audio provider model synth where "admitted A rq payload sb ef r audio provider model synth"
      "with_reference_audio A rq payload ef r audio (required_voice payload ef) provider model synth w = (res, w')"
  using assms
  by (auto simp: synthesize_core_def admitted_def Let_def split: sum.splits if_splits prod.splits)

lemma with_reference_audio_cases:
  assumes "with_reference_audio A rq payload ef r audio v provider model synth w = (res, w')"
    and "\<forall>p e. rq_tmp rq \<noteq> TmpWriteFails p e"
  obtains (failed) e where "res = Inl e" "w' = w"
  | (unprepared) p e where "rq_tmp rq = TmpFile p" "res = Inl e" "w' = remove_tmp p (w\<lparr>wd_tmp := (p, audio) # wd_tmp w\<rparr>)"
  | (prepared) p chunks where "rq_tmp rq = TmpFile p"
      "prepare_chunks A (sr_input payload) (build_voice_config r p ef) = Inr chunks"
      "(if sr_stream payload then stream_path else buffered_path) A rq ef r provider model synth
         (build_synthesis_request model (build_voice_config r p ef) v (sr_response_format payload))
         (vc_target_db (build_voice_config r p ef)) chunks p (w\<lparr>wd_tmp := (p, audio) # wd_tmp w\<rparr>) = (res, w')"
  using assms by (auto simp: with_reference_audio_def Let_def split: tmp_outcome.splits sum.splits)

lemma synthesize_core_frame:
  assumes "synthesize_core A rq payload sb w = (res, sb', w')"
    and "\<forall>p. rq_tmp rq = TmpFile p \<longrightarrow> p \<notin> fst ` set (wd_tmp w)"
    and "\<forall>p e. rq_tmp rq \<noteq> TmpWriteFails p e"
  shows "case res of
      Inr (StreamingAudio job hs te) \<Rightarrow>
        wd_queue w = wd_queue w' + 1 \<and> wd_engine w' = wd_engine w \<and>
        (\<exists>audio. wd_tmp w' = (sj_tmp_path job, audio) # wd_tmp w) \<and>
        (\<forall>D taken. case stream_run D taken job w' of (out, end_res, tot, w'') \<Rightarrow>
           wd_queue w'' = wd_queue w \<and> wd_tmp w'' = wd_tmp w)
    | _ \<Rightarrow> wd_queue w' = wd_queue w \<and> wd_tmp w' = wd_tmp w"
  using assms(1)
proof (cases rule: synthesize_core_cases)
  case refused
  then show ?thesis by simp
next
  case (run ef r audio provider model synth)
  from run(2) assms(3) show ?thesis
  proof (cases rule: with_reference_audio_cases)
    case failed
    then show ?thesis by simp
  next
    case (unprepared p e)
    then show ?thesis using assms(2) by (simp add: remove_tmp_def)
  next
    case (prepared p chunks)
    then have fresh: "AList.delete p (wd_tmp w) = wd_tmp w" using assms(2) by (simp add: delete_idem)
    show ?thesis
    proof (cases "sr_stream payload")
      case True
      then show ?thesis using prepared(3) fresh
        by (auto simp: acquire_queue_def remove_tmp_def dest!: stream_path_frame stream_run_frame split: prod.splits)
    next
      case False
      then show ?thesis using prepared(3) fresh
        by (auto dest!: buffered_path_frame split: sum.splits synth_response.splits)
    qed
  qed
qed


subsection \<open>The checks before the engine\<close>

context voice_store
begin

text \<open>Whatever the backends: a voice that resolves is stored with its audio, and resolving changes neither store.\<close>

lemma resolve_voice_ok:
  assumes i: "inv s" "binv b" and run: "resolve_voice repo blobs now v (s, b) = (res, s', b')"
  shows "inv s' \<and> abs s' = abs s \<and> binv b' \<and> babs b' = babs b \<and>
    (case res of Inr (r, d) \<Rightarrow> voice_id_regex v \<and> abs s v = Some r \<and> babs b v = Some d \<and> vr_id r = v
     | Inl e \<Rightarrow> \<not> voice_id_regex v \<or> abs s v = None \<or> babs b v = None \<or> backend_failure e)"
proof (cases "voice_id_regex v")
  case False
  then obtain m where "validate_voice_id v = Inl (VoiceIdInvalid m)" by (auto simp: validate_voice_id_def)
  from get_invalid [OF this] run i False show ?thesis by (auto simp: resolve_voice_def)
next
  case True
  obtain r1 s1 where g: "m_get repo now v s = (r1, s1)" by fastforce
  note ok = get_ok [OF i(1) g True]
  show ?thesis
  proof (cases r1)
    case (Inl e)
    with ok have "e = VoiceNotFound v \<and> abs s v = None \<or> backend_failure e" by simp
    with ok run g Inl i show ?thesis
      by (cases e) (auto simp: resolve_voice_def)
  next
    case (Inr r)
    obtain r2 b1 where bg: "b_get blobs v b = (r2, b1)" by fastforce
    note bok = bget_ok [OF i(2) bg True]
    show ?thesis
    proof (cases r2)
      case (Inl e)
      with bok have "e = VoiceNotFound v \<and> babs b v = None \<or> backend_failure e" by simp
      with bok ok run g bg Inl Inr show ?thesis
        by (cases e) (auto simp: resolve_voice_def)
    next
      case Inr': (Inr d)
      with bok ok run g bg Inr abs_id [OF i(1)] True show ?thesis by (auto simp: resolve_voice_def)
    qed
  qed
qed

end

text \<open>
  Which answer a voice id gets, with the file backends. An id that breaks the naming rule is a 400, an unknown one
  a 404, one whose audio is missing a 422, each naming the parameter; otherwise the stored record and its
  audio. No store changes.
\<close>

theorem resolve_voice_exact:
  assumes "meta_inv L s"
  shows "resolve_voice (fs_metadata_repo L) fs_blob_repo now v (s, b) =
    (if \<not> voice_id_regex v then Inl (invalid_request (''voice id '' @ repr_str v @ '' must match '' @ voice_id_pattern) (Some ''voice''))
     else (case meta_abs L s v of
         None \<Rightarrow> Inl (voice_error ''voice_not_found'' (''voice '' @ repr_str v @ '' not found in voice store'') 404 (Some ''voice''))
       | Some r \<Rightarrow> (case blob_abs b v of
           None \<Rightarrow> Inl (voice_error ''voice_blob_missing'' (''voice '' @ repr_str v @ '' metadata exists but blob is missing'') 422
             (Some ''voice''))
         | Some d \<Rightarrow> Inr (r, d))), s, b)"
proof (cases "voice_id_regex v")
  case True
  with assms show ?thesis
    by (simp add: resolve_voice_def fs_metadata_repo_sel fs_blob_repo_sel fs_get_ok fsb_get_ok split: option.split)
next
  case False
  then show ?thesis by (simp add: resolve_voice_def fs_metadata_repo_sel fs_get_def validate_voice_id_def)
qed

lemma unprepared_engine: "wd_engine (remove_tmp p w) = wd_engine w"
  by (simp add: remove_tmp_def)

lemma buffered_engine:
  "buffered_path A rq ef r provider model synth mk db chunks p w = (res, w') \<Longrightarrow>
   (\<exists>x. res = Inr x) \<or> wd_engine w' \<noteq> wd_engine w \<Longrightarrow> 0 < wd_queue w"
  by (cases "wd_queue w = 0") (auto simp: buffered_path_def run_synthesis_def remove_tmp_def split: sum.splits)

lemma prepared_queue:
  assumes "(if stream then stream_path else buffered_path) A rq ef r provider model synth mk db chunks p
      (w\<lparr>wd_tmp := t\<rparr>) = (res, w')"
    and "(\<exists>x. res = Inr x) \<or> wd_engine w' \<noteq> wd_engine w"
  shows "0 < wd_queue w"
  using assms by (cases stream) (auto simp: unprepared_engine dest!: stream_path_frame dest: buffered_engine)

text \<open>
  C14: the engine runs for admissible requests only. If a request is answered with audio, or the engine was run for it
  at all, then its preset exists, its voice is stored with its audio, its text is neither blank nor
  over the limit, the provider is registered, the model is one the settings allow for it, and a permit of the queue was free.
  No request changes the voice store.
\<close>

theorem synthesis_needs_admission:
  assumes "app_metadata A = fs_metadata_repo L" "app_blobs A = fs_blob_repo" "meta_inv L s"
    and "synthesize_core A rq payload (s, b) w = (res, (s', b'), w')"
    and "(\<exists>x. res = Inr x) \<or> wd_engine w' \<noteq> wd_engine w" "\<forall>p e. rq_tmp rq \<noteq> TmpWriteFails p e"
  shows "s' = s \<and> b' = b \<and> 0 < wd_queue w \<and> tstrip (sr_input payload) \<noteq> [] \<and>
    int (length (sr_input payload)) \<le> tts_max_input_chars (app_settings A) \<and>
    (\<exists>ef r audio provider model strategy.
      resolve_preset (app_lib A) payload (rq_snapshot rq) (app_settings A) = Inr ef \<and>
      meta_abs L s (required_voice payload ef) = Some r \<and> blob_abs b (required_voice payload ef) = Some audio \<and>
      registry_find (app_registry A) provider = Some strategy \<and>
      resolve_provider_and_model (app_settings A) (app_registry A) (app_selection A) ef = Inr (provider, model, strategy) \<and>
      (model_allowed_for (app_settings A) provider = [] \<or> model \<in> set (model_allowed_for (app_settings A) provider)))"
  using assms(4)
proof (cases rule: synthesize_core_cases)
  case refused
  then show ?thesis using assms(5) by simp
next
  case (run ef r audio provider model synth)
  from run(2) assms(6) have queue: "0 < wd_queue w"
    by (cases rule: with_reference_audio_cases) (use assms(5) in \<open>auto simp: unprepared_engine dest: prepared_queue\<close>)
  obtain strategy where st: "resolve_provider_and_model (app_settings A) (app_registry A) (app_selection A) ef =
      Inr (provider, model, strategy)" using run(1) by (auto simp: admitted_def)
  have v: "resolve_voice (fs_metadata_repo L) fs_blob_repo (rq_now rq) (required_voice payload ef) (s, b) = (Inr (r, audio), s', b')"
    using run(1) assms(1,2,4) st
    by (auto simp: admitted_def synthesize_core_def Let_def split: sum.splits prod.splits if_splits)
  from fsstore.resolve_voice_ok [OF assms(3) _ v] have stored:
    "meta_abs L s (required_voice payload ef) = Some r" "blob_abs b (required_voice payload ef) = Some audio"
    "voice_id_regex (required_voice payload ef)" by auto
  have same: "s' = s \<and> b' = b"
    using v assms(3) stored
    by (auto simp: resolve_voice_def fs_metadata_repo_sel fs_blob_repo_sel fs_get_ok fsb_get_ok split: option.splits)
  show ?thesis
    using run(1) st queue stored same resolve_model_ok [OF st]
    by (auto simp: admitted_def check_input_def split: if_splits)
qed

subsection \<open>The audio of a buffered response\<close>

text \<open>The engine answers a sequence of requests, each with its list of payloads.\<close>

inductive engine_runs :: "'w synth \<Rightarrow> (string \<Rightarrow> bytes option) \<Rightarrow> synthesis_request list \<Rightarrow> 'w \<Rightarrow> bytes list list \<Rightarrow> 'w \<Rightarrow> bool"
  for synth files where
  idle: "engine_runs synth files [] g [] g"
| answer: "synth req files g = (Inr rs, g1) \<Longrightarrow> engine_runs synth files reqs g1 out g2 \<Longrightarrow>
    engine_runs synth files (req # reqs) g (rs # out) g2"

inductive_cases engine_runs_NilE: "engine_runs synth files [] g out g'"
inductive_cases engine_runs_ConsE: "engine_runs synth files (req # reqs) g out g'"

lemma run_loop_runs:
  "run_loop disc mk synth files i cs g = (Inr out, g') \<Longrightarrow>
   \<exists>outs. engine_runs synth files (map mk cs) g outs g' \<and> concat outs = out"
proof (induction cs arbitrary: i g out)
  case Nil
  then show ?case by (auto intro!: exI [where x = "[]"] engine_runs.idle)
next
  case (Cons c cs)
  from Cons.prems obtain rs g1 rest where s: "synth (mk c) files g = (Inr rs, g1)" "out = rs @ rest"
      "run_loop disc mk synth files (i + 1) cs g1 = (Inr rest, g')"
    by (auto split: if_splits prod.splits sum.splits)
  from Cons.IH [OF s(3)] obtain outs where "engine_runs synth files (map mk cs) g1 outs g'" "concat outs = rest" by blast
  with s show ?case by (auto intro!: exI [where x = "rs # outs"] engine_runs.answer)
qed

lemma update_headers_other:
  "k \<notin> fst ` set new \<Longrightarrow> map_of (update_headers hs new) k = map_of hs k"
  unfolding update_headers_def by (induction new arbitrary: hs) (auto simp: update_conv)

lemma opt_header_key: "(k, v) \<in> set (opt_header h x) \<Longrightarrow> k = h"
  by (simp add: opt_header_def split: option.splits)

lemma preset_header_keys: "fst ` set (preset_headers L ef) \<subseteq> {''X-Preset-Effective'', ''X-Preset-Ignored-Knobs''}"
  by (auto simp: preset_headers_def dest: opt_header_key)

lemma synthesis_header_counts:
  "map_of (update_headers (synthesis_headers L rid p m dev r (Some n) (Some ms)) (preset_headers L ef)) ''X-Chunks'' = Some (nat_str n)"
  "map_of (update_headers (synthesis_headers L rid p m dev r (Some n) (Some ms)) (preset_headers L ef)) ''X-Total-Duration-Ms'' =
     Some (int_str ms)"
proof -
  have "''X-Chunks'' \<notin> fst ` set (preset_headers L ef)" "''X-Total-Duration-Ms'' \<notin> fst ` set (preset_headers L ef)"
    using preset_header_keys [of L ef] by blast+
  then show "map_of (update_headers (synthesis_headers L rid p m dev r (Some n) (Some ms)) (preset_headers L ef)) ''X-Chunks'' =
      Some (nat_str n)"
    "map_of (update_headers (synthesis_headers L rid p m dev r (Some n) (Some ms)) (preset_headers L ef)) ''X-Total-Duration-Ms'' =
      Some (int_str ms)"
    by (simp_all add: update_headers_other synthesis_headers_def opt_header_def)
qed

lemma prepare_chunks_Inr:
  assumes "prepare_chunks A t vc = Inr chunks"
  obtains plain where "preprocess_for_tts (app_unidata A) (app_num2words A) t
      (if vc_number_lang vc = [] then vc_language vc else vc_number_lang vc) = Inr plain"
    "concat (map nonspace chunks) = nonspace plain" "chunks \<noteq> []"
  using assms by (auto simp: prepare_chunks_def bindE_Inr_iff split_text_semantic_content split: if_splits)

lemma buffered_path_Inr:
  assumes "buffered_path A rq ef r provider model synth mk db chunks p w = (Inr res, w')"
  obtains outs normalized audio ms hs where "engine_runs synth (map_of (wd_tmp w)) (map mk chunks) (wd_engine w) outs (wd_engine w')"
    "res_map (\<lambda>wav. normalize_wav_rms (app_loudness A) wav db) (concat outs) = Inr normalized"
    "concat_wav_bytes normalized = Inr audio" "wav_duration_ms audio = Inr ms" "res = BufferedAudio audio hs"
    "map_of hs ''X-Chunks'' = Some (nat_str (length (concat outs)))" "map_of hs ''X-Total-Duration-Ms'' = Some (int_str ms)"
proof -
  from assms obtain wavs w1 audio ms where s: "run_synthesis (rq_gone rq) mk synth chunks w = (Inr wavs, w1)"
      "merge_audio (app_loudness A) db wavs = Inr (audio, ms)" "w' = remove_tmp p w1"
      "res = BufferedAudio audio (update_headers (synthesis_headers (app_lib A) (rq_id rq) provider model (app_device A) r
         (Some (length wavs)) (Some ms)) (preset_headers (app_lib A) ef))"
    by (auto simp: buffered_path_def split: prod.splits sum.splits)
  from s(1) obtain g where g: "run_loop (rq_gone rq) mk synth (map_of (wd_tmp w)) 0 chunks (wd_engine w) = (Inr wavs, g)"
      "wd_engine w1 = g"
    by (auto simp: run_synthesis_def acquire_queue_def release_permit_def Let_def split: if_splits prod.splits)
  from run_loop_runs [OF g(1)] obtain outs where
    o: "engine_runs synth (map_of (wd_tmp w)) (map mk chunks) (wd_engine w) outs g" "concat outs = wavs" by blast
  from s(2) obtain normalized where
    "res_map (\<lambda>wav. normalize_wav_rms (app_loudness A) wav db) wavs = Inr normalized"
    "concat_wav_bytes normalized = Inr audio" "wav_duration_ms audio = Inr ms"
    by (auto simp: merge_audio_def bindE_Inr_iff)
  with o g(2) s(3,4) that show ?thesis
    by (simp add: unprepared_engine synthesis_header_counts del: length_concat)
qed

text \<open>
  C4: what a buffered response says is the text of the request, all of it. The engine was called once for every chunk of
  the pre-processed text, in order, with the stored reference audio in the file the request names; the chunks
  hold every character of that text but white space; and the audio of the response is the concatenation of
  everything the engine returned, loudness-normalized, with its number of payloads and its duration in the headers.
\<close>

theorem buffered_audio_complete:
  assumes "synthesize_core A rq payload sb w = (Inr (BufferedAudio audio hs), sb', w')"
    and "\<forall>p e. rq_tmp rq \<noteq> TmpWriteFails p e"
  shows "\<exists>ef r ref provider model synth p plain chunks outs normalized ms.
    admitted A rq payload sb ef r ref provider model synth \<and> rq_tmp rq = TmpFile p \<and>
    (let vc = build_voice_config r p ef in
      preprocess_for_tts (app_unidata A) (app_num2words A) (sr_input payload)
        (if vc_number_lang vc = [] then vc_language vc else vc_number_lang vc) = Inr plain \<and>
      chunks \<noteq> [] \<and> concat (map nonspace chunks) = nonspace plain \<and>
      engine_runs synth (map_of ((p, ref) # wd_tmp w))
        (map (build_synthesis_request model vc (required_voice payload ef) (sr_response_format payload)) chunks)
        (wd_engine w) outs (wd_engine w') \<and>
      res_map (\<lambda>wav. normalize_wav_rms (app_loudness A) wav (vc_target_db vc)) (concat outs) = Inr normalized \<and>
      concat_wav_bytes normalized = Inr audio \<and> wav_duration_ms audio = Inr ms \<and>
      map_of hs ''X-Chunks'' = Some (nat_str (length (concat outs))) \<and>
      map_of hs ''X-Total-Duration-Ms'' = Some (int_str ms))"
  using assms(1)
proof (cases rule: synthesize_core_cases)
  case refused
  then show ?thesis by simp
next
  case (run ef r ref provider model synth)
  from run(2) assms(2) show ?thesis
  proof (cases rule: with_reference_audio_cases)
    case failed
    then show ?thesis by simp
  next
    case (unprepared p e)
    then show ?thesis by simp
  next
    case (prepared p chunks)
    let ?vc = "build_voice_config r p ef"
    let ?mk = "build_synthesis_request model ?vc (required_voice payload ef) (sr_response_format payload)"
    obtain plain where t: "preprocess_for_tts (app_unidata A) (app_num2words A) (sr_input payload)
        (if vc_number_lang ?vc = [] then vc_language ?vc else vc_number_lang ?vc) = Inr plain"
      "concat (map nonspace chunks) = nonspace plain" "chunks \<noteq> []" using prepared(2) by (rule prepare_chunks_Inr)
    have "\<not> sr_stream payload" using prepared(3) by (auto dest!: stream_path_frame)
    then have "buffered_path A rq ef r provider model synth ?mk (vc_target_db ?vc) chunks p (w\<lparr>wd_tmp := (p, ref) # wd_tmp w\<rparr>) =
      (Inr (BufferedAudio audio hs), w')" using prepared(3) by simp
    then show ?thesis
      by (rule buffered_path_Inr) (use run(1) prepared(1) t in \<open>fastforce simp: Let_def\<close>)
  qed
qed

subsection \<open>Streaming and buffering agree\<close>

definition one_per_request :: "'w synth \<Rightarrow> bool" where
  "one_per_request synth \<longleftrightarrow> (\<forall>req files g rs g'. synth req files g = (Inr rs, g') \<longrightarrow> length rs = 1)"

lemma stream_loop_matches:
  assumes "one_per_request synth"
  shows "run_loop disc mk synth files i cs g = (Inr wavs, g') \<Longrightarrow>
    res_map (\<lambda>wav. normalize_wav_rms D wav db) wavs = Inr ns \<Longrightarrow> res_map wav_duration_ms ns = Inr ds \<Longrightarrow>
    stream_loop D db mk synth files None cs (n, ms) g = (ns, Inr (), (n + length ns, ms + sum_list ds), g') \<and> length wavs = length cs"
proof (induction cs arbitrary: i g wavs ns ds n ms)
  case Nil
  then show ?case by auto
next
  case (Cons c cs)
  from Cons.prems(1) obtain rs g1 rest where s: "synth (mk c) files g = (Inr rs, g1)" "wavs = rs @ rest"
      "run_loop disc mk synth files (i + 1) cs g1 = (Inr rest, g')"
    by (auto split: if_splits prod.splits sum.splits)
  with assms obtain r where r: "rs = [r]" by (force simp: one_per_request_def length_Suc_conv)
  with s(2) Cons.prems(2) obtain wav ns' where n: "normalize_wav_rms D r db = Inr wav"
      "res_map (\<lambda>wav. normalize_wav_rms D wav db) rest = Inr ns'" "ns = wav # ns'"
    by (auto split: sum.splits)
  with Cons.prems(3) obtain d ds' where "wav_duration_ms wav = Inr d" "res_map wav_duration_ms ns' = Inr ds'" "ds = d # ds'"
    by (auto split: sum.splits)
  with Cons.IH [OF s(3) n(2)] s(1,2) r n show ?case by simp
qed

lemma concat_loop_read: "concat_loop params frames items = Inr x \<Longrightarrow> b \<in> set items \<Longrightarrow> \<exists>a. wave_read b = Inr a"
  by (induction items arbitrary: params frames) (auto split: sum.splits option.splits if_splits)

lemma concat_durations:
  assumes "concat_wav_bytes ns = Inr audio" "wav_duration_ms audio = Inr ms"
  shows "\<exists>ds. res_map wav_duration_ms ns = Inr ds"
proof -
  have "\<exists>d. wav_duration_ms b = Inr d" if b: "b \<in> set ns" for b
  proof (cases "tl ns = []")
    case True
    with b have "ns = [b]" by (cases ns) auto
    with assms show ?thesis by (auto simp: concat_wav_bytes_def)
  next
    case False
    then obtain x y zs where "ns = x # y # zs" by (cases ns rule: remdups_adj.cases) auto
    with assms(1) b have "\<exists>a. wave_read b = Inr a"
      by (auto simp del: concat_loop.simps simp: concat_wav_two split: sum.splits option.splits prod.splits dest: concat_loop_read)
    then show ?thesis by (auto simp: wav_duration_ms_def)
  qed
  then have "res_map wav_duration_ms ns = Inr (map (\<lambda>b. SOME d. wav_duration_ms b = Inr d) ns)"
    by (intro res_map_all) (metis (mono_tags, lifting) someI_ex)
  then show ?thesis by blast
qed

lemma resolve_preset_stream: "resolve_preset L (payload\<lparr>sr_stream := b\<rparr>) snapshot s = resolve_preset L payload snapshot s"
  by (cases payload, hypsubst, unfold resolve_preset_def preset_name_of_def synthesize_request.update_convs
      synthesize_request.select_convs, rule refl)

lemma stream_independent:
  "admitted A rq (payload\<lparr>sr_stream := b\<rparr>) sb ef r audio provider model synth = admitted A rq payload sb ef r audio provider model synth"
  "required_voice (payload\<lparr>sr_stream := b\<rparr>) ef = required_voice payload ef"
  by (simp_all add: admitted_def resolve_preset_stream required_voice_def)

lemma synthesize_core_admitted:
  assumes "admitted A rq payload sb ef r audio provider model synth"
  shows "\<exists>sb'. synthesize_core A rq payload sb w = (case with_reference_audio A rq payload ef r audio (required_voice payload ef)
      provider model synth w of (res, w1) \<Rightarrow> (res, sb', w1))"
  using assms
  by (cases "resolve_voice (app_metadata A) (app_blobs A) (rq_now rq) (required_voice payload ef) sb")
    (auto simp: admitted_def synthesize_core_def Let_def split: prod.splits)

lemma admitted_registered:
  "admitted A rq payload sb ef r audio provider model synth \<Longrightarrow> \<exists>st. (provider, st) \<in> set (app_registry A) \<and> synth = pv_impl st"
  by (auto simp: admitted_def registry_find_def dest!: resolve_model_ok) (blast dest: map_of_SomeD)+


text \<open>What the totals count.\<close>

lemma stream_loop_totals:
  "stream_loop D db mk synth files taken cs (n, ms) g = (out, res, (n', ms'), g') \<Longrightarrow>
   \<exists>ds. res_map wav_duration_ms out = Inr ds \<and> ms' = ms + sum_list ds \<and>
     (n' = n + length out \<or> n' = n + length out + 1 \<and> (\<exists>wav e. res = Inl e \<and> wav_duration_ms wav = Inl e)) \<and>
     (\<forall>k. taken = Some k \<and> 1 \<le> k \<longrightarrow> length out \<le> k)"
proof (induction cs arbitrary: taken n ms g out)
  case Nil
  then show ?case by auto
next
  case (Cons c cs)
  show ?case
  proof (cases "\<exists>r rs g1 wav d. synth (mk c) files g = (Inr (r # rs), g1) \<and> normalize_wav_rms D r db = Inr wav \<and>
      wav_duration_ms wav = Inr d")
    case True
    then obtain r rs g1 wav d where s: "synth (mk c) files g = (Inr (r # rs), g1)" "normalize_wav_rms D r db = Inr wav"
      "wav_duration_ms wav = Inr d" by blast
    show ?thesis
    proof (cases "taken = Some 1")
      case True
      with Cons.prems s show ?thesis by auto
    next
      case False
      with Cons.prems s obtain out' where o: "out = wav # out'"
        "stream_loop D db mk synth files (map_option (\<lambda>k. k - 1) taken) cs (n + 1, ms + d) g1 = (out', res, (n', ms'), g')"
        by (auto split: prod.splits)
      from Cons.IH [OF o(2)] obtain ds where ds: "res_map wav_duration_ms out' = Inr ds" "ms' = ms + d + sum_list ds"
        "n' = n + 1 + length out' \<or> n' = n + 1 + length out' + 1 \<and> (\<exists>wav e. res = Inl e \<and> wav_duration_ms wav = Inl e)"
        "\<forall>k. map_option (\<lambda>k. k - 1) taken = Some k \<and> 1 \<le> k \<longrightarrow> length out' \<le> k" by blast
      have "length out \<le> k" if "taken = Some k" "1 \<le> k" for k
        using ds(4) that False o(1) by (cases "k = 1") force+
      with o(1) ds(1-3) s(3) show ?thesis by (intro exI [where x = "d # ds"]) auto
    qed
  next
    case False
    with Cons.prems show ?thesis by (auto split: prod.splits sum.splits list.splits)
  qed
qed

definition body_messages :: "asgi_message list \<Rightarrow> asgi_message list" where
  "body_messages = filter (\<lambda>m. case m of ResponseBody _ _ \<Rightarrow> True | _ \<Rightarrow> False)"

lemma body_messages_flagged: "body_messages (map flag_start ms) = body_messages ms"
proof (induction ms)
  case (Cons m ms)
  then show ?case by (cases m) (simp_all add: body_messages_def)
qed (simp add: body_messages_def)

text \<open>
  The trailers tell what was sent. When a stream has ended without an exception, read to its end or closed by the
  client, its totals are the number of chunks that went out and the sum of their durations. A client that takes
  trailers, on a server that has them, gets these two numbers after the body, announced in the first
  message; any other client gets the plain response; and the body is the same for both.
\<close>

theorem stream_trailers_exact:
  assumes "stream_run D taken job w = (out, Inr (), totals, w')"
  shows "fst totals = length out \<and>
    (\<exists>ds. list_all2 (\<lambda>wav d. wav_duration_ms wav = Inr d) out ds \<and> snd totals = sum_list ds) \<and>
    (\<forall>k. taken = Some k \<and> 1 \<le> k \<longrightarrow> length out \<le> k) \<and>
    body_messages (trailer_response_call te ext totals messages) = body_messages messages \<and>
    (if te \<and> ext then
       last (trailer_response_call te ext totals messages) = ResponseTrailers
         [(''x-chunks'', nat_str (length out)), (''x-total-duration-ms'', int_str (snd totals))] \<and>
       (\<forall>st hs b. ResponseStart st hs b \<in> set (trailer_response_call te ext totals messages) \<longrightarrow> b)
     else trailer_response_call te ext totals messages = messages)"
proof -
  from assms obtain g where "stream_loop D (sj_target_db job) (sj_request job) (sj_synth job) (map_of (wd_tmp w)) taken
      (sj_chunks job) (0, 0) (wd_engine w) = (out, Inr (), (fst totals, snd totals), g)"
    by (auto simp: stream_run_def split: prod.splits)
  from stream_loop_totals [OF this] have t: "fst totals = length out"
    "\<exists>ds. list_all2 (\<lambda>wav d. wav_duration_ms wav = Inr d) out ds \<and> snd totals = sum_list ds"
    "\<forall>k. taken = Some k \<and> 1 \<le> k \<longrightarrow> length out \<le> k"
    by (auto simp: res_map_Inr)
  have flagged: "ResponseStart st hs b = flag_start m \<Longrightarrow> b" for st hs b m by (cases m) auto
  have "body_messages (trailer_response_call te ext totals messages) = body_messages messages"
    using body_messages_flagged [of messages] by (simp add: trailer_response_call_def) (simp add: body_messages_def)
  with t flagged show ?thesis by (auto simp: trailer_response_call_def)
qed

subsection \<open>A concrete request\<close>

definition sample_pcm :: bytes where
  "sample_pcm = wave_header 1 2 8000 (length [0, 0 :: byte]) @ [0, 0]"

definition sample_engine :: "nat synth" where
  "sample_engine req files g = (Inr [sample_pcm], g + 1)"

definition sample_stored :: meta_fs where
  "sample_stored = snd (fs_create sample_stdlib sample_time sample_voice sample_meta)"

definition sample_audio_store :: blob_fs where
  "sample_audio_store = \<lparr>bf_files = [(''mario.wav'', [7, 7])], bf_faults = [], bf_tmp = 0\<rparr>"

definition sample_app :: "(meta_fs, blob_fs, nat) app" where
  "sample_app = \<lparr>app_lib = sample_stdlib, app_unidata = ascii_unidata, app_num2words = None, app_loudness = plain_loudness,
     app_settings = default_settings,
     app_registry = [(''mlx_audio'', \<lparr>pv_name = ''mlx_audio'', pv_devices = [''cpu''], pv_impl = sample_engine\<rparr>)],
     app_selection = \<lparr>sel_provider = ''mlx_audio'', sel_device = ''cpu'', sel_source = ''auto''\<rparr>,
     app_device = \<lparr>dp_device = ''cpu'', dp_dtype = ''float32'', dp_source = ''auto''\<rparr>,
     app_metadata = fs_metadata_repo sample_stdlib, app_blobs = fs_blob_repo\<rparr>"

definition sample_request :: request_context where
  "sample_request = \<lparr>rq_id = ''r1'', rq_now = sample_time, rq_te = ''trailers'', rq_gone = (\<lambda>_. False),
     rq_tmp = TmpFile ''/tmp/voice-mario-1.wav'', rq_snapshot = [(''balanced'', sample_entry (Fin 1))]\<rparr>"

definition sample_payload :: "bool \<Rightarrow> synthesize_request" where
  "sample_payload stream = \<lparr>sr_input = ustr ''ciao'', sr_voice = Some ''mario'', sr_provider = None, sr_model = None,
     sr_response_format = ''wav'', sr_stream = stream, sr_preset = None, sr_normalize_db = None, sr_max_sentences = None,
     sr_language = None, sr_number_lang = None, sr_temperature = None, sr_top_p = None\<rparr>"

definition sample_world :: "nat world" where
  "sample_world = \<lparr>wd_queue = 2, wd_tmp = [], wd_engine = 0\<rparr>"

lemma sample_stored_facts [simp]:
  "meta_inv sample_stdlib sample_stored" "meta_abs sample_stdlib sample_stored ''mario'' = Some sample_voice"
proof -
  obtain r s where c: "fs_create sample_stdlib sample_time sample_voice sample_meta = (r, s)" by fastforce
  have id: "vr_id sample_voice = ''mario''" by (simp add: sample_voice_def)
  have v: "voice_id_regex ''mario''" using sample_voice_storable by (simp add: storable_def id)
  have "\<exists>y. r = Inr y"
    using c v by (auto simp: fs_create_def id validate_voice_id_def load_all_def sample_meta_def empty_fs_def atomic_write_def
        Let_def split: if_splits sum.splits)
  with fs_create_ok [OF sample_meta_facts(1) sample_voice_storable c] c id
  show "meta_inv sample_stdlib sample_stored" "meta_abs sample_stdlib sample_stored ''mario'' = Some sample_voice"
    by (auto simp: sample_stored_def)
qed

lemma mario_valid [simp]: "voice_id_regex ''mario''"
  using sample_voice_storable by (simp add: storable_def sample_voice_def)

lemma sample_resolve_voice:
  "resolve_voice (fs_metadata_repo sample_stdlib) fs_blob_repo now ''mario'' (sample_stored, sample_audio_store) =
     (Inr (sample_voice, [7, 7]), sample_stored, sample_audio_store)"
  by (simp add: resolve_voice_def fs_metadata_repo_sel fs_blob_repo_sel fs_get_ok fsb_get_ok)
    (simp add: blob_abs_def sample_audio_store_def blob_suffix_def)

lemma sample_prepare:
  "vc_max_sentences vc = 2 \<Longrightarrow> prepare_chunks sample_app (ustr ''ciao'') vc = Inr [ustr ''ciao'']"
  by (simp add: prepare_chunks_def sample_app_def preprocess_no_digits ascii_unidata_def isd_def ustr_def clean_punctuation_def
      is_dot_def is_mark_def tstrip_def strip_by_def space_cp_def Let_def split_text_semantic_def split_sentences_def
      paragraph_sentences_def sentence_end_def flush_def default_settings_def)

definition sample_config :: effective_config where
  "sample_config = \<lparr>ef_preset_name = ''balanced'', ef_provider = None, ef_model = None, ef_temperature = Some (Fin 1),
     ef_top_p = None, ef_max_sentences = None, ef_normalize_db = None, ef_response_format = ''wav'', ef_postprocess = None,
     ef_language = None, ef_number_lang = None, ef_voice = Some ''mario'', ef_ignored_knobs = [], ef_overrides = []\<rparr>"

lemma sample_resolve:
  "resolve_preset sample_stdlib (sample_payload stream) (rq_snapshot sample_request) default_settings = Inr sample_config"
  by (simp add: resolve_preset_def sample_payload_def sample_request_def preset_name_of_def preset_get_def sample_entry_def
      pick_def pipeline_supported_formats_def sample_config_def Let_def)

lemma sample_resolve_provider:
  "resolve_provider_and_model default_settings (app_registry sample_app) (app_selection sample_app) sample_config =
     Inr (''mlx_audio'', ''Qwen/Qwen3-TTS-12Hz-0.6B-Base'', \<lparr>pv_name = ''mlx_audio'', pv_devices = [''cpu''], pv_impl = sample_engine\<rparr>)"
  by (simp add: resolve_provider_and_model_def sample_config_def sample_app_def or_stripped_def registry_get_def Let_def strip_def
      strip_by_def model_default_for_def model_allowed_for_def)
    (simp add: default_settings_def)

lemma sample_core:
  "synthesize_core sample_app sample_request (sample_payload stream) (sample_stored, sample_audio_store) sample_world =
     (case with_reference_audio sample_app sample_request (sample_payload stream) sample_config sample_voice [7, 7] ''mario''
        ''mlx_audio'' ''Qwen/Qwen3-TTS-12Hz-0.6B-Base'' sample_engine sample_world of
        (res, w1) \<Rightarrow> (res, (sample_stored, sample_audio_store), w1))"
proof -
  have app: "app_lib sample_app = sample_stdlib" "app_settings sample_app = default_settings"
      "app_metadata sample_app = fs_metadata_repo sample_stdlib" "app_blobs sample_app = fs_blob_repo"
    by (simp_all add: sample_app_def)
  have v: "required_voice (sample_payload stream) sample_config = ''mario''"
    by (simp add: required_voice_def sample_payload_def strip_def strip_by_def is_space_def space_cp_def)
  have i: "check_input default_settings (sr_input (sample_payload stream)) = Inr ()"
    by (simp add: check_input_def sample_payload_def ustr_def tstrip_def strip_by_def space_cp_def)
      (simp add: default_settings_def)
  show ?thesis
    by (simp add: synthesize_core_def app sample_resolve v i sample_resolve_voice sample_resolve_provider Let_def)
qed

lemma sample_sel [simp]:
  "rq_tmp sample_request = TmpFile ''/tmp/voice-mario-1.wav''" "rq_te sample_request = ''trailers''"
  "rq_gone sample_request = (\<lambda>_. False)" "sr_input (sample_payload b) = ustr ''ciao''" "sr_stream (sample_payload b) = b"
  "wd_queue sample_world = 2" "wd_tmp sample_world = []" "wd_engine sample_world = 0"
  by (simp_all add: sample_payload_def sample_request_def sample_world_def)

definition sample_vc :: voice_config where
  "sample_vc = build_voice_config sample_voice ''/tmp/voice-mario-1.wav'' sample_config"

lemma sample_run:
  "synthesize_core sample_app sample_request (sample_payload stream) (sample_stored, sample_audio_store) sample_world =
     (case (if stream then stream_path else buffered_path) sample_app sample_request sample_config sample_voice ''mlx_audio''
        ''Qwen/Qwen3-TTS-12Hz-0.6B-Base'' sample_engine
        (build_synthesis_request ''Qwen/Qwen3-TTS-12Hz-0.6B-Base'' sample_vc ''mario'' (sr_response_format (sample_payload stream)))
        (vc_target_db sample_vc) [ustr ''ciao''] ''/tmp/voice-mario-1.wav''
        (sample_world\<lparr>wd_tmp := [(''/tmp/voice-mario-1.wav'', [7, 7])]\<rparr>) of
        (res, w1) \<Rightarrow> (res, (sample_stored, sample_audio_store), w1))"
proof -
  have mx: "vc_max_sentences sample_vc = 2"
    by (simp add: sample_vc_def build_voice_config_def sample_voice_def sample_config_def dflt_def Let_def)
  show ?thesis
    by (simp add: sample_core with_reference_audio_def sample_prepare mx Let_def flip: sample_vc_def)
qed

lemma sample_streaming:
  obtains job hs w' where
    "synthesize_core sample_app sample_request (sample_payload True) (sample_stored, sample_audio_store) sample_world =
       (Inr (StreamingAudio job hs True), (sample_stored, sample_audio_store), w')"
    "wd_queue w' = 1" "sj_chunks job = [ustr ''ciao'']" "sj_synth job = sample_engine"
proof -
  have "lower ''trailers'' = ''trailers''" by (rule lower_id) (simp add: lower_cp_def)
  then have te: "client_advertises_trailers ''trailers''"
    by (simp add: client_advertises_trailers_def split_on.simps strip_def strip_by_def is_space_def space_cp_def split1_def)
  obtain res w' where run: "synthesize_core sample_app sample_request (sample_payload True) (sample_stored, sample_audio_store)
      sample_world = (res, (sample_stored, sample_audio_store), w')"
    by (simp add: sample_run stream_path_def)
  then show ?thesis by (intro that) (auto simp: sample_run stream_path_def acquire_queue_def te)
qed


lemma sample_normalize:
  "normalize_wav_rms plain_loudness sample_pcm db = Inr sample_pcm \<and> (\<exists>nf. wave_read sample_pcm =
     Inr \<lparr>wa_channels = 1, wa_width = 2, wa_rate = 8000, wa_nframes = nf, wa_frames = [0, 0]\<rparr>)"
proof -
  have "whole_wav (1, 2, 8000) sample_pcm [0, 0]" unfolding sample_pcm_def by (rule sample_wav)
  then obtain nf where r: "wave_read sample_pcm = Inr \<lparr>wa_channels = 1, wa_width = 2, wa_rate = 8000, wa_nframes = nf, wa_frames = [0, 0]\<rparr>"
    by (rule whole_wav_read)
  have "samples 2 [0, 0] = [0]" by (simp add: samples_def sample_val_def numeral_2_eq_2)
  then have "ld_quiet plain_loudness 2 (samples 2 [0, 0])" by (simp add: plain_loudness_def)
  moreover have "sample_pcm \<noteq> []" by (simp add: sample_pcm_def)
  ultimately show ?thesis by (simp add: normalize_wav_rms_def r Let_def)
qed

lemma sample_merge: "\<exists>ms. merge_audio plain_loudness db [sample_pcm] = Inr (sample_pcm, ms)"
  using sample_normalize [of db] by (auto simp: merge_audio_def concat_wav_bytes_def wav_duration_ms_def)

lemma sample_buffered:
  obtains audio hs w' where
    "synthesize_core sample_app sample_request (sample_payload False) (sample_stored, sample_audio_store) sample_world =
       (Inr (BufferedAudio audio hs), (sample_stored, sample_audio_store), w')" "wd_engine w' = 1"
proof -
  obtain ms where m: "merge_audio plain_loudness (vc_target_db sample_vc) [sample_pcm] = Inr (sample_pcm, ms)"
    using sample_merge by blast
  have app: "app_loudness sample_app = plain_loudness" by (simp add: sample_app_def)
  from m show ?thesis
    by (intro that)
      (auto simp: sample_run buffered_path_def run_synthesis_def acquire_queue_def release_permit_def remove_tmp_def
        sample_engine_def app split: prod.splits)
qed

lemma sample_admission:
  "app_metadata sample_app = fs_metadata_repo sample_stdlib" "app_blobs sample_app = fs_blob_repo"
  "app_settings sample_app = default_settings" "tts_max_input_chars default_settings = 4096"
  by (simp_all add: sample_app_def) (simp add: default_settings_def)

theorem synthesis_needs_admission_witness:
  "\<exists>ef r audio. resolve_preset (app_lib sample_app) (sample_payload False) (rq_snapshot sample_request) default_settings = Inr ef \<and>
     meta_abs sample_stdlib sample_stored (required_voice (sample_payload False) ef) = Some r \<and>
     blob_abs sample_audio_store (required_voice (sample_payload False) ef) = Some audio"
proof -
  obtain audio hs w' where run: "synthesize_core sample_app sample_request (sample_payload False) (sample_stored, sample_audio_store)
      sample_world = (Inr (BufferedAudio audio hs), (sample_stored, sample_audio_store), w')" by (rule sample_buffered)
  from synthesis_needs_admission [OF sample_admission(1,2) sample_stored_facts(1) run] show ?thesis
    by (auto simp: sample_admission)
qed

theorem resolve_voice_exact_witness:
  "resolve_voice (fs_metadata_repo sample_stdlib) fs_blob_repo sample_time ''mario'' (sample_stored, sample_audio_store) =
     (Inr (sample_voice, [7, 7]), sample_stored, sample_audio_store) \<and>
   resolve_voice (fs_metadata_repo sample_stdlib) fs_blob_repo sample_time ''mario'' (sample_stored, sample_blobs []) =
     (Inl (voice_error ''voice_blob_missing'' (''voice '' @ repr_str ''mario'' @ '' metadata exists but blob is missing'') 422
        (Some ''voice'')), sample_stored, sample_blobs [])"
  using resolve_voice_exact [OF sample_stored_facts(1), of sample_time "''mario''" sample_audio_store]
    resolve_voice_exact [OF sample_stored_facts(1), of sample_time "''mario''" "sample_blobs []"]
  by (simp add: blob_abs_def sample_audio_store_def blob_suffix_def sample_blobs_def)

theorem buffered_audio_complete_witness:
  "\<exists>audio hs sb' w' plain chunks. synthesize_core sample_app sample_request (sample_payload False) (sample_stored, sample_audio_store)
      sample_world = (Inr (BufferedAudio audio hs), sb', w') \<and> chunks \<noteq> [] \<and> concat (map nonspace chunks) = nonspace plain"
proof -
  obtain audio hs w' where run: "synthesize_core sample_app sample_request (sample_payload False) (sample_stored, sample_audio_store)
      sample_world = (Inr (BufferedAudio audio hs), (sample_stored, sample_audio_store), w')" by (rule sample_buffered)
  from buffered_audio_complete [OF run] show ?thesis
    by (simp add: run Let_def) blast
qed


definition empty_job :: "nat stream_job" where
  "empty_job = \<lparr>sj_request = build_synthesis_request ''m'' sample_vc ''mario'' ''wav'', sj_synth = sample_engine, sj_chunks = [],
     sj_target_db = Fin (- 20), sj_tmp_path = ''t''\<rparr>"

theorem stream_trailers_exact_witness:
  "stream_run plain_loudness (Some 1) empty_job sample_world = ([], Inr (), (0, 0), sample_world\<lparr>wd_queue := 3\<rparr>) \<and>
   last (trailer_response_call True True (0, 0) [ResponseStart 200 [] False, ResponseBody [] False]) =
     ResponseTrailers [(''x-chunks'', nat_str 0), (''x-total-duration-ms'', int_str 0)]"
proof -
  have run: "stream_run plain_loudness (Some 1) empty_job sample_world = ([], Inr (), (0, 0), sample_world\<lparr>wd_queue := 3\<rparr>)"
    by (simp add: stream_run_def empty_job_def release_permit_def remove_tmp_def)
  from stream_trailers_exact [OF run, of True True "[ResponseStart 200 [] False, ResponseBody [] False]"] run show ?thesis
    by (simp only: if_True fst_conv snd_conv list.size simp_thms)
qed

end
