(* ===== verification/AudioAdapter.thy ===== *)
theory AudioAdapter
  imports Synthesize
begin

text \<open>
  The two endpoints over the pipeline: the rich one (\<open>routers/synthesize.py\<close>) calls it as it is, the one with
  OpenAI's interface (\<open>routers/audio.py\<close>, \<open>schemas/speech.py\<close>) translates the request, and strips from the
  response what OpenAI's has not.
\<close>

subsection \<open>The adapter\<close>

record speech_request =
  sp_model :: string
  sp_input :: utext
  sp_voice :: string
  sp_provider :: "string option"
  sp_response_format :: string
  sp_instructions :: "string option"
  sp_speed :: "pyfloat option"
  sp_stream_format :: "string option"
  sp_normalize_db :: "pyfloat option"

definition rich_only_headers :: "string list" where
  "rich_only_headers = [''x-provider'', ''x-model'', ''x-device'', ''x-dtype'', ''x-voice-source'', ''x-voice-id'', ''x-chunks'',
     ''x-total-duration-ms'', ''x-preset-effective'', ''x-preset-ignored-knobs'']"

definition only_wav_supported :: py_exc where
  "only_wav_supported = invalid_request (''Only '' @ quoted ''wav'' @ '' response_format is currently supported'') (Some ''response_format'')"

definition translate_openai_request :: "speech_request \<Rightarrow> bool \<Rightarrow> synthesize_request res" where
  "translate_openai_request req stream =
     (if sp_response_format req \<noteq> [] \<and> lower (sp_response_format req) \<noteq> ''wav'' then Inl only_wav_supported
      else Inr \<lparr>sr_input = sp_input req, sr_voice = Some (sp_voice req), sr_provider = sp_provider req, sr_model = Some (sp_model req),
        sr_response_format = ''wav'', sr_stream = stream, sr_preset = None, sr_normalize_db = sp_normalize_db req,
        sr_max_sentences = None, sr_language = None, sr_number_lang = None, sr_temperature = None, sr_top_p = None\<rparr>)"

fun openai_response :: "string \<Rightarrow> 'w synth_response \<Rightarrow> 'w synth_response" where
  "openai_response rid (StreamingAudio job hs te) = StreamingAudio job [(''X-Request-ID'', rid)] False"
| "openai_response rid (BufferedAudio b hs) = BufferedAudio b (filter (\<lambda>kv. lower (fst kv) \<notin> set rich_only_headers) hs)"

definition create_speech :: "('s, 'b, 'w) app \<Rightarrow> request_context \<Rightarrow> speech_request \<Rightarrow> bool \<Rightarrow> 's \<times> 'b \<Rightarrow> 'w world \<Rightarrow>
    'w synth_response res \<times> ('s \<times> 'b) \<times> 'w world" where
  "create_speech A rq req stream sb w = (case translate_openai_request req stream of
       Inl e \<Rightarrow> (Inl e, sb, w)
     | Inr payload \<Rightarrow> (case synthesize_core A rq payload sb w of
         (res, sb1, w1) \<Rightarrow> (map_sum id (openai_response (rq_id rq)) res, sb1, w1)))"

text \<open>The rich endpoint.\<close>

definition synthesize_endpoint :: "('s, 'b, 'w) app \<Rightarrow> request_context \<Rightarrow> synthesize_request \<Rightarrow> 's \<times> 'b \<Rightarrow> 'w world \<Rightarrow>
    'w synth_response res \<times> ('s \<times> 'b) \<times> 'w world" where
  "synthesize_endpoint A rq payload sb w = synthesize_core A rq payload sb w"

subsection \<open>Parity with the rich endpoint\<close>

lemma lower_rich_headers:
  "lower ''X-Request-ID'' = ''x-request-id''" "lower ''X-Provider'' = ''x-provider''" "lower ''X-Model'' = ''x-model''"
  "lower ''X-Device'' = ''x-device''" "lower ''X-Dtype'' = ''x-dtype''" "lower ''X-Voice-Source'' = ''x-voice-source''"
  "lower ''X-Voice-Id'' = ''x-voice-id''" "lower ''X-Chunks'' = ''x-chunks''"
  "lower ''X-Total-Duration-Ms'' = ''x-total-duration-ms''" "lower ''X-Preset-Effective'' = ''x-preset-effective''"
  "lower ''X-Preset-Ignored-Knobs'' = ''x-preset-ignored-knobs''"
  by (simp_all add: lower_def lower_cp_def char_of_eq_iff take_bit_eq_mod)

lemma filter_alist_update: "\<not> P k \<Longrightarrow> filter (\<lambda>kv. P (fst kv)) (AList.update k v al) = filter (\<lambda>kv. P (fst kv)) al"
  by (induction al) auto

lemma filter_update_headers:
  "\<forall>kv\<in>set new. \<not> P (fst kv) \<Longrightarrow> filter (\<lambda>kv. P (fst kv)) (update_headers hs new) = filter (\<lambda>kv. P (fst kv)) hs"
  unfolding update_headers_def by (induction new arbitrary: hs) (auto simp: filter_alist_update)

lemma stripped_headers:
  "filter (\<lambda>kv. lower (fst kv) \<notin> set rich_only_headers) (update_headers (synthesis_headers L rid p m dev r n ms) (preset_headers L ef)) =
     [(''X-Request-ID'', rid)]"
proof -
  have "\<forall>kv\<in>set (preset_headers L ef). \<not> lower (fst kv) \<notin> set rich_only_headers"
    using preset_header_keys [of L ef] by (auto simp: rich_only_headers_def lower_rich_headers dest!: subsetD)
  then have "filter (\<lambda>kv. lower (fst kv) \<notin> set rich_only_headers) (update_headers (synthesis_headers L rid p m dev r n ms) (preset_headers L ef)) =
      filter (\<lambda>kv. lower (fst kv) \<notin> set rich_only_headers) (synthesis_headers L rid p m dev r n ms)"
    by (rule filter_update_headers)
  also have "\<dots> = [(''X-Request-ID'', rid)]"
    by (simp add: synthesis_headers_def opt_header_def rich_only_headers_def lower_rich_headers split: option.split)
  finally show ?thesis .
qed

lemma buffered_headers:
  assumes "synthesize_core A rq payload sb w = (Inr (BufferedAudio audio hs), sb', w')"
  shows "\<exists>p m r n ms ef. hs = update_headers (synthesis_headers (app_lib A) (rq_id rq) p m (app_device A) r n ms) (preset_headers (app_lib A) ef)"
  using assms
proof (cases rule: synthesize_core_cases)
  case refused
  then show ?thesis by simp
next
  case (run ef r ref provider model synth)
  then show ?thesis
    by (auto simp: with_reference_audio_def Let_def buffered_path_def stream_path_def
        split: tmp_outcome.splits sum.splits if_splits prod.splits) blast
qed


end
