(* ===== verification/RequestIds.thy ===== *)
theory RequestIds
  imports Synthesize
begin

text \<open>
  \<open>observability/request_id.py\<close>: the correlation id of a request, from the header it brings or a fresh UUID
  (\<open>fresh\<close>), in the context variable while the application runs and in the headers of the
  response. Header names and values are Latin-1 strings, a byte a character.
\<close>

definition request_id_header :: string where
  "request_id_header = ''x-request-id''"

text \<open>\<open>bytes.lower\<close> touches the letters of ASCII only.\<close>

definition ascii_lower :: "string \<Rightarrow> string" where
  "ascii_lower = map (\<lambda>c. if 65 \<le> (of_char c :: nat) \<and> (of_char c :: nat) \<le> 90 then char_of ((of_char c :: nat) + 32) else c)"

definition id_safe_char :: "char \<Rightarrow> bool" where
  "id_safe_char c \<longleftrightarrow> (let n = of_char c :: nat in
     (65 \<le> n \<and> n \<le> 90) \<or> (97 \<le> n \<and> n \<le> 122) \<or> (48 \<le> n \<and> n \<le> 57) \<or> c = CHR ''.'' \<or> c = CHR ''_'' \<or> c = CHR ''-'')"

text \<open>\<open>^[A-Za-z0-9._\\-]{1,128}$\<close>: the end is also just before a final line break.\<close>

definition safe_request_id :: "string \<Rightarrow> bool" where
  "safe_request_id s = (let core = (if s \<noteq> [] \<and> last s = CHR 0x0A then butlast s else s) in
     list_all id_safe_char core \<and> 1 \<le> length core \<and> length core \<le> 128)"

fun inbound_id :: "(string \<times> string) list \<Rightarrow> string option" where
  "inbound_id [] = None"
| "inbound_id ((name, v) # hs) =
     (if ascii_lower name = request_id_header
      then (let decoded = strip v in if decoded \<noteq> [] \<and> safe_request_id decoded then Some decoded else None)
      else inbound_id hs)"

definition resolve_request_id :: "(string \<times> string) list \<Rightarrow> string \<Rightarrow> string" where
  "resolve_request_id headers fresh = (case inbound_id headers of Some rid \<Rightarrow> rid | None \<Rightarrow> fresh)"

fun wrap_send :: "string \<Rightarrow> asgi_message \<Rightarrow> asgi_message" where
  "wrap_send rid (ResponseStart st hs t) =
     ResponseStart st (if list_ex (\<lambda>h. ascii_lower (fst h) = request_id_header) hs then hs else hs @ [(request_id_header, rid)]) t"
| "wrap_send rid m = m"

text \<open>
  An application gets the value of the context variable; what it does is the messages it sends, its outcome and the
  value it leaves in the variable.
\<close>

type_synonym asgi_app = "string \<Rightarrow> asgi_message list \<times> unit res \<times> string"

definition request_id_middleware :: "asgi_app \<Rightarrow> string \<Rightarrow> (string \<times> string) list \<Rightarrow> string \<Rightarrow> asgi_app" where
  "request_id_middleware inner scope_type headers fresh var =
     (if scope_type \<noteq> ''http'' then inner var
      else (let rid = resolve_request_id headers fresh in
        (case inner rid of (msgs, res, left) \<Rightarrow> (map (wrap_send rid) msgs, res, var))))"

subsection \<open>Properties\<close>

lemma last_strip: "strip s \<noteq> [] \<Longrightarrow> \<not> is_space (last (strip s))"
proof -
  assume ne: "strip s \<noteq> []"
  define d where "d = dropWhile is_space (rev (dropWhile is_space s))"
  have d: "strip s = rev d" by (simp add: strip_def strip_by_def d_def)
  with ne have "d \<noteq> []" by simp
  then have "\<not> is_space (hd d)" unfolding d_def by (rule hd_dropWhile)
  with \<open>d \<noteq> []\<close> show "\<not> is_space (last (strip s))" by (simp add: d last_rev)
qed

lemma inbound_id_safe:
  "inbound_id hs = Some rid \<Longrightarrow> list_all id_safe_char rid \<and> 1 \<le> length rid \<and> length rid \<le> 128"
proof (induction hs rule: inbound_id.induct)
  case (2 name v hs)
  show ?case
  proof (cases "ascii_lower name = request_id_header")
    case True
    with 2(2) have r: "rid = strip v" "strip v \<noteq> []" "safe_request_id (strip v)"
      by (auto simp: Let_def split: if_splits)
    have "last (strip v) \<noteq> CHR 0x0A" using last_strip [OF r(2)] by (auto simp: is_space_def space_cp_def)
    with r show ?thesis by (simp add: safe_request_id_def Let_def)
  next
    case False
    with 2 show ?thesis by simp
  qed
qed simp

text \<open>
  C37: a correlation id cannot forge a log line. Whatever headers a client sends, the id of its request is one to 128 letters,
  digits, dots, underscores and dashes: the value of its first header of that name, stripped, if it is
  of that form, and the fresh id otherwise.
\<close>

theorem request_id_safe:
  assumes "list_all id_safe_char fresh" "length fresh = 32"
  shows "list_all id_safe_char (resolve_request_id headers fresh) \<and>
    1 \<le> length (resolve_request_id headers fresh) \<and> length (resolve_request_id headers fresh) \<le> 128 \<and>
    (resolve_request_id headers fresh = fresh \<or>
     (\<exists>name v before after. headers = before @ (name, v) # after \<and> ascii_lower name = request_id_header \<and>
       (\<forall>h\<in>set before. ascii_lower (fst h) \<noteq> request_id_header) \<and> resolve_request_id headers fresh = strip v))"
proof (cases "inbound_id headers")
  case None
  with assms show ?thesis by (simp add: resolve_request_id_def)
next
  case (Some rid)
  have "\<exists>name v before after. headers = before @ (name, v) # after \<and> ascii_lower name = request_id_header \<and>
      (\<forall>h\<in>set before. ascii_lower (fst h) \<noteq> request_id_header) \<and> rid = strip v"
    using Some
  proof (induction headers rule: inbound_id.induct)
    case (2 name v hs)
    show ?case
    proof (cases "ascii_lower name = request_id_header")
      case True
      with 2(2) have "rid = strip v" by (auto simp: Let_def split: if_splits)
      with True show ?thesis
        by - (rule exI [where x = name], rule exI [where x = v], rule exI [where x = "[]"], simp)
    next
      case False
      with 2(2) have "inbound_id hs = Some rid" by simp
      from 2(1) [OF False this] obtain name' v' before after where
        "hs = before @ (name', v') # after" "ascii_lower name' = request_id_header"
        "\<forall>h\<in>set before. ascii_lower (fst h) \<noteq> request_id_header" "rid = strip v'" by blast
      with False show ?thesis
        by - (rule exI [where x = name'], rule exI [where x = v'], rule exI [where x = "(name, v) # before"], auto)
    qed
  qed simp
  with Some inbound_id_safe [OF Some] show ?thesis by (auto simp: resolve_request_id_def)
qed

theorem request_id_safe_witness:
  "resolve_request_id [(''host'', ''x''), (''X-Request-Id'', ''ab''), (''x-request-id'', ''cd'')] (replicate 32 (CHR ''0'')) \<in>
     {replicate 32 (CHR ''0''), ''ab''}"
proof -
  have other: "ascii_lower ''host'' \<noteq> request_id_header" "ascii_lower ''X-Request-Id'' = request_id_header"
    by (simp_all add: ascii_lower_def request_id_header_def char_of_eq_iff take_bit_eq_mod)
  have "list_all id_safe_char (replicate 32 (CHR ''0''))" by (simp add: list_all_iff id_safe_char_def)
  from request_id_safe [OF this, of "[(''host'', ''x''), (''X-Request-Id'', ''ab''), (''x-request-id'', ''cd'')]"]
  obtain name v before after where "resolve_request_id [(''host'', ''x''), (''X-Request-Id'', ''ab''), (''x-request-id'', ''cd'')]
      (replicate 32 (CHR ''0'')) = replicate 32 (CHR ''0'') \<or>
    [(''host'', ''x''), (''X-Request-Id'', ''ab''), (''x-request-id'', ''cd'')] = before @ (name, v) # after \<and>
      ascii_lower name = request_id_header \<and> (\<forall>h\<in>set before. ascii_lower (fst h) \<noteq> request_id_header) \<and>
      resolve_request_id [(''host'', ''x''), (''X-Request-Id'', ''ab''), (''x-request-id'', ''cd'')] (replicate 32 (CHR ''0'')) = strip v"
    by auto
  then show ?thesis
    using other by (auto simp: Cons_eq_append_conv strip_def strip_by_def is_space_def space_cp_def)
qed

definition has_request_id :: "asgi_message \<Rightarrow> bool" where
  "has_request_id m = (case m of ResponseStart st hs t \<Rightarrow> list_ex (\<lambda>h. ascii_lower (fst h) = request_id_header) hs | _ \<Rightarrow> True)"

text \<open>
  Every HTTP response carries the id and no request sees the id of another. The application runs with the id of
  its request in the context variable, each response it starts has the header, with that id unless it set one of
  its own, the body is untouched, and afterwards, also when it raised, the variable is what it was. Other
  scopes pass through.
\<close>

theorem request_id_propagates:
  assumes "request_id_middleware inner scope_type headers fresh var = (msgs, res, var')"
  shows "if scope_type \<noteq> ''http'' then inner var = (msgs, res, var')
    else (\<exists>sent left. inner (resolve_request_id headers fresh) = (sent, res, left) \<and> var' = var \<and>
      length msgs = length sent \<and> body_messages msgs = body_messages sent \<and>
      (\<forall>m\<in>set msgs. has_request_id m) \<and>
      (\<forall>i<length sent. \<forall>st hs t. sent ! i = ResponseStart st hs t \<longrightarrow>
        (\<exists>hs'. msgs ! i = ResponseStart st hs' t \<and>
          (if list_ex (\<lambda>h. ascii_lower (fst h) = request_id_header) hs then hs' = hs
           else hs' = hs @ [(request_id_header, resolve_request_id headers fresh)]))))"
proof (cases "scope_type = ''http''")
  case True
  let ?rid = "resolve_request_id headers fresh"
  obtain sent left where s: "inner ?rid = (sent, res, left)" "msgs = map (wrap_send ?rid) sent" "var' = var"
    using assms True by (auto simp: request_id_middleware_def Let_def split: prod.splits)
  have low: "ascii_lower request_id_header = request_id_header"
    by (simp add: ascii_lower_def request_id_header_def)
  have "has_request_id (wrap_send ?rid m)" for m
    using low by (cases m) (auto simp: has_request_id_def)
  moreover have "body_messages (map (wrap_send ?rid) ms) = body_messages ms" for ms
  proof (induction ms)
    case (Cons m ms)
    then show ?case by (cases m) (simp_all add: body_messages_def)
  qed (simp add: body_messages_def)
  ultimately show ?thesis using True s by auto
next
  case False
  with assms show ?thesis by (simp add: request_id_middleware_def)
qed

theorem request_id_propagates_witness:
  "request_id_middleware (\<lambda>rid. ([ResponseStart 200 [(''x-error-code'', rid)] False], Inl (OtherErr ''e''), ''left'')) ''http'' []
     ''f00d'' ''before'' = ([ResponseStart 200 [(''x-error-code'', ''f00d''), (''x-request-id'', ''f00d'')] False],
       Inl (OtherErr ''e''), ''before'')"
proof -
  let ?app = "\<lambda>rid. ([ResponseStart 200 [(''x-error-code'', rid)] False], Inl (OtherErr ''e''), ''left'')"
  obtain msgs res var where run: "request_id_middleware ?app ''http'' [] ''f00d'' ''before'' = (msgs, res, var)"
    by (metis prod.exhaust)
  have "ascii_lower ''x-error-code'' \<noteq> request_id_header" by (simp add: ascii_lower_def request_id_header_def)
  with request_id_propagates [OF run] run show ?thesis
    by (auto simp: resolve_request_id_def request_id_header_def length_Suc_conv)
qed

end
