(* ===== verification/Startup.thy ===== *)
theory Startup
  imports Presets Providers ModelCache Admission
begin

text \<open>
  The construction of the service: \<open>build_default_dependencies\<close> and \<open>_preload_models\<close> of \<open>dependencies.py\<close>, the
  preload of \<open>TTSService.__init__\<close>, and \<open>_load_presets_or_exit\<close> of \<open>main.py\<close>. Loading a model is a parameter:
  what the library of a provider returns for a model, or the exception.
\<close>

type_synonym 'm loads = "string \<Rightarrow> string \<Rightarrow> 'm res"

subsection \<open>Preloading\<close>

definition preload_one :: "'m loads \<Rightarrow> 'm model_provider provider_registry \<Rightarrow> string \<Rightarrow> string \<Rightarrow>
    ('m, string) lru_cache \<Rightarrow> unit res \<times> ('m, string) lru_cache" where
  "preload_one loads r provider model c = (case registry_get r provider of
       Inl e \<Rightarrow> (Inl e, c)
     | Inr p \<Rightarrow> (case preload (pv_impl p) c model (loads (mp_name (pv_impl p)) model) of (res, _, c', _) \<Rightarrow> (res, c')))"

fun preload_models :: "'m loads \<Rightarrow> 'm model_provider provider_registry \<Rightarrow> preload_entry list \<Rightarrow>
    ('m, string) lru_cache \<Rightarrow> unit res \<times> ('m, string) lru_cache" where
  "preload_models loads r [] c = (Inr (), c)"
| "preload_models loads r (e # es) c = (case preload_one loads r (pe_provider e) (pe_model e) c of
       (Inl x, c') \<Rightarrow> (Inl x, c')
     | (Inr _, c') \<Rightarrow> preload_models loads r es c')"

subsection \<open>The dependency graph\<close>

definition new_provider :: "string \<Rightarrow> string \<Rightarrow> 'm model_provider" where
  "new_provider name cls = \<lparr>mp_name = name, mp_class = cls, mp_allowed = [], mp_shared = False, mp_local = [], mp_locks = []\<rparr>"

text \<open>The three providers, with the cache attached to each; their order is the priority of the automatic selection.\<close>

definition default_providers :: "'m model_provider tts_provider_strategy list" where
  "default_providers =
     [\<lparr>pv_name = ''mlx_audio'', pv_devices = [''mps''], pv_impl = new_provider ''mlx_audio'' ''MLXAudioTTSProvider''\<rparr>,
      \<lparr>pv_name = ''voxtral'', pv_devices = [''mps''], pv_impl = new_provider ''voxtral'' ''VoxtralTTSProvider''\<rparr>,
      \<lparr>pv_name = ''vllm-omni'', pv_devices = [''cuda''], pv_impl = new_provider ''vllm-omni'' ''VllmOmniTTSProvider''\<rparr>]"

definition attach_all :: "settings \<Rightarrow> 'm model_provider provider_registry \<Rightarrow> 'm model_provider provider_registry" where
  "attach_all s r = map (\<lambda>(n, p). (n, p\<lparr>pv_impl := attach_model_cache (pv_impl p) (model_allowed_for s (pv_name p))\<rparr>)) r"

record host_env =
  he_env :: environ
  he_files :: "string \<Rightarrow> config_file"
  he_host :: host
  he_missing_postgres :: "string option"
  he_missing_s3 :: "string option"

record 'm dependencies =
  dep_settings :: settings
  dep_device :: device_profile
  dep_selection :: provider_selection
  dep_registry :: "'m model_provider provider_registry"
  dep_cache :: "('m, string) lru_cache"
  dep_admission :: admission
  dep_metadata :: metadata_backend
  dep_blobs :: blob_backend
  dep_seed_path :: "string option"

definition build_default_dependencies :: "host_env \<Rightarrow> 'm loads \<Rightarrow> 'm dependencies res" where
  "build_default_dependencies H loads =
     bindE (load_settings (he_env H) (he_files H)) (\<lambda>s0.
     bindE (resolve_device_profile (he_env H) (he_host H) None None) (\<lambda>device.
     bindE (map_sum (\<lambda>e. RuntimeErr (se_message e)) id
         (select_provider (he_env H) device (new_registry (default_providers :: 'm model_provider tts_provider_strategy list)) None)) (\<lambda>sel.
     bindE (new_cache (tts_model_cache_size (reconcile_settings s0 sel))) (\<lambda>c0.
       (let s = reconcile_settings s0 sel;
            r = attach_all s (new_registry default_providers)
        in case preload_models loads r (tts_preload_models s) c0 of
             (Inl e, _) \<Rightarrow> Inl e
           | (Inr _, c1) \<Rightarrow> (case preload_one loads r (tts_provider s) (model_default_for s (tts_provider s)) c1 of
               (Inl e, _) \<Rightarrow> Inl e
             | (Inr _, c2) \<Rightarrow>
                 bindE (build_voice_metadata_repo s (he_missing_postgres H)) (\<lambda>md.
                 bindE (build_voice_blob_repo s (he_missing_s3 H)) (\<lambda>bl.
                   Inr \<lparr>dep_settings = s, dep_device = device, dep_selection = sel, dep_registry = r, dep_cache = c2,
                     dep_admission = new_admission (nat (tts_max_queue_depth s)) (nat (tts_max_concurrent_requests s)),
                     dep_metadata = md, dep_blobs = bl,
                     dep_seed_path = resolve_seed_file_path (he_env H)
                       (\<lambda>p. cf_exists (he_files H p)) (\<lambda>p. cf_is_file (he_files H p))\<rparr>))))))))"

subsection \<open>The presets at start-up\<close>

fun presets_exit :: "presets_exc \<Rightarrow> py_exc" where
  "presets_exit (PresetsUnsafePermissions m) = SysExit (''config_error.presets_unsafe_permissions: '' @ m)"
| "presets_exit (PresetProviderInvalid m) = SysExit (''config_error.preset_provider_invalid: '' @ m)"
| "presets_exit (PresetsInvalid m) = SysExit (''config_error.presets_invalid: '' @ m)"
| "presets_exit (Escaped e) = e"

definition load_presets_or_exit :: "schema_lib \<Rightarrow> settings \<Rightarrow> 'p provider_registry \<Rightarrow> nat option \<Rightarrow> presets_file \<Rightarrow>
    preset_registry res" where
  "load_presets_or_exit S s r euid f =
     map_sum presets_exit id (initialize_preset_registry S s (Some (registry_names r)) euid f)"

subsection \<open>What a start-up that succeeds guarantees\<close>

lemma map_sum_Inr_iff: "map_sum f g x = Inr y \<longleftrightarrow> (\<exists>z. x = Inr z \<and> y = g z)"
  by (cases x) auto

text \<open>Every key of the cache is a registered provider with a model on its allow-list.\<close>

definition cache_allowed :: "settings \<Rightarrow> ('m, string) lru_cache \<Rightarrow> bool" where
  "cache_allowed s c \<longleftrightarrow> cache_inv c \<and> int (lru_max c) = tts_model_cache_size s \<and>
     (\<forall>(p, m)\<in>set (loaded_keys c). p \<in> set provider_names \<and> m \<in> set (model_allowed_for s p))"

lemma attached:
  "registry_find (attach_all s (new_registry default_providers)) name = Some p \<Longrightarrow>
   mp_name (pv_impl p) = name \<and> mp_shared (pv_impl p) \<and> mp_allowed (pv_impl p) = model_allowed_for s name \<and> name \<in> set provider_names"
  by (auto simp: attach_all_def default_providers_def new_registry_def registry_find_def new_provider_def attach_model_cache_def provider_names_def
      split: if_splits)

lemma set_lru_touch: "set (lru_touch n k ks) \<subseteq> insert k (set ks)"
  by (auto simp: lru_touch_def dest!: in_set_takeD)

lemma hd_lru_touch: "1 \<le> n \<Longrightarrow> lru_touch n k ks \<noteq> [] \<and> hd (lru_touch n k ks) = k"
  by (cases n) (auto simp: lru_touch_def)

lemma preload_one_allowed:
  fixes loads :: "'m loads"
  assumes "preload_one loads (attach_all s (new_registry default_providers)) provider model c = (res, c')"
    and "cache_allowed s c" "model \<in> set (model_allowed_for s provider)"
  shows "cache_allowed s c' \<and> (\<forall>u. res = Inr u \<longrightarrow> loaded_keys c' \<noteq> [] \<and> hd (loaded_keys c') = (provider, model))"
proof (cases "registry_find (attach_all s (new_registry default_providers) :: 'm model_provider provider_registry) provider")
  case None
  with assms(1,2) show ?thesis by (auto simp: preload_one_def registry_get_def registry_find_def)
next
  case (Some p)
  note at = attached [OF Some]
  obtain r c1 us where g: "get_or_load c (provider, model) (loads provider model) (Some (validate_model (pv_impl p) model))
      (Some provider) = (r, c1, us)" by (metis prod.exhaust)
  have r: "c' = c1" "res = map_sum id (\<lambda>_. ()) r"
    using assms(1) Some at g by (auto simp: preload_one_def registry_get_def registry_find_def preload_def get_model_def)
  have inv: "cache_inv c" using assms(2) by (simp add: cache_allowed_def)
  from get_or_load_cases [OF inv g] have c1: "cache_inv c1" "lru_max c1 = lru_max c"
      "case r of Inl e \<Rightarrow> c1 = c \<and> us = [] | Inr m \<Rightarrow> loaded_keys c1 = lru_touch (lru_max c) (provider, model) (loaded_keys c)"
    by auto
  show ?thesis
  proof (cases r)
    case (Inl e)
    with r c1 assms(2) show ?thesis by simp
  next
    case (Inr m)
    then have k: "loaded_keys c1 = lru_touch (lru_max c) (provider, model) (loaded_keys c)" using c1(3) by simp
    moreover have "1 \<le> lru_max c" using inv by (simp add: cache_inv_def)
    ultimately have "loaded_keys c1 \<noteq> [] \<and> hd (loaded_keys c1) = (provider, model)" using hd_lru_touch by metis
    moreover have "cache_allowed s c1"
      using c1(1,2) assms(2,3) at set_lru_touch [of "lru_max c" "(provider, model)" "loaded_keys c"]
      unfolding cache_allowed_def k by auto
    ultimately show ?thesis using r by simp
  qed
qed

lemma preload_models_allowed:
  "preload_models loads (attach_all s (new_registry default_providers)) es c = (res, c') \<Longrightarrow> cache_allowed s c \<Longrightarrow>
   \<forall>e\<in>set es. preload_ok s e \<Longrightarrow> cache_allowed s c'"
proof (induction es arbitrary: c)
  case Nil
  then show ?case by simp
next
  case (Cons e es)
  obtain r1 c1 where one: "preload_one loads (attach_all s (new_registry default_providers)) (pe_provider e) (pe_model e) c = (r1, c1)"
    by fastforce
  have "cache_allowed s c1"
    using preload_one_allowed [OF one Cons.prems(2)] Cons.prems(3) by (simp add: preload_ok_def)
  with one Cons show ?case by (cases r1) auto
qed

lemma select_default:
  assumes "select_provider env profile (new_registry default_providers) None = Inr sel"
  shows "\<exists>p. registry_find (new_registry default_providers) (sel_provider sel) = Some p \<and> dp_device profile \<in> set (pv_devices p) \<and>
    sel_device sel = dp_device profile \<and> sel_provider sel \<in> set provider_names"
  using assms
  by (auto simp: select_provider_def validate_override_def select_auto_def registry_all_def registry_find_def default_providers_def
      new_registry_def provider_names_def split: option.splits if_splits)

lemma reconcile_frame:
  "model_allowed_for (reconcile_settings s sel) p = model_allowed_for s p"
  "model_default_for (reconcile_settings s sel) p = model_default_for s p"
  "tts_preload_models (reconcile_settings s sel) = tts_preload_models s"
  "tts_model_cache_size (reconcile_settings s sel) = tts_model_cache_size s"
  "tts_max_concurrent_requests (reconcile_settings s sel) = tts_max_concurrent_requests s"
  "tts_provider (reconcile_settings s sel) = sel_provider sel"
  "tts_model_default (reconcile_settings s sel) = model_default_for s (sel_provider sel)"
  "tts_model_allowed (reconcile_settings s sel) = model_allowed_for s (sel_provider sel)"
  by (simp_all add: reconcile_settings_def model_allowed_for_def model_default_for_def)

lemma default_allowed: "providers_ok s \<Longrightarrow> p \<in> set provider_names \<Longrightarrow> model_default_for s p \<in> set (model_allowed_for s p)"
  by (auto simp: providers_ok_def provider_names_def model_default_for_def model_allowed_for_def)

text \<open>A start-up that succeeds, stage by stage.\<close>

lemma startup_stages:
  fixes loads :: "'a loads"
  assumes "build_default_dependencies H loads = Inr d"
  obtains s0 device sel c0 c1 where "load_settings (he_env H) (he_files H) = Inr s0"
    "select_provider (he_env H) device (new_registry (default_providers :: 'a model_provider tts_provider_strategy list)) None = Inr sel"
    "new_cache (tts_model_cache_size s0) = Inr c0"
    "preload_models loads (attach_all (reconcile_settings s0 sel) (new_registry default_providers)) (tts_preload_models s0) c0 = (Inr (), c1)"
    "preload_one loads (attach_all (reconcile_settings s0 sel) (new_registry default_providers)) (sel_provider sel)
       (model_default_for s0 (sel_provider sel)) c1 = (Inr (), dep_cache d)"
    "dep_settings d = reconcile_settings s0 sel" "dep_device d = device" "dep_selection d = sel"
    "dep_registry d = attach_all (reconcile_settings s0 sel) (new_registry default_providers)"
    "dep_admission d = new_admission (nat (tts_max_queue_depth (reconcile_settings s0 sel))) (nat (tts_max_concurrent_requests s0))"
proof -
  let ?r = "\<lambda>s. attach_all s (new_registry default_providers)"
  obtain s0 device sel c0 where b1: "load_settings (he_env H) (he_files H) = Inr s0"
      "select_provider (he_env H) device (new_registry (default_providers :: 'a model_provider tts_provider_strategy list)) None = Inr sel"
      "new_cache (tts_model_cache_size s0) = Inr c0"
    and rest: "(case preload_models loads (?r (reconcile_settings s0 sel)) (tts_preload_models s0) c0 of
             (Inl e, _) \<Rightarrow> Inl e
           | (Inr _, c1) \<Rightarrow> (case preload_one loads (?r (reconcile_settings s0 sel)) (sel_provider sel) (model_default_for s0 (sel_provider sel)) c1 of
               (Inl e, _) \<Rightarrow> Inl e
             | (Inr _, c2) \<Rightarrow>
                 bindE (build_voice_metadata_repo (reconcile_settings s0 sel) (he_missing_postgres H)) (\<lambda>md.
                 bindE (build_voice_blob_repo (reconcile_settings s0 sel) (he_missing_s3 H)) (\<lambda>bl.
                   Inr \<lparr>dep_settings = reconcile_settings s0 sel, dep_device = device, dep_selection = sel,
                     dep_registry = ?r (reconcile_settings s0 sel), dep_cache = c2,
                     dep_admission = new_admission (nat (tts_max_queue_depth (reconcile_settings s0 sel))) (nat (tts_max_concurrent_requests s0)),
                     dep_metadata = md, dep_blobs = bl,
                     dep_seed_path = resolve_seed_file_path (he_env H)
                       (\<lambda>p. cf_exists (he_files H p)) (\<lambda>p. cf_is_file (he_files H p))\<rparr>)))) = Inr d"
    using assms
    by (simp only: build_default_dependencies_def bindE_Inr_iff Let_def reconcile_frame map_sum_Inr_iff id_apply) blast
  obtain r1 c1 where m: "preload_models loads (?r (reconcile_settings s0 sel)) (tts_preload_models s0) c0 = (r1, c1)" by fastforce
  obtain r2 c2 where o: "preload_one loads (?r (reconcile_settings s0 sel)) (sel_provider sel) (model_default_for s0 (sel_provider sel)) c1 = (r2, c2)"
    by fastforce
  have "r1 = Inr ()" "r2 = Inr ()" using rest m o by (cases r1; cases r2; simp)+
  with rest m o have d: "dep_settings d = reconcile_settings s0 sel" "dep_device d = device" "dep_selection d = sel"
      "dep_registry d = ?r (reconcile_settings s0 sel)" "dep_cache d = c2"
      "dep_admission d = new_admission (nat (tts_max_queue_depth (reconcile_settings s0 sel))) (nat (tts_max_concurrent_requests s0))"
    by (auto simp: bindE_Inr_iff)
  show thesis
    by (rule that [OF b1 m [unfolded \<open>r1 = Inr ()\<close>] o [unfolded \<open>r2 = Inr ()\<close>, folded d(5)] d(1-4,6)])
qed

text \<open>
  C10: a service that starts is consistent. Whatever the environment, the files, the host and the models do, either the
  construction fails or: the selected provider is registered and supports the detected device, which is not the CPU; the current
  model is its default and on its allow-list; the cache respects its size, holds allowed models only, and the
  last one used is that default, so the first request finds it loaded - with a cache of one entry it is the only one,
  whatever else was to be preloaded; and at least one request may run.
\<close>

theorem startup_consistent:
  assumes "build_default_dependencies H loads = Inr d"
  shows "let s = dep_settings d; sel = dep_selection d in
    (\<exists>p. registry_find (dep_registry d) (sel_provider sel) = Some p \<and> dp_device (dep_device d) \<in> set (pv_devices p)) \<and>
    sel_device sel = dp_device (dep_device d) \<and> dp_device (dep_device d) \<noteq> ''cpu'' \<and>
    tts_provider s = sel_provider sel \<and> tts_model_default s \<in> set (tts_model_allowed s) \<and>
    cache_allowed s (dep_cache d) \<and> hd (loaded_keys (dep_cache d)) = (sel_provider sel, tts_model_default s) \<and>
    (tts_model_cache_size s = 1 \<longrightarrow> loaded_keys (dep_cache d) = [(sel_provider sel, tts_model_default s)]) \<and>
    1 \<le> concur_free (dep_admission d)"
proof -
  obtain s0 device sel c0 c1 where b: "load_settings (he_env H) (he_files H) = Inr s0"
    "select_provider (he_env H) device (new_registry (default_providers :: 'a model_provider tts_provider_strategy list)) None = Inr sel"
    "new_cache (tts_model_cache_size s0) = Inr c0"
    "preload_models loads (attach_all (reconcile_settings s0 sel) (new_registry default_providers)) (tts_preload_models s0) c0 = (Inr (), c1)"
    "preload_one loads (attach_all (reconcile_settings s0 sel) (new_registry default_providers)) (sel_provider sel)
       (model_default_for s0 (sel_provider sel)) c1 = (Inr (), dep_cache d)"
    and d: "dep_settings d = reconcile_settings s0 sel" "dep_device d = device" "dep_selection d = sel"
    "dep_registry d = attach_all (reconcile_settings s0 sel) (new_registry default_providers)"
    "dep_admission d = new_admission (nat (tts_max_queue_depth (reconcile_settings s0 sel))) (nat (tts_max_concurrent_requests s0))"
    using assms by (rule startup_stages)
  note s0 = load_settings_ok [OF b(1)]
  obtain p where p: "registry_find (new_registry default_providers) (sel_provider sel) = Some (p :: 'a model_provider tts_provider_strategy)"
      "dp_device device \<in> set (pv_devices p)" "sel_device sel = dp_device device" "sel_provider sel \<in> set provider_names"
    using select_default [OF b(2)] by blast
  have cpu: "dp_device device \<noteq> ''cpu''"
    using p(1,2) by (auto simp: registry_find_def default_providers_def new_registry_def split: if_splits)
  have reg: "registry_find (attach_all s (new_registry default_providers)) (sel_provider sel) = Some (p\<lparr>pv_impl := attach_model_cache (pv_impl p) (model_allowed_for s (pv_name p))\<rparr>)" for s
    using p(1) by (auto simp: registry_find_def attach_all_def default_providers_def new_registry_def split: if_splits)
  have dflt: "model_default_for s0 (sel_provider sel) \<in> set (model_allowed_for s0 (sel_provider sel))"
    using s0 p(4) by (intro default_allowed) auto
  have "cache_allowed (reconcile_settings s0 sel) c0"
    using new_cache_inv [OF b(3)] by (simp add: cache_allowed_def reconcile_frame)
  then have c1: "cache_allowed (reconcile_settings s0 sel) c1"
    by (rule preload_models_allowed [OF b(4)]) (use s0 in \<open>simp add: knobs_ok_def preload_ok_def reconcile_frame\<close>)
  from preload_one_allowed [OF b(5) c1] dflt have "cache_allowed (reconcile_settings s0 sel) (dep_cache d)"
      "loaded_keys (dep_cache d) \<noteq> []" "hd (loaded_keys (dep_cache d)) = (sel_provider sel, model_default_for s0 (sel_provider sel))"
    by (auto simp: reconcile_frame)
  moreover from this have "loaded_keys (dep_cache d) = [(sel_provider sel, model_default_for s0 (sel_provider sel))]"
    if "tts_model_cache_size s0 = 1"
  proof -
    have "length (loaded_keys (dep_cache d)) \<le> 1"
      using \<open>cache_allowed _ (dep_cache d)\<close> that by (simp add: cache_allowed_def cache_inv_def reconcile_frame) (simp add: loaded_keys_def)
    with \<open>loaded_keys (dep_cache d) \<noteq> []\<close> \<open>hd (loaded_keys (dep_cache d)) = _\<close> show ?thesis
      by (cases "loaded_keys (dep_cache d)") auto
  qed
  ultimately show ?thesis
    using d reg p(2,3) cpu dflt s0 by (auto simp: Let_def reconcile_frame new_admission_def)
qed

definition sample_host :: host_env where
  "sample_host = \<lparr>he_env = [(''TTS_MAX_INPUT_CHARS'', ''512'')], he_files = no_files,
     he_host = \<lparr>h_torch = None, h_system = ''Darwin'', h_machine = ''arm64''\<rparr>, he_missing_postgres = None, he_missing_s3 = None\<rparr>"

lemma sample_device:
  "resolve_device_profile (he_env sample_host) (he_host sample_host) None None =
     Inr \<lparr>dp_device = ''mps'', dp_dtype = ''float16'', dp_source = ''auto''\<rparr>"
proof -
  have l: "lower (strip ''auto'') = ''auto''"
    by (simp add: lower_id [of "''auto''"] lower_cp_def strip_def strip_by_def is_space_def space_cp_def)
  show ?thesis
    by (simp add: sample_host_def resolve_device_profile_def detect_device_def detect_dtype_def read_override_def get_default_def
        Let_def l normalize_override_def probe_device_def)
qed

lemma sample_dependencies:
  "\<exists>d. build_default_dependencies sample_host (\<lambda>_ _. Inr (0 :: nat)) = Inr d \<and> tts_max_queue_depth (dep_settings d) = 8 \<and>
     dep_metadata d = FsJsonBackend (tts_voice_store_dir (dep_settings d)) \<and>
     tts_default_preset (dep_settings d) = ''balanced'' \<and> tts_presets_file (dep_settings d) = ''config/presets.json''"
proof -
  obtain s where s: "load_settings (he_env sample_host) (he_files sample_host) = Inr s" "tts_preload_models s = []"
      "voice_metadata_backend s = ''fs_json''" "voice_blob_backend s = ''fs''" "tts_model_cache_size s = 1" "tts_max_queue_depth s = 8"
      "tts_default_preset s = ''balanced''" "tts_presets_file s = ''config/presets.json''"
    using load_settings_defaults by (auto simp: sample_host_def)
  have sel: "select_provider (he_env sample_host) \<lparr>dp_device = ''mps'', dp_dtype = ''float16'', dp_source = ''auto''\<rparr>
      (new_registry (default_providers :: nat model_provider tts_provider_strategy list)) None =
      Inr \<lparr>sel_provider = ''mlx_audio'', sel_device = ''mps'', sel_source = ''auto''\<rparr>"
    by (simp add: select_provider_def read_override_from_env_def sample_host_def select_auto_def registry_all_def new_registry_def
        default_providers_def)
  let ?sel = "\<lparr>sel_provider = ''mlx_audio'', sel_device = ''mps'', sel_source = ''auto''\<rparr>"
  let ?c = "\<lparr>lru_max = 1, lru_entries = []\<rparr> :: (nat, string) lru_cache"
  have "model_default_for s ''mlx_audio'' \<in> set (model_allowed_for s ''mlx_audio'')"
    using load_settings_ok [OF s(1)] by (intro default_allowed) (auto simp: provider_names_def)
  then have "\<exists>c. preload_one (\<lambda>_ _. Inr 0) (attach_all (reconcile_settings s ?sel) (new_registry default_providers)) ''mlx_audio''
      (model_default_for s ''mlx_audio'') ?c = (Inr (), c)"
    by (simp add: preload_one_def registry_get_def attach_all_def new_registry_def default_providers_def new_provider_def
        attach_model_cache_def preload_def get_model_def get_or_load_def try_hit_def validate_model_def reconcile_frame
        split: prod.split)
  then obtain c where "preload_one (\<lambda>_ _. Inr 0) (attach_all (reconcile_settings s ?sel) (new_registry default_providers)) ''mlx_audio''
      (model_default_for s ''mlx_audio'') ?c = (Inr (), c)" by blast
  then show ?thesis
    by (simp add: build_default_dependencies_def s sample_device sel new_cache_def reconcile_frame Let_def)
      (simp add: build_voice_metadata_repo_def build_voice_blob_repo_def reconcile_settings_def s)
qed

theorem startup_consistent_witness:
  "\<exists>d. build_default_dependencies sample_host (\<lambda>_ _. Inr (0 :: nat)) = Inr d \<and> dp_device (dep_device d) \<noteq> ''cpu'' \<and>
     tts_model_default (dep_settings d) \<in> set (tts_model_allowed (dep_settings d))"
proof -
  obtain d where d: "build_default_dependencies sample_host (\<lambda>_ _. Inr (0 :: nat)) = Inr d" using sample_dependencies by blast
  from startup_consistent [OF d] d show ?thesis by (simp add: Let_def)
qed

end
