(* ===== verification/Lifecycle.thy ===== *)
theory Lifecycle
  imports Startup
begin

text \<open>
  The life of the process (\<open>main.py\<close>): the environment files, the start-up in \<open>lifespan\<close>, the drain at shutdown,
  and the two probes of \<open>routers/health.py\<close>. Times are rational seconds of the event loop's clock; what
  the drain observes at its \<open>i\<close>-th look is a parameter.
\<close>

subsection \<open>Environment files\<close>

definition line_break :: "char \<Rightarrow> bool" where
  "line_break c \<longleftrightarrow> (of_char c :: nat) \<in> {10, 11, 12, 13, 28, 29, 30, 133}"

text \<open>\<open>str.splitlines\<close>: CR LF is one break, and the last line need not end in one.\<close>

function splitlines :: "string \<Rightarrow> string list" where
  "splitlines [] = []"
| "splitlines (c # cs) =
     (if line_break c then [] # splitlines (if c = CHR 0x0D \<and> cs \<noteq> [] \<and> hd cs = CHR 0x0A then tl cs else cs)
      else (case splitlines cs of [] \<Rightarrow> [[c]] | l # ls \<Rightarrow> (c # l) # ls))"
  by pat_completeness auto
termination
  by (relation "measure length") auto

definition load_env_line :: "string \<Rightarrow> environ \<Rightarrow> environ res" where
  "load_env_line line env =
     (let s = strip line in
      if s = [] \<or> hd s = CHR ''#'' \<or> CHR ''='' \<notin> set s then Inr env
      else (let key = strip (fst (split1 (CHR ''='') s));
                value = strip_by (\<lambda>c. c = CHR 0x27) (strip_by (\<lambda>c. c = CHR 0x22) (strip (snd (split1 (CHR ''='') s))))
            in if key = [] then Inr env
               else if CHR 0x00 \<in> set key \<or> CHR 0x00 \<in> set value then Inl (ValueErr ''embedded null byte'')
               else Inr (AList.update key value env)))"

fun load_env_lines :: "string list \<Rightarrow> environ \<Rightarrow> environ res" where
  "load_env_lines [] env = Inr env"
| "load_env_lines (l # ls) env = bindE (load_env_line l env) (load_env_lines ls)"

text \<open>A file: \<open>None\<close> when there is none, else what reading it gives.\<close>

definition load_env_file :: "string res option \<Rightarrow> environ \<Rightarrow> environ res" where
  "load_env_file f env = (case f of None \<Rightarrow> Inr env | Some r \<Rightarrow> bindE r (\<lambda>t. load_env_lines (splitlines t) env))"

definition load_default_env_files :: "string res option \<Rightarrow> string res option \<Rightarrow> environ \<Rightarrow> environ res" where
  "load_default_env_files dotenv local env = bindE (load_env_file dotenv env) (load_env_file local)"

definition test_bypass_active :: "environ \<Rightarrow> bool" where
  "test_bypass_active env = (lower (strip (get_default env ''LLM_TTS_API_TEST_NO_LIFESPAN'' [])) \<in> {''1'', ''true'', ''yes''})"

subsection \<open>Shutdown\<close>

text \<open>Whether the warning is written: \<open>free\<close> is what psutil says, \<open>None\<close> when it is missing or fails.\<close>

definition emit_low_memory_warning :: "int \<Rightarrow> int option \<Rightarrow> bool" where
  "emit_low_memory_warning threshold_gb free =
     (if threshold_gb \<le> 0 then False else (case free of None \<Rightarrow> False | Some b \<Rightarrow> b < threshold_gb * 1024 ^ 3))"

datatype drain_result = NothingToDrain | Drained | DrainTimedOut int

fun drain_loop :: "nat \<Rightarrow> int \<Rightarrow> rat \<Rightarrow> (nat \<Rightarrow> int \<times> rat) \<Rightarrow> nat \<Rightarrow> drain_result option" where
  "drain_loop 0 capacity deadline look i = None"
| "drain_loop (Suc fuel) capacity deadline look i =
     (if capacity \<le> fst (look i) then Some Drained
      else if deadline - snd (look i) \<le> 0 then Some (DrainTimedOut (capacity - fst (look i)))
      else drain_loop fuel capacity deadline look (i + 1))"

definition drain_concurrency :: "nat \<Rightarrow> int \<Rightarrow> int \<Rightarrow> rat \<Rightarrow> (nat \<Rightarrow> int \<times> rat) \<Rightarrow> drain_result option" where
  "drain_concurrency fuel capacity drain_seconds start look =
     (if capacity \<le> 0 then Some NothingToDrain
      else if drain_seconds \<le> 0 then Some NothingToDrain
      else drain_loop fuel capacity (start + of_int drain_seconds) look 0)"

subsection \<open>Start-up\<close>

record 'm running =
  run_deps :: "'m dependencies"
  run_presets :: preset_registry

text \<open>The part of \<open>lifespan\<close> before \<open>yield\<close>; a backend is opened by its description.\<close>

definition lifespan_startup :: "host_env \<Rightarrow> 'm loads \<Rightarrow> schema_lib \<Rightarrow> nat option \<Rightarrow> (string \<Rightarrow> presets_file) \<Rightarrow>
    (metadata_backend \<Rightarrow> 's metadata_ops) \<Rightarrow> (blob_backend \<Rightarrow> 'b blob_ops) \<Rightarrow> (string \<Rightarrow> audio_file) \<Rightarrow> datetime \<Rightarrow>
    (string option \<Rightarrow> seed_file) \<Rightarrow> 's \<times> 'b \<Rightarrow> 'm running res \<times> ('s \<times> 'b) \<times> ingest_log list" where
  "lifespan_startup H loads S euid presets open_meta open_blobs audio now seed st =
     (case build_default_dependencies H loads of
        Inl e \<Rightarrow> (Inl e, st, [])
      | Inr d \<Rightarrow> (case load_presets_or_exit S (dep_settings d) (dep_registry d) euid (presets (tts_presets_file (dep_settings d))) of
          Inl e \<Rightarrow> (Inl e, st, [])
        | Inr r \<Rightarrow> (case ingest_once (open_meta (dep_metadata d)) (open_blobs (dep_blobs d)) audio now (seed (dep_seed_path d)) st of
            (Inl e, st', logs) \<Rightarrow> (Inl e, st', logs)
          | (Inr _, st', logs) \<Rightarrow> (Inr \<lparr>run_deps = d, run_presets = r\<rparr>, st', logs))))"

text \<open>\<open>app.state.ready\<close> with its reason, in the phases of the process; \<open>None\<close>: it never serves.\<close>

type_synonym probe_state = "bool \<times> string"

definition before_startup :: probe_state where
  "before_startup = (False, ''warming_up'')"

definition while_serving :: "bool \<Rightarrow> 'm running res \<Rightarrow> probe_state option" where
  "while_serving bypass started =
     (if bypass then Some before_startup else (case started of Inl _ \<Rightarrow> None | Inr _ \<Rightarrow> Some (True, ''ready'')))"

definition after_serving :: probe_state where
  "after_serving = (False, ''draining'')"

definition shutdown_seconds :: "bool \<Rightarrow> 'm running res \<Rightarrow> int" where
  "shutdown_seconds bypass started =
     (if bypass then 0 else (case started of Inl _ \<Rightarrow> 0 | Inr run \<Rightarrow> tts_shutdown_drain_seconds (dep_settings (run_deps run))))"

subsection \<open>Probes\<close>

text \<open>The slots of \<open>app.state\<close> the liveness probe reads; the semaphores are their free permits.\<close>

record slots =
  sl_selection :: "provider_selection option"
  sl_device :: "device_profile option"
  sl_loaded :: "cache_key list option"
  sl_settings :: "settings option"
  sl_queue :: "int option"
  sl_concur :: "int option"

definition semaphore_used :: "int option \<Rightarrow> int \<Rightarrow> int" where
  "semaphore_used sem capacity = (case sem of
       None \<Rightarrow> 0
     | Some available \<Rightarrow> if capacity \<le> 0 then 0 else if 0 < capacity - available then capacity - available else 0)"

definition health :: "string \<Rightarrow> slots \<Rightarrow> json" where
  "health version st = JObj (
     [(''status'', JStr ''ok''), (''version'', JStr version)] @
     (case sl_selection st of None \<Rightarrow> []
      | Some sel \<Rightarrow> [(''provider'', JStr (sel_provider sel)), (''provider_source'', JStr (sel_source sel)),
          (''device'', JStr (sel_device sel))]) @
     (case sl_device st of None \<Rightarrow> []
      | Some p \<Rightarrow> (if sl_selection st = None then [(''device'', JStr (dp_device p))] else []) @ [(''dtype'', JStr (dp_dtype p))]) @
     [(''model_loaded'', JList (case sl_loaded st of None \<Rightarrow> [] | Some ks \<Rightarrow> map (\<lambda>(p, m). JStr (p @ '':'' @ m)) ks)),
      (''queue_depth'', JInt (semaphore_used (sl_queue st) (case sl_settings st of None \<Rightarrow> 0 | Some s \<Rightarrow> tts_max_queue_depth s))),
      (''concurrent_active'', JInt (semaphore_used (sl_concur st) (case sl_settings st of None \<Rightarrow> 0 | Some s \<Rightarrow> tts_max_concurrent_requests s)))])"

definition ready :: "probe_state \<Rightarrow> response" where
  "ready p = (case p of (flag, reason) \<Rightarrow>
     if flag then \<lparr>resp_status = 200, resp_headers = [], resp_body = JsonBody (JObj [(''status'', JStr ''ready'')])\<rparr>
     else \<lparr>resp_status = 503, resp_headers = [],
       resp_body = JsonBody (JObj [(''ready'', JBool False), (''reason'', JStr reason)])\<rparr>)"

subsection \<open>The drain ends\<close>

text \<open>
  \<open>asyncio.sleep(min(0.05, remaining))\<close> and the monotonic clock: after a look that neither finds the semaphore free nor
  the time over, the next look is at least that much later.
\<close>

definition clock_law :: "rat \<Rightarrow> (nat \<Rightarrow> int \<times> rat) \<Rightarrow> bool" where
  "clock_law deadline look \<longleftrightarrow>
     (\<forall>i. 0 < deadline - snd (look i) \<longrightarrow> snd (look i) + min (1 / 20) (deadline - snd (look i)) \<le> snd (look (i + 1)))"

lemma drain_loop_ends:
  assumes "clock_law deadline look"
  shows "20 * (deadline - snd (look i)) \<le> of_nat n \<Longrightarrow>
    \<exists>k \<ge> i. (\<forall>j. i \<le> j \<and> j < k \<longrightarrow> fst (look j) < capacity) \<and>
      (drain_loop (Suc n) capacity deadline look i = Some Drained \<and> capacity \<le> fst (look k) \<or>
       drain_loop (Suc n) capacity deadline look i = Some (DrainTimedOut (capacity - fst (look k))) \<and>
         fst (look k) < capacity \<and> deadline \<le> snd (look k))"
proof (induction n arbitrary: i)
  case 0
  then show ?case by (intro exI [where x = i]) auto
next
  case (Suc n)
  show ?case
  proof (cases "capacity \<le> fst (look i) \<or> deadline - snd (look i) \<le> 0")
    case True
    then show ?thesis by (intro exI [where x = i]) auto
  next
    case False
    then have "snd (look i) + min (1 / 20) (deadline - snd (look i)) \<le> snd (look (i + 1))"
      using assms by (auto simp: clock_law_def)
    then have "20 * (deadline - snd (look (i + 1))) \<le> of_nat n"
      using Suc.prems by (auto simp: min_def split: if_splits)
    from Suc.IH [OF this] obtain k where k: "i + 1 \<le> k" "\<forall>j. i + 1 \<le> j \<and> j < k \<longrightarrow> fst (look j) < capacity"
      "drain_loop (Suc n) capacity deadline look (i + 1) = Some Drained \<and> capacity \<le> fst (look k) \<or>
       drain_loop (Suc n) capacity deadline look (i + 1) = Some (DrainTimedOut (capacity - fst (look k))) \<and>
         fst (look k) < capacity \<and> deadline \<le> snd (look k)" by blast
    have "drain_loop (Suc (Suc n)) capacity deadline look i = drain_loop (Suc n) capacity deadline look (i + 1)"
      using False by simp
    moreover have "\<forall>j. i \<le> j \<and> j < k \<longrightarrow> fst (look j) < capacity"
      using k(2) False by (metis Suc_eq_plus1 Suc_leI le_neq_implies_less linorder_not_less)
    ultimately show ?thesis using k by (intro exI [where x = k]) (auto simp del: drain_loop.simps)
  qed
qed

text \<open>
  C34: shutdown ends. On a monotonic clock the drain looks at most twenty times a second of its time and once more: with
  that fuel it returns; it returns at the first look that finds every permit free, or, not before the time
  is over, with the number of requests that are still running, at least one.
\<close>

theorem drain_terminates:
  assumes "0 < capacity" "0 < drain_seconds" "clock_law (start + of_int drain_seconds) look" "start \<le> snd (look 0)"
    and "20 * nat drain_seconds + 1 \<le> fuel"
  shows "\<exists>k. (\<forall>j<k. fst (look j) < capacity) \<and>
    (drain_concurrency fuel capacity drain_seconds start look = Some Drained \<and> capacity \<le> fst (look k) \<or>
     (\<exists>n>0. drain_concurrency fuel capacity drain_seconds start look = Some (DrainTimedOut n) \<and> n = capacity - fst (look k) \<and>
       start + of_int drain_seconds \<le> snd (look k)))"
proof -
  obtain n where n: "fuel = Suc n" "20 * nat drain_seconds \<le> n" using assms(5) by (cases fuel) auto
  have "20 * (start + of_int drain_seconds - snd (look 0)) \<le> 20 * of_int drain_seconds" using assms(4) by simp
  also have "\<dots> = of_nat (20 * nat drain_seconds)" using assms(2) by simp
  also have "\<dots> \<le> (of_nat n :: rat)" using n(2) by (simp only: of_nat_le_iff)
  finally have le: "20 * (start + of_int drain_seconds - snd (look 0)) \<le> of_nat n" .
  from drain_loop_ends [OF assms(3) le, of capacity] obtain k where
    k: "\<forall>j. j < k \<longrightarrow> fst (look j) < capacity"
      "drain_loop (Suc n) capacity (start + of_int drain_seconds) look 0 = Some Drained \<and> capacity \<le> fst (look k) \<or>
       drain_loop (Suc n) capacity (start + of_int drain_seconds) look 0 = Some (DrainTimedOut (capacity - fst (look k))) \<and>
         fst (look k) < capacity \<and> start + of_int drain_seconds \<le> snd (look k)" by blast
  have "drain_concurrency fuel capacity drain_seconds start look = drain_loop (Suc n) capacity (start + of_int drain_seconds) look 0"
    using assms(1,2) n(1) by (simp add: drain_concurrency_def del: drain_loop.simps)
  with k show ?thesis by (intro exI [where x = k]) auto
qed

theorem drain_terminates_witness:
  "drain_concurrency 21 1 1 0 (\<lambda>i. (0, of_nat i / 20)) = Some (DrainTimedOut 1)"
proof -
  have "clock_law (0 + of_int 1) (\<lambda>i. (0, of_nat i / 20))"
    by (auto simp: clock_law_def field_simps)
  from drain_terminates [OF _ _ this, of 1 21] show ?thesis by auto
qed

subsection \<open>Readiness\<close>

text \<open>
  C35: the readiness probe says yes only of a service that is up. It answers 200 only while serving, after the whole
  start-up: the dependencies are built, the presets are loaded with the default among them and every pin allowed, and the seed
  pass has returned. Before, after a start-up that failed, and during the shutdown it is a 503 with the
  reason.
\<close>

theorem ready_after_startup:
  assumes "lifespan_startup H loads S euid presets open_meta open_blobs audio now seed st = (started, st', logs)"
    and "p \<in> {before_startup, after_serving} \<union> set_option (while_serving bypass started)"
  shows "(resp_status (ready p) = 200 \<longleftrightarrow> p = (True, ''ready'')) \<and>
    (resp_status (ready p) = 503 \<longleftrightarrow> p \<in> {(False, ''warming_up''), (False, ''draining'')}) \<and>
    (resp_status (ready p) = 200 \<longrightarrow> \<not> bypass \<and> (\<exists>d r n.
      started = Inr \<lparr>run_deps = d, run_presets = r\<rparr> \<and> build_default_dependencies H loads = Inr d \<and>
      safe_permissions euid (presets (tts_presets_file (dep_settings d))) \<and> tts_default_preset (dep_settings d) \<in> preset_names r \<and>
      pins_ok (allow_lists_from_settings (dep_settings d) (Some (registry_names (dep_registry d)))) r \<and>
      ingest_once (open_meta (dep_metadata d)) (open_blobs (dep_blobs d)) audio now (seed (dep_seed_path d)) st = (Inr n, st', logs)))"
proof -
  have "\<exists>d r n. started = Inr \<lparr>run_deps = d, run_presets = r\<rparr> \<and> build_default_dependencies H loads = Inr d \<and>
      safe_permissions euid (presets (tts_presets_file (dep_settings d))) \<and> tts_default_preset (dep_settings d) \<in> preset_names r \<and>
      pins_ok (allow_lists_from_settings (dep_settings d) (Some (registry_names (dep_registry d)))) r \<and>
      ingest_once (open_meta (dep_metadata d)) (open_blobs (dep_blobs d)) audio now (seed (dep_seed_path d)) st = (Inr n, st', logs)"
    if "started = Inr run" for run
    using assms(1) that
    by (auto simp: lifespan_startup_def load_presets_or_exit_def map_sum_Inr_iff initialize_preset_registry_iff
        split: sum.splits prod.splits)
  with assms(2) show ?thesis
    by (auto simp: ready_def while_serving_def before_startup_def after_serving_def split: if_splits sum.splits)
qed

text \<open>
  The liveness probe reports the load. In every state the admission can reach, under every interleaving and failure, the
  numbers of the probe are the requests that hold a permit of the queue and the requests that are past the
  concurrency semaphore.
\<close>

theorem health_reports_load:
  assumes "adm_reachable max_queue max_concur s"
  shows "semaphore_used (Some (int (queue_free s))) (int max_queue) = int (card (queue_holders s)) \<and>
    semaphore_used (Some (int (concur_free s))) (int max_concur) = int (card (concur_holders s))"
proof -
  have "adm_inv max_queue max_concur s" using assms by (rule adm_reachable_inv)
  then have "queue_free s + card (queue_holders s) = max_queue" "concur_free s + card (concur_holders s) = max_concur"
    by (simp_all add: adm_inv_def)
  then show ?thesis by (auto simp: semaphore_used_def)
qed

theorem health_reports_load_witness:
  "let s = goto 1 (Queued (''p'', ''m'') 1) ((new_admission 2 1)\<lparr>queue_free := 1\<rparr>) in
   semaphore_used (Some (int (queue_free s))) 2 = int (card (queue_holders s))"
proof -
  have "adm_reachable 2 1 (goto 1 (Queued (''p'', ''m'') 1) ((new_admission 2 1)\<lparr>queue_free := queue_free (new_admission 2 1) - 1\<rparr>))"
    by (rule adm_reachable.step [OF adm_reachable.init adm_step.admit]) (simp_all add: new_admission_def)
  from health_reports_load [OF this] show ?thesis by (simp add: new_admission_def)
qed

theorem ready_after_startup_witness:
  "\<exists>d r. lifespan_startup sample_host (\<lambda>_ _. Inr (0 :: nat)) strict_schema (Some 1000) (\<lambda>_. sample_presets (Fin 1))
      (\<lambda>_. fs_metadata_repo sample_stdlib) (\<lambda>_. fs_blob_repo) wav_files sample_time (\<lambda>_. SeedUnset) (sample_meta, sample_blobs []) =
      (Inr \<lparr>run_deps = d, run_presets = r\<rparr>, (sample_meta, sample_blobs []), [LogNoFile]) \<and>
    resp_status (ready (True, ''ready'')) = 200 \<and> tts_default_preset (dep_settings d) \<in> preset_names r"
proof -
  let ?r = "[(''balanced'', sample_entry (Fin 1))]"
  obtain d where d: "build_default_dependencies sample_host (\<lambda>_ _. Inr (0 :: nat)) = Inr d"
      "tts_default_preset (dep_settings d) = ''balanced''" "tts_presets_file (dep_settings d) = ''config/presets.json''"
    using sample_dependencies by blast
  have "initialize_preset_registry strict_schema (dep_settings d) (Some (registry_names (dep_registry d))) (Some 1000)
      (sample_presets (Fin 1)) = Inr ?r"
    by (simp add: initialize_preset_registry_iff sample_presets_safe sample_load d preset_names_def pins_ok_def)
  then have run: "lifespan_startup sample_host (\<lambda>_ _. Inr (0 :: nat)) strict_schema (Some 1000) (\<lambda>_. sample_presets (Fin 1))
      (\<lambda>_. fs_metadata_repo sample_stdlib) (\<lambda>_. fs_blob_repo) wav_files sample_time (\<lambda>_. SeedUnset) (sample_meta, sample_blobs []) =
      (Inr \<lparr>run_deps = d, run_presets = ?r\<rparr>, (sample_meta, sample_blobs []), [LogNoFile])"
    by (simp add: lifespan_startup_def d(1) load_presets_or_exit_def ingest_once_def Let_def)
  from ready_after_startup [OF run, of "(True, ''ready'')" False] run show ?thesis
    by (simp add: while_serving_def)
qed

subsection \<open>Environment files assign what they say\<close>

definition plain_env_char :: "char \<Rightarrow> bool" where
  "plain_env_char c \<longleftrightarrow> \<not> is_space c \<and> c \<noteq> CHR 0x00 \<and> c \<noteq> CHR 0x22 \<and> c \<noteq> CHR 0x27"

definition plain_assignment :: "string \<times> string \<Rightarrow> bool" where
  "plain_assignment kv \<longleftrightarrow> list_all plain_env_char (fst kv) \<and> list_all plain_env_char (snd kv) \<and> fst kv \<noteq> [] \<and>
     CHR ''='' \<notin> set (fst kv) \<and> hd (fst kv) \<noteq> CHR ''#''"

definition env_line :: "string \<times> string \<Rightarrow> string" where
  "env_line kv = fst kv @ [CHR ''=''] @ snd kv"

lemma line_break_space: "line_break c \<Longrightarrow> is_space c"
  by (auto simp: line_break_def is_space_def space_cp_def)

lemma splitlines_line: "\<forall>c\<in>set l. \<not> line_break c \<Longrightarrow> splitlines (l @ CHR 0x0A # rest) = l # splitlines rest"
proof (induction l)
  case Nil
  have "line_break (CHR 0x0A)" by (simp add: line_break_def)
  then show ?case by simp
next
  case (Cons c l)
  then show ?case by simp
qed

lemma strip_by_none: "\<forall>c\<in>set s. \<not> P c \<Longrightarrow> strip_by P s = s"
  by (cases "s = []") (auto intro: strip_by_id)

lemma strip_plain_chars: "list_all plain_env_char s \<Longrightarrow> strip s = s"
  unfolding strip_def by (rule strip_by_none) (auto simp: list_all_iff plain_env_char_def)

lemma env_line_plain:
  assumes "plain_assignment kv"
  shows "\<forall>c\<in>set (env_line kv). \<not> line_break c" "load_env_line (env_line kv) env = Inr (AList.update (fst kv) (snd kv) env)"
proof -
  note a = assms [unfolded plain_assignment_def]
  have chars: "\<forall>c\<in>set (env_line kv). \<not> is_space c"
    using a by (auto simp: env_line_def list_all_iff plain_env_char_def is_space_def space_cp_def)
  then show "\<forall>c\<in>set (env_line kv). \<not> line_break c" using line_break_space by blast
  have st: "strip (env_line kv) = env_line kv" unfolding strip_def using chars by (rule strip_by_none)
  have sp: "split1 (CHR ''='') (env_line kv) = (fst kv, snd kv)"
    using a by (auto simp: split1_def env_line_def takeWhile_append dropWhile_append)
  have v: "strip_by (\<lambda>c. c = CHR 0x27) (strip_by (\<lambda>c. c = CHR 0x22) (snd kv)) = snd kv"
    using a by (simp add: strip_by_none list_all_iff plain_env_char_def)
  have nul: "CHR 0x00 \<notin> set (fst kv)" "CHR 0x00 \<notin> set (snd kv)" using a by (auto simp: list_all_iff plain_env_char_def)
  have line: "env_line kv \<noteq> []" "hd (env_line kv) = hd (fst kv)" "CHR ''='' \<in> set (env_line kv)"
    using a by (simp_all add: env_line_def)
  show "load_env_line (env_line kv) env = Inr (AList.update (fst kv) (snd kv) env)"
    unfolding load_env_line_def Let_def st sp fst_conv snd_conv strip_plain_chars [OF conjunct1 [OF a]]
      strip_plain_chars [OF conjunct1 [OF conjunct2 [OF a]]] v line(2)
    using a nul line(1,3) by simp
qed

lemma load_env_text:
  "\<forall>kv\<in>set kvs. plain_assignment kv \<Longrightarrow>
   load_env_lines (splitlines (concat (map (\<lambda>kv. env_line kv @ [CHR 0x0A]) kvs))) env = Inr (fold (\<lambda>kv. AList.update (fst kv) (snd kv)) kvs env)"
proof (induction kvs arbitrary: env)
  case (Cons kv kvs)
  then show ?case using env_line_plain [of kv] by (simp add: splitlines_line)
qed simp

text \<open>
  An environment file assigns exactly what it says. A file of plain assignments, one a line, sets each of its variables,
  the last of a name winning, over what the process was started with, and changes no other; the file for the machine
  (\<open>.env.local\<close>) is read after the one of the project and wins over it.
\<close>

theorem env_files_assign:
  assumes "\<forall>kv\<in>set kvs. plain_assignment kv" "\<forall>kv\<in>set locals. plain_assignment kv"
  defines "render \<equiv> \<lambda>kvs. Some (Inr (concat (map (\<lambda>kv. env_line kv @ [CHR 0x0A]) kvs)))"
  shows "\<exists>env'. load_default_env_files (render kvs) (render locals) env = Inr env' \<and>
    (\<forall>name. map_of env' name = (case map_of (rev locals) name of Some v \<Rightarrow> Some v
       | None \<Rightarrow> (case map_of (rev kvs) name of Some v \<Rightarrow> Some v | None \<Rightarrow> map_of env name)))"
proof -
  have fold: "map_of (fold (\<lambda>kv. AList.update (fst kv) (snd kv)) xs e) name =
      (case map_of (rev xs) name of Some v \<Rightarrow> Some v | None \<Rightarrow> map_of e name)" for xs :: "(string \<times> string) list" and e name
    by (induction xs arbitrary: e) (auto simp: update_conv map_add_def split: option.splits)
  show ?thesis
    using load_env_text [OF assms(1), of env] load_env_text [OF assms(2)]
    by (simp add: render_def load_default_env_files_def load_env_file_def fold split: option.split)
qed

theorem env_files_assign_witness:
  "\<exists>env'. load_default_env_files (Some (Inr (env_line (''A'', ''1'') @ [CHR 0x0A]))) (Some (Inr (env_line (''A'', ''2'') @ [CHR 0x0A])))
      [(''A'', ''0''), (''B'', ''0'')] = Inr env' \<and> map_of env' ''A'' = Some ''2'' \<and> map_of env' ''B'' = Some ''0''"
proof -
  have "plain_assignment (''A'', v :: string)" if "list_all plain_env_char v" for v
    using that by (simp add: plain_assignment_def plain_env_char_def is_space_def space_cp_def)
  then have "\<forall>kv\<in>set [(''A'', ''1'')]. plain_assignment kv" "\<forall>kv\<in>set [(''A'', ''2'')]. plain_assignment kv"
    by (simp_all add: plain_env_char_def is_space_def space_cp_def)
  from env_files_assign [OF this, of "[(''A'', ''0''), (''B'', ''0'')]"] show ?thesis by auto
qed

end
