(* ===== verification/Postgres.thy ===== *)
theory Postgres
  imports VoiceRepos "HOL-Library.AList"
begin

text \<open>
  \<open>voice_store/postgres_metadata.py\<close>: the voice records in one table of PostgreSQL. The driver is a parameter: its
  connections and statements on a state \<open>'d\<close>, where \<open>pg_laws\<close> states what PostgreSQL documents of transactions. The
  repository keeps, beside that state, whether it has created its table.
\<close>

subsection \<open>The driver\<close>

record pg_row =
  pr_id :: string
  pr_transcript :: string
  pr_language :: string
  pr_consent :: bool
  pr_number_lang :: string
  pr_target_db :: pyfloat
  pr_temperature :: pyfloat
  pr_top_p :: pyfloat
  pr_max_sentences :: int
  pr_source :: json
  pr_created_at :: datetime
  pr_updated_at :: datetime

text \<open>The six statements of the module, with their arguments.\<close>

datatype sql =
    CreateTable
  | SelectAll
  | SelectRow string
  | SelectOne string
  | Insert pg_row
  | UpdateSet pg_row
  | DeleteFrom string

datatype sql_result = Rows "pg_row list" | RowCount nat

datatype sql_error = UniqueViolation string | SqlFails py_exc

text \<open>\<open>pg_close True\<close> leaves the block of a connection normally, which commits; \<open>pg_close False\<close> on an exception.\<close>

record 'd pg =
  pg_connect :: "'d \<Rightarrow> unit res \<times> 'd"
  pg_execute :: "sql \<Rightarrow> 'd \<Rightarrow> (sql_error + sql_result) \<times> 'd"
  pg_commit :: "'d \<Rightarrow> unit res \<times> 'd"
  pg_rollback :: "'d \<Rightarrow> unit res \<times> 'd"
  pg_close :: "bool \<Rightarrow> 'd \<Rightarrow> unit res \<times> 'd"

type_synonym 'd pg_state = "bool \<times> 'd"

subsection \<open>The repository\<close>

definition new_pg_repo :: "string \<Rightarrow> 'd \<Rightarrow> 'd pg_state res" where
  "new_pg_repo dsn d =
     (if dsn = [] then Inl (ValueErr ''PostgresMetadataRepository requires a non-empty DSN'') else Inr (False, d))"

text \<open>\<open>replace(tzinfo=timezone.utc)\<close> on a naive timestamp.\<close>

definition assume_utc :: "datetime \<Rightarrow> datetime" where
  "assume_utc t = (if dt_offset t = None then t\<lparr>dt_offset := Some 0\<rparr> else t)"

definition row_to_record :: "pg_row \<Rightarrow> voice_record" where
  "row_to_record row = \<lparr>vr_id = pr_id row, vr_transcript = pr_transcript row, vr_language = pr_language row,
     vr_consent = pr_consent row, vr_number_lang = pr_number_lang row, vr_target_db = pr_target_db row,
     vr_temperature = pr_temperature row, vr_top_p = pr_top_p row, vr_max_sentences = pr_max_sentences row,
     vr_source = pr_source row, vr_created_at = assume_utc (pr_created_at row), vr_updated_at = assume_utc (pr_updated_at row)\<rparr>"

definition row_of :: "voice_record \<Rightarrow> pg_row" where
  "row_of r = \<lparr>pr_id = vr_id r, pr_transcript = vr_transcript r, pr_language = vr_language r, pr_consent = vr_consent r,
     pr_number_lang = vr_number_lang r, pr_target_db = vr_target_db r, pr_temperature = vr_temperature r, pr_top_p = vr_top_p r,
     pr_max_sentences = vr_max_sentences r, pr_source = vr_source r, pr_created_at = vr_created_at r, pr_updated_at = vr_updated_at r\<rparr>"

text \<open>\<open>async with\<close> a fresh connection.\<close>

definition in_connection :: "'d pg \<Rightarrow> ('d \<Rightarrow> 'a res \<times> 'd) \<Rightarrow> 'd \<Rightarrow> 'a res \<times> 'd" where
  "in_connection P body d = (case pg_connect P d of
       (Inl e, d1) \<Rightarrow> (Inl e, d1)
     | (Inr _, d1) \<Rightarrow> (case body d1 of
         (Inl e, d2) \<Rightarrow> (Inl e, snd (pg_close P False d2))
       | (Inr x, d2) \<Rightarrow> (case pg_close P True d2 of
           (Inl e, d3) \<Rightarrow> (Inl e, d3)
         | (Inr _, d3) \<Rightarrow> (Inr x, d3))))"

fun sql_raise :: "sql_error \<Rightarrow> py_exc" where
  "sql_raise (UniqueViolation m) = OtherErr m"
| "sql_raise (SqlFails e) = e"

definition run_sql :: "'d pg \<Rightarrow> sql \<Rightarrow> 'd \<Rightarrow> sql_result res \<times> 'd" where
  "run_sql P q d = (case pg_execute P q d of (r, d1) \<Rightarrow> (map_sum sql_raise id r, d1))"

definition then_do :: "'a res \<times> 'd \<Rightarrow> ('a \<Rightarrow> 'd \<Rightarrow> 'b res \<times> 'd) \<Rightarrow> 'b res \<times> 'd" where
  "then_do r f = (case r of (Inl e, d) \<Rightarrow> (Inl e, d) | (Inr x, d) \<Rightarrow> f x d)"

definition ensure_schema :: "'d pg \<Rightarrow> 'd pg_state \<Rightarrow> unit res \<times> 'd pg_state" where
  "ensure_schema P st = (case st of (initialized, d) \<Rightarrow>
     if initialized then (Inr (), st)
     else (case in_connection P (\<lambda>d. then_do (run_sql P CreateTable d) (\<lambda>_. pg_commit P)) d of
         (Inl e, d1) \<Rightarrow> (Inl e, False, d1)
       | (Inr _, d1) \<Rightarrow> (Inr (), True, d1)))"

text \<open>\<open>async with await self._connect() as conn\<close>\<close>

definition with_conn :: "'d pg \<Rightarrow> ('d \<Rightarrow> 'a res \<times> 'd) \<Rightarrow> 'd pg_state \<Rightarrow> 'a res \<times> 'd pg_state" where
  "with_conn P body st = (case ensure_schema P st of
       (Inl e, st1) \<Rightarrow> (Inl e, st1)
     | (Inr _, initialized, d) \<Rightarrow> (case in_connection P body d of (r, d1) \<Rightarrow> (r, initialized, d1)))"

fun fetchall :: "sql_result \<Rightarrow> pg_row list" where
  "fetchall (Rows rs) = rs"
| "fetchall (RowCount _) = []"

fun fetchone :: "sql_result \<Rightarrow> pg_row option" where
  "fetchone (Rows (r # _)) = Some r"
| "fetchone _ = None"

fun rowcount :: "sql_result \<Rightarrow> nat" where
  "rowcount (Rows rs) = length rs"
| "rowcount (RowCount n) = n"

definition pg_list :: "'d pg \<Rightarrow> datetime \<Rightarrow> 'd pg_state \<Rightarrow> voice_record list res \<times> 'd pg_state" where
  "pg_list P now st = (case with_conn P (run_sql P SelectAll) st of
       (r, st1) \<Rightarrow> (map_sum id (\<lambda>rows. map row_to_record (fetchall rows)) r, st1))"

definition pg_get :: "'d pg \<Rightarrow> datetime \<Rightarrow> string \<Rightarrow> 'd pg_state \<Rightarrow> voice_record res \<times> 'd pg_state" where
  "pg_get P now v st = (case validate_voice_id v of
       Inl e \<Rightarrow> (Inl e, st)
     | Inr _ \<Rightarrow> (case with_conn P (run_sql P (SelectRow v)) st of
         (Inl e, st1) \<Rightarrow> (Inl e, st1)
       | (Inr rows, st1) \<Rightarrow> (case fetchone rows of
           None \<Rightarrow> (Inl (VoiceNotFound v), st1)
         | Some row \<Rightarrow> (Inr (row_to_record row), st1))))"

definition pg_exists :: "'d pg \<Rightarrow> datetime \<Rightarrow> string \<Rightarrow> 'd pg_state \<Rightarrow> bool res \<times> 'd pg_state" where
  "pg_exists P now v st = (case validate_voice_id v of
       Inl e \<Rightarrow> (Inl e, st)
     | Inr _ \<Rightarrow> (case with_conn P (run_sql P (SelectOne v)) st of
         (r, st1) \<Rightarrow> (map_sum id (\<lambda>rows. fetchone rows \<noteq> None) r, st1)))"

definition pg_create :: "'d pg \<Rightarrow> datetime \<Rightarrow> voice_record \<Rightarrow> 'd pg_state \<Rightarrow> voice_record res \<times> 'd pg_state" where
  "pg_create P now x st = (case validate_voice_id (vr_id x) of
       Inl e \<Rightarrow> (Inl e, st)
     | Inr _ \<Rightarrow> with_conn P (\<lambda>d. case pg_execute P (Insert (row_of x)) d of
         (Inl (UniqueViolation _), d1) \<Rightarrow> then_do (pg_rollback P d1) (\<lambda>_ d2. (Inl (VoiceAlreadyExists (vr_id x)), d2))
       | (Inl (SqlFails e), d1) \<Rightarrow> (Inl e, d1)
       | (Inr _, d1) \<Rightarrow> then_do (pg_commit P d1) (\<lambda>_ d2. (Inr x, d2))) st)"

text \<open>The end of an update and of a deletion: nothing matched, or commit.\<close>

definition unless_missing :: "'d pg \<Rightarrow> string \<Rightarrow> 'a \<Rightarrow> sql_result \<Rightarrow> 'd \<Rightarrow> 'a res \<times> 'd" where
  "unless_missing P v result r d =
     (if rowcount r = 0 then then_do (pg_rollback P d) (\<lambda>_ d1. (Inl (VoiceNotFound v), d1))
      else then_do (pg_commit P d) (\<lambda>_ d1. (Inr result, d1)))"

definition pg_update :: "'d pg \<Rightarrow> datetime \<Rightarrow> voice_record \<Rightarrow> 'd pg_state \<Rightarrow> voice_record res \<times> 'd pg_state" where
  "pg_update P now x st = (case validate_voice_id (vr_id x) of
       Inl e \<Rightarrow> (Inl e, st)
     | Inr _ \<Rightarrow> with_conn P (\<lambda>d. then_do (run_sql P (UpdateSet (row_of x)) d) (unless_missing P (vr_id x) x)) st)"

definition pg_delete :: "'d pg \<Rightarrow> datetime \<Rightarrow> string \<Rightarrow> 'd pg_state \<Rightarrow> unit res \<times> 'd pg_state" where
  "pg_delete P now v st = (case validate_voice_id v of
       Inl e \<Rightarrow> (Inl e, st)
     | Inr _ \<Rightarrow> with_conn P (\<lambda>d. then_do (run_sql P (DeleteFrom v) d) (unless_missing P v ())) st)"

definition pg_metadata_repo :: "'d pg \<Rightarrow> 'd pg_state metadata_ops" where
  "pg_metadata_repo P = \<lparr>m_list = pg_list P, m_get = pg_get P, m_exists = pg_exists P, m_create = pg_create P,
     m_update = pg_update P, m_delete = pg_delete P\<rparr>"

subsection \<open>What PostgreSQL documents\<close>

text \<open>
  \<open>tbl d\<close> is the committed table by id, \<open>work d\<close> what the open transaction sees of it. A statement works on the latter, and
  is refused or takes effect as a whole; a timestamp is read back as it was written if it is in UTC, the zone of the
  session. \<open>TIMESTAMPTZ\<close> keeps no other offset, so nothing is said of a row that has one.
\<close>

definition utc_stamp :: "datetime \<Rightarrow> bool" where
  "utc_stamp t \<longleftrightarrow> valid_datetime t \<and> dt_offset t = Some 0"

definition row_kept :: "pg_row \<Rightarrow> bool" where
  "row_kept row \<longleftrightarrow> utc_stamp (pr_created_at row) \<and> utc_stamp (pr_updated_at row) \<and> (\<exists>s. pr_source row = JStr s)"

type_synonym pg_table = "string \<Rightarrow> pg_row option"

fun sql_effect :: "sql \<Rightarrow> pg_table \<Rightarrow> sql_result \<Rightarrow> pg_table \<Rightarrow> bool" where
  "sql_effect CreateTable t r t' \<longleftrightarrow> t' = t"
| "sql_effect SelectAll t r t' \<longleftrightarrow> t' = t \<and> (\<exists>rows. r = Rows rows \<and> set rows = ran t \<and> distinct rows)"
| "sql_effect (SelectRow v) t r t' \<longleftrightarrow> t' = t \<and> r = Rows (case t v of None \<Rightarrow> [] | Some row \<Rightarrow> [row])"
| "sql_effect (SelectOne v) t r t' \<longleftrightarrow> t' = t \<and> r = Rows (case t v of None \<Rightarrow> [] | Some row \<Rightarrow> [row])"
| "sql_effect (Insert row) t r t' \<longleftrightarrow> row_kept row \<longrightarrow> t (pr_id row) = None \<and> t' = t(pr_id row \<mapsto> row)"
| "sql_effect (UpdateSet row) t r t' \<longleftrightarrow> row_kept row \<longrightarrow> r = RowCount (if t (pr_id row) = None then 0 else 1) \<and>
     t' = (if t (pr_id row) = None then t else t(pr_id row \<mapsto> row))"
| "sql_effect (DeleteFrom v) t r t' \<longleftrightarrow> r = RowCount (if t v = None then 0 else 1) \<and> t' = t(v := None)"

fun sql_refused :: "sql \<Rightarrow> pg_table \<Rightarrow> sql_error \<Rightarrow> bool" where
  "sql_refused q t (SqlFails e) = backend_failure e"
| "sql_refused (Insert row) t (UniqueViolation m) = (t (pr_id row) \<noteq> None)"
| "sql_refused q t (UniqueViolation m) = False"

definition pg_laws :: "'d pg \<Rightarrow> ('d \<Rightarrow> pg_table) \<Rightarrow> ('d \<Rightarrow> pg_table) \<Rightarrow> bool" where
  "pg_laws P tbl work \<longleftrightarrow>
     (\<forall>d r d'. pg_connect P d = (r, d') \<longrightarrow> tbl d' = tbl d \<and>
        (case r of Inl e \<Rightarrow> backend_failure e | Inr _ \<Rightarrow> work d' = tbl d)) \<and>
     (\<forall>q d r d'. pg_execute P q d = (r, d') \<longrightarrow> tbl d' = tbl d \<and>
        (case r of Inl e \<Rightarrow> sql_refused q (work d) e | Inr x \<Rightarrow> sql_effect q (work d) x (work d'))) \<and>
     (\<forall>d r d'. pg_commit P d = (r, d') \<longrightarrow>
        (case r of Inl e \<Rightarrow> backend_failure e \<and> tbl d' = tbl d | Inr _ \<Rightarrow> tbl d' = work d \<and> work d' = work d)) \<and>
     (\<forall>d r d'. pg_rollback P d = (r, d') \<longrightarrow> tbl d' = tbl d \<and>
        (case r of Inl e \<Rightarrow> backend_failure e | Inr _ \<Rightarrow> work d' = tbl d)) \<and>
     (\<forall>d. tbl (snd (pg_close P False d)) = tbl d) \<and>
     (\<forall>d r d'. pg_close P True d = (r, d') \<longrightarrow> work d = tbl d \<longrightarrow> r = Inr () \<and> tbl d' = tbl d)"

lemmas pg_law = pg_laws_def [THEN iffD1]
lemmas pg_law_connect = pg_law [THEN conjunct1, rule_format]
lemmas pg_law_execute = pg_law [THEN conjunct2, THEN conjunct1, rule_format]
lemmas pg_law_commit = pg_law [THEN conjunct2, THEN conjunct2, THEN conjunct1, rule_format]
lemmas pg_law_rollback = pg_law [THEN conjunct2, THEN conjunct2, THEN conjunct2, THEN conjunct1, rule_format]
lemmas pg_law_abort = pg_law [THEN conjunct2, THEN conjunct2, THEN conjunct2, THEN conjunct2, THEN conjunct1, rule_format]
lemmas pg_law_close = pg_law [THEN conjunct2, THEN conjunct2, THEN conjunct2, THEN conjunct2, THEN conjunct2, rule_format]

subsection \<open>The repository implements its protocol\<close>

definition pg_abs :: "('d \<Rightarrow> pg_table) \<Rightarrow> 'd pg_state \<Rightarrow> string \<Rightarrow> voice_record option" where
  "pg_abs tbl st v = map_option row_to_record (tbl (snd st) v)"

definition pg_inv :: "('d \<Rightarrow> pg_table) \<Rightarrow> 'd pg_state \<Rightarrow> bool" where
  "pg_inv tbl st \<longleftrightarrow> (\<forall>v row. tbl (snd st) v = Some row \<longrightarrow> pr_id row = v \<and> storable_at utc_stamp (row_to_record row))"

lemma row_of_sel [simp]: "pr_id (row_of x) = vr_id x" "vr_id (row_to_record row) = pr_id row"
  by (simp_all add: row_of_def row_to_record_def)

lemma stored_row:
  assumes "storable_at utc_stamp x"
  shows "row_to_record (row_of x) = x" "row_kept (row_of x)"
  using assms by (auto simp: row_to_record_def row_of_def row_kept_def storable_at_def utc_stamp_def assume_utc_def source_ok_def)

lemma in_connection_cases:
  assumes L: "pg_laws P tbl work" and run: "in_connection P body d = (r, d')"
  obtains (failed) e where "r = Inl e" "backend_failure e" "tbl d' = tbl d"
  | (ran) d1 r0 d2 where "tbl d1 = tbl d" "work d1 = tbl d" "body d1 = (r0, d2)"
      "work d2 = tbl d2 \<or> (\<exists>e. r0 = Inl e) \<Longrightarrow> r = r0 \<and> tbl d' = tbl d2"
proof -
  obtain rc d1 where c: "pg_connect P d = (rc, d1)" by fastforce
  note lc = pg_law_connect [OF L c]
  show ?thesis
  proof (cases rc)
    case (Inl e)
    with c lc run show ?thesis by (intro failed) (auto simp: in_connection_def)
  next
    case (Inr u)
    obtain r0 d2 where b: "body d1 = (r0, d2)" by fastforce
    obtain r3 d3 where cl: "pg_close P True d2 = (r3, d3)" by fastforce
    note close = pg_law_close [OF L cl] pg_law_abort [OF L, of d2]
    have "work d2 = tbl d2 \<or> (\<exists>e. r0 = Inl e) \<Longrightarrow> r = r0 \<and> tbl d' = tbl d2"
      using run c Inr b cl close by (cases r0) (auto simp: in_connection_def)
    with lc Inr b show ?thesis by (intro ran [of d1 r0 d2]) auto
  qed
qed

lemma run_sql_cases:
  assumes "pg_laws P tbl work" "run_sql P q d = (r, d')" "\<forall>row. q \<noteq> Insert row"
  shows "tbl d' = tbl d \<and> (case r of Inl e \<Rightarrow> backend_failure e | Inr x \<Rightarrow> sql_effect q (work d) x (work d'))"
proof -
  obtain r0 where e: "pg_execute P q d = (r0, d')" "r = map_sum sql_raise id r0"
    using assms(2) by (auto simp: run_sql_def split: prod.splits)
  from pg_law_execute [OF assms(1) e(1)] e(2) assms(3) show ?thesis
    by (cases r0; cases q) (auto elim: sql_refused.elims)
qed

lemma ensure_schema_ok:
  assumes L: "pg_laws P tbl work" and run: "ensure_schema P st = (r, st')"
  shows "tbl (snd st') = tbl (snd st) \<and> (case r of Inl e \<Rightarrow> backend_failure e | Inr _ \<Rightarrow> True)"
proof (cases "fst st")
  case True
  with run show ?thesis by (auto simp: ensure_schema_def split: prod.splits)
next
  case False
  obtain r1 d1 where c: "in_connection P (\<lambda>d. then_do (run_sql P CreateTable d) (\<lambda>_. pg_commit P)) (snd st) = (r1, d1)" by fastforce
  from L c have "tbl d1 = tbl (snd st) \<and> (case r1 of Inl e \<Rightarrow> backend_failure e | Inr _ \<Rightarrow> True)"
  proof (cases rule: in_connection_cases)
    case (failed e)
    then show ?thesis by simp
  next
    case (ran d2 r0 d3)
    obtain r4 d4 where q: "run_sql P CreateTable d2 = (r4, d4)" by fastforce
    obtain r5 d5 where m: "pg_commit P d4 = (r5, d5)" by fastforce
    from ran q m run_sql_cases [OF L q] pg_law_commit [OF L m] show ?thesis
      by (cases r4; cases r5) (auto simp: then_do_def)
  qed
  with False run c show ?thesis by (auto simp: ensure_schema_def split: prod.splits sum.splits)
qed

lemma with_conn_cases:
  assumes L: "pg_laws P tbl work" and run: "with_conn P body st = (r, st')"
  obtains (failed) e where "r = Inl e" "backend_failure e" "tbl (snd st') = tbl (snd st)"
  | (ran) d1 r0 d2 where "tbl d1 = tbl (snd st)" "work d1 = tbl (snd st)" "body d1 = (r0, d2)"
      "work d2 = tbl d2 \<or> (\<exists>e. r0 = Inl e) \<Longrightarrow> r = r0 \<and> tbl (snd st') = tbl d2"
proof -
  obtain re init d0 where e: "ensure_schema P st = (re, init, d0)" by (metis prod_cases3)
  note le = ensure_schema_ok [OF L e]
  show ?thesis
  proof (cases re)
    case (Inl x)
    with e le run show ?thesis by (intro failed) (auto simp: with_conn_def)
  next
    case (Inr u)
    obtain rb d9 where b: "in_connection P body d0 = (rb, d9)" by fastforce
    with e Inr run have r: "r = rb" "snd st' = d9" by (auto simp: with_conn_def)
    from L b show ?thesis
    proof (cases rule: in_connection_cases)
      case fail: (failed x)
      with r le show ?thesis by (intro failed) auto
    next
      case body: (ran d1 r0 d2)
      with r le show ?thesis by (intro ran [of d1 r0 d2]) auto
    qed
  qed
qed

text \<open>A body of one query, and a body that ends in \<open>unless_missing\<close>.\<close>

lemma query_ok:
  assumes L: "pg_laws P tbl work" and run: "with_conn P (run_sql P q) st = (r, st')"
    and q: "\<forall>row. q \<noteq> Insert row" "\<And>t x t'. sql_effect q t x t' \<Longrightarrow> t' = t"
  shows "tbl (snd st') = tbl (snd st) \<and>
    (case r of Inl e \<Rightarrow> backend_failure e | Inr x \<Rightarrow> sql_effect q (tbl (snd st)) x (tbl (snd st)))"
  using L run
proof (cases rule: with_conn_cases)
  case (failed e)
  then show ?thesis by simp
next
  case (ran d1 r0 d2)
  have ok: "tbl d2 = tbl d1" "case r0 of Inl e \<Rightarrow> backend_failure e | Inr x \<Rightarrow> sql_effect q (work d1) x (work d2)"
    using run_sql_cases [OF L ran(3) q(1)] by auto
  show ?thesis
  proof (cases r0)
    case (Inl e)
    with ran ok show ?thesis by auto
  next
    case (Inr x)
    with ok have e: "sql_effect q (work d1) x (work d2)" by simp
    then have "work d2 = work d1" by (rule q(2))
    with ran ok Inr e show ?thesis by auto
  qed
qed

lemma change_ok:
  assumes L: "pg_laws P tbl work" and run: "with_conn P (\<lambda>d. then_do (run_sql P q d) (unless_missing P v res)) st = (r, st')"
    and q: "\<forall>row. q \<noteq> Insert row"
    and eff: "\<And>t x t'. sql_effect q t x t' \<Longrightarrow> rowcount x = (if t v = None then 0 else 1) \<and> (t v \<noteq> None \<longrightarrow> t' = t(v := new))"
  shows "case r of
      Inl e \<Rightarrow> tbl (snd st') = tbl (snd st) \<and> (e = VoiceNotFound v \<and> tbl (snd st) v = None \<or> backend_failure e)
    | Inr y \<Rightarrow> y = res \<and> tbl (snd st) v \<noteq> None \<and> tbl (snd st') = (tbl (snd st))(v := new)"
  using L run
proof (cases rule: with_conn_cases)
  case (failed e)
  then show ?thesis by simp
next
  case (ran d1 r0 d2)
  obtain rq d3 where e: "run_sql P q d1 = (rq, d3)" by fastforce
  note le = run_sql_cases [OF L e q]
  show ?thesis
  proof (cases rq)
    case (Inl x)
    with ran e le show ?thesis by (auto simp: then_do_def)
  next
    case (Inr x)
    with le have t3: "tbl d3 = tbl d1" and x: "rowcount x = (if work d1 v = None then 0 else 1)"
      "work d1 v \<noteq> None \<longrightarrow> work d3 = (work d1)(v := new)"
      using eff [of "work d1" x "work d3"] by auto
    obtain rr d4 where rb: "pg_rollback P d3 = (rr, d4)" by fastforce
    obtain rc d5 where cm: "pg_commit P d3 = (rc, d5)" by fastforce
    show ?thesis
    proof (cases "work d1 v = None")
      case True
      with ran e Inr t3 x rb pg_law_rollback [OF L rb] show ?thesis
        by (cases rr) (auto simp: then_do_def unless_missing_def)
    next
      case False
      with ran e Inr t3 x cm pg_law_commit [OF L cm] show ?thesis
        by (cases rc) (auto simp: then_do_def unless_missing_def)
    qed
  qed
qed

lemma pg_update_ok:
  assumes L: "pg_laws P tbl work" and i: "pg_inv tbl st" and x: "storable_at utc_stamp x" and run: "pg_update P now x st = (r, st')"
  shows "pg_inv tbl st' \<and> (case r of Inr y \<Rightarrow> y = x \<and> pg_abs tbl st (vr_id x) \<noteq> None \<and> pg_abs tbl st' = (pg_abs tbl st)(vr_id x \<mapsto> x)
    | Inl e \<Rightarrow> pg_abs tbl st' = pg_abs tbl st \<and> (e = VoiceNotFound (vr_id x) \<and> pg_abs tbl st (vr_id x) = None \<or> backend_failure e))"
proof -
  have v: "validate_voice_id (vr_id x) = Inr (vr_id x)" using x by (simp add: storable_at_def)
  from run have w: "with_conn P (\<lambda>d. then_do (run_sql P (UpdateSet (row_of x)) d) (unless_missing P (vr_id x) x)) st = (r, st')"
    unfolding pg_update_def v by simp
  have "case r of Inl e \<Rightarrow> tbl (snd st') = tbl (snd st) \<and> (e = VoiceNotFound (vr_id x) \<and> tbl (snd st) (vr_id x) = None \<or> backend_failure e)
    | Inr y \<Rightarrow> y = x \<and> tbl (snd st) (vr_id x) \<noteq> None \<and> tbl (snd st') = (tbl (snd st))(vr_id x := Some (row_of x))"
    by (rule change_ok [OF L w]) (use stored_row [OF x] in \<open>auto split: if_splits\<close>)
  then show ?thesis using i x stored_row [OF x]
    by (cases r) (auto simp: pg_inv_def pg_abs_def fun_eq_iff)
qed

lemma pg_delete_ok:
  assumes L: "pg_laws P tbl work" and i: "pg_inv tbl st" and v: "voice_id_regex v" and run: "pg_delete P now v st = (r, st')"
  shows "pg_inv tbl st' \<and> (case r of Inr _ \<Rightarrow> pg_abs tbl st v \<noteq> None \<and> pg_abs tbl st' = (pg_abs tbl st)(v := None)
    | Inl e \<Rightarrow> pg_abs tbl st' = pg_abs tbl st \<and> (e = VoiceNotFound v \<and> pg_abs tbl st v = None \<or> backend_failure e))"
proof -
  from v run have w: "with_conn P (\<lambda>d. then_do (run_sql P (DeleteFrom v) d) (unless_missing P v ())) st = (r, st')"
    by (simp add: pg_delete_def validate_voice_id_def)
  have "case r of Inl e \<Rightarrow> tbl (snd st') = tbl (snd st) \<and> (e = VoiceNotFound v \<and> tbl (snd st) v = None \<or> backend_failure e)
    | Inr y \<Rightarrow> y = () \<and> tbl (snd st) v \<noteq> None \<and> tbl (snd st') = (tbl (snd st))(v := None)"
    by (rule change_ok [OF L w]) auto
  then show ?thesis using i by (cases r) (auto simp: pg_inv_def pg_abs_def fun_eq_iff)
qed

lemma pg_create_ok:
  assumes L: "pg_laws P tbl work" and i: "pg_inv tbl st" and x: "storable_at utc_stamp x" and run: "pg_create P now x st = (r, st')"
  shows "pg_inv tbl st' \<and> (case r of Inr y \<Rightarrow> y = x \<and> pg_abs tbl st (vr_id x) = None \<and> pg_abs tbl st' = (pg_abs tbl st)(vr_id x \<mapsto> x)
    | Inl e \<Rightarrow> pg_abs tbl st' = pg_abs tbl st \<and> (e = VoiceAlreadyExists (vr_id x) \<and> pg_abs tbl st (vr_id x) \<noteq> None \<or> backend_failure e))"
proof -
  have v: "validate_voice_id (vr_id x) = Inr (vr_id x)" using x by (simp add: storable_at_def)
  from run have w: "with_conn P (\<lambda>d. case pg_execute P (Insert (row_of x)) d of
         (Inl (UniqueViolation _), d1) \<Rightarrow> then_do (pg_rollback P d1) (\<lambda>_ d2. (Inl (VoiceAlreadyExists (vr_id x)), d2))
       | (Inl (SqlFails e), d1) \<Rightarrow> (Inl e, d1)
       | (Inr _, d1) \<Rightarrow> then_do (pg_commit P d1) (\<lambda>_ d2. (Inr x, d2))) st = (r, st')"
    unfolding pg_create_def v by simp
  from L w have "case r of
      Inl e \<Rightarrow> tbl (snd st') = tbl (snd st) \<and> (e = VoiceAlreadyExists (vr_id x) \<and> tbl (snd st) (vr_id x) \<noteq> None \<or> backend_failure e)
    | Inr y \<Rightarrow> y = x \<and> tbl (snd st) (vr_id x) = None \<and> tbl (snd st') = (tbl (snd st))(vr_id x \<mapsto> row_of x)"
  proof (cases rule: with_conn_cases)
    case (failed e)
    then show ?thesis by simp
  next
    case (ran d1 r0 d2)
    obtain re d3 where e: "pg_execute P (Insert (row_of x)) d1 = (re, d3)" by fastforce
    note le = pg_law_execute [OF L e]
    obtain rr d4 where rb: "pg_rollback P d3 = (rr, d4)" by fastforce
    obtain rc d5 where cm: "pg_commit P d3 = (rc, d5)" by fastforce
    show ?thesis
    proof (cases re)
      case (Inl err)
      with ran e le rb pg_law_rollback [OF L rb] show ?thesis
        by (cases err; cases rr) (auto simp: then_do_def)
    next
      case (Inr y)
      with ran e le cm pg_law_commit [OF L cm] stored_row [OF x] show ?thesis
        by (cases rc) (auto simp: then_do_def)
    qed
  qed
  then show ?thesis using i x stored_row [OF x]
    by (cases r) (auto simp: pg_inv_def pg_abs_def fun_eq_iff)
qed

lemma pg_get_ok:
  assumes L: "pg_laws P tbl work" and v: "voice_id_regex v" and run: "pg_get P now v st = (r, st')"
  shows "tbl (snd st') = tbl (snd st) \<and> (case r of Inr x \<Rightarrow> pg_abs tbl st v = Some x
    | Inl e \<Rightarrow> e = VoiceNotFound v \<and> pg_abs tbl st v = None \<or> backend_failure e)"
proof -
  obtain rq st1 where w: "with_conn P (run_sql P (SelectRow v)) st = (rq, st1)" by (rule prod.exhaust)
  from query_ok [OF L w] v run w show ?thesis
    by (cases rq) (auto simp: pg_get_def validate_voice_id_def pg_abs_def split: option.splits)
qed

lemma pg_exists_ok:
  assumes L: "pg_laws P tbl work" and v: "voice_id_regex v" and run: "pg_exists P now v st = (r, st')"
  shows "tbl (snd st') = tbl (snd st) \<and> (case r of Inr b \<Rightarrow> b = (pg_abs tbl st v \<noteq> None) | Inl e \<Rightarrow> backend_failure e)"
proof -
  obtain rq st1 where w: "with_conn P (run_sql P (SelectOne v)) st = (rq, st1)" by (rule prod.exhaust)
  from query_ok [OF L w] v run w show ?thesis
    by (cases rq) (auto simp: pg_exists_def validate_voice_id_def pg_abs_def split: option.splits)
qed

lemma pg_list_ok:
  assumes L: "pg_laws P tbl work" and i: "pg_inv tbl st" and run: "pg_list P now st = (r, st')"
  shows "tbl (snd st') = tbl (snd st) \<and> (case r of Inr xs \<Rightarrow> set xs = ran (pg_abs tbl st) \<and> distinct xs | Inl e \<Rightarrow> backend_failure e)"
proof -
  obtain rq st1 where w: "with_conn P (run_sql P SelectAll) st = (rq, st1)" by (rule prod.exhaust)
  have inj: "inj_on row_to_record (ran (tbl (snd st)))"
  proof (rule inj_onI)
    fix a b
    assume a: "a \<in> ran (tbl (snd st))" and b: "b \<in> ran (tbl (snd st))" and eq: "row_to_record a = row_to_record b"
    from a b obtain v u where "tbl (snd st) v = Some a" "tbl (snd st) u = Some b" by (auto simp: ran_def)
    moreover from this i have "pr_id a = v" "pr_id b = u" by (auto simp: pg_inv_def)
    moreover have "pr_id a = pr_id b" using eq by (metis row_of_sel(2))
    ultimately show "a = b" by simp
  qed
  have ran: "ran (pg_abs tbl st) = row_to_record ` ran (tbl (snd st))"
    by (auto simp: pg_abs_def ran_def)
  from query_ok [OF L w] run w inj ran show ?thesis
    by (cases rq) (auto simp: pg_list_def distinct_map)
qed

lemma pg_implements_metadata_repo:
  assumes L: "pg_laws P tbl work"
  shows "metadata_repo (pg_metadata_repo P) (pg_inv tbl) (pg_abs tbl) utc_stamp"
proof (unfold_locales, goal_cases)
  case (1 now s r s')
  then show ?case using pg_list_ok [OF L, of s now r s'] by (auto simp: pg_metadata_repo_def pg_inv_def pg_abs_def split: sum.splits)
next
  case (2 now v s r s')
  then show ?case using pg_get_ok [OF L, of v now s r s'] by (auto simp: pg_metadata_repo_def pg_inv_def pg_abs_def split: sum.splits)
next
  case (3 now v s e)
  then show ?case by (simp add: pg_metadata_repo_def pg_get_def)
next
  case (4 now v s r s')
  then show ?case using pg_exists_ok [OF L, of v now s r s'] by (auto simp: pg_metadata_repo_def pg_inv_def pg_abs_def split: sum.splits)
next
  case (5 now x s r s')
  then show ?case using pg_create_ok [OF L, of s x now r s'] by (simp add: pg_metadata_repo_def)
next
  case (6 now x s r s')
  then show ?case using pg_update_ok [OF L, of s x now r s'] by (simp add: pg_metadata_repo_def)
next
  case (7 now v s r s')
  then show ?case using pg_delete_ok [OF L, of s v now r s'] by (simp add: pg_metadata_repo_def)
next
  case (8 s v x)
  then show ?case by (auto simp: pg_inv_def pg_abs_def)
qed

text \<open>A table in memory: the committed rows and those of the open transaction.\<close>

definition memory_rows :: "(string \<times> pg_row) list \<Rightarrow> pg_row list" where
  "memory_rows al = remdups (map (\<lambda>k. the (map_of al k)) (map fst al))"

fun memory_sql :: "sql \<Rightarrow> (string \<times> pg_row) list \<Rightarrow> (sql_error + sql_result) \<times> (string \<times> pg_row) list" where
  "memory_sql CreateTable al = (Inr (RowCount 0), al)"
| "memory_sql SelectAll al = (Inr (Rows (memory_rows al)), al)"
| "memory_sql (SelectRow v) al = (Inr (Rows (case map_of al v of None \<Rightarrow> [] | Some row \<Rightarrow> [row])), al)"
| "memory_sql (SelectOne v) al = (Inr (Rows (case map_of al v of None \<Rightarrow> [] | Some row \<Rightarrow> [row])), al)"
| "memory_sql (Insert row) al = (if map_of al (pr_id row) \<noteq> None then (Inl (UniqueViolation ''duplicate key''), al)
     else (Inr (RowCount 1), AList.update (pr_id row) row al))"
| "memory_sql (UpdateSet row) al = (if map_of al (pr_id row) = None then (Inr (RowCount 0), al)
     else (Inr (RowCount 1), AList.update (pr_id row) row al))"
| "memory_sql (DeleteFrom v) al = (Inr (RowCount (if map_of al v = None then 0 else 1)), AList.delete v al)"

definition memory_pg :: "((string \<times> pg_row) list \<times> (string \<times> pg_row) list) pg" where
  "memory_pg = \<lparr>pg_connect = \<lambda>(t, w). (Inr (), (t, t)), pg_execute = \<lambda>q (t, w). (case memory_sql q w of (r, w') \<Rightarrow> (r, (t, w'))),
     pg_commit = \<lambda>(t, w). (Inr (), (w, w)), pg_rollback = \<lambda>(t, w). (Inr (), (t, t)),
     pg_close = \<lambda>commit (t, w). (Inr (), if commit then (w, w) else (t, t))\<rparr>"

lemma memory_rows_ok: "set (memory_rows al) = ran (map_of al) \<and> distinct (memory_rows al)"
proof -
  have "the (map_of al k) \<in> ran (map_of al)" if k: "k \<in> fst ` set al" for k
  proof -
    from k obtain row where "map_of al k = Some row" by (metis domD dom_map_of_conv_image_fst)
    then show ?thesis by (auto simp: ran_def)
  qed
  moreover have "row \<in> (\<lambda>k. the (map_of al k)) ` fst ` set al" if "map_of al k = Some row" for k row
    using that by (metis image_eqI map_of_SomeD' option.sel)
  ultimately show ?thesis by (auto simp: memory_rows_def ran_def image_image)
qed

lemma memory_sql_ok:
  assumes "memory_sql q al = (r, al')"
  shows "case r of Inl e \<Rightarrow> sql_refused q (map_of al) e | Inr x \<Rightarrow> sql_effect q (map_of al) x (map_of al')"
  using assms memory_rows_ok [of al] by (cases q) (auto simp: update_conv' delete_conv' split: if_splits)

lemma memory_pg_laws: "pg_laws memory_pg (\<lambda>d. map_of (fst d)) (\<lambda>d. map_of (snd d))"
  unfolding pg_laws_def
  by (auto simp: memory_pg_def split: prod.splits sum.splits dest!: memory_sql_ok)

end
