(* ===== verification/ProviderImpls.thy ===== *)
theory ProviderImpls
  imports Synthesize Startup
begin

text \<open>
  The providers: \<open>voice_args.py\<close>, \<open>mlx_audio_provider.py\<close>, \<open>voxtral_provider.py\<close> and \<open>vllm_omni_provider.py\<close>. The
  libraries they drive are parameters: importing and loading (\<open>lib_load\<close>), the signature of a model, what a call of it does
  to the state \<open>'g\<close> of the engine, and the encoder of soundfile. A call of mlx-audio may raise at once, or yield results and raise
  between them; what a generator changes of the engine is counted when it
  is called.
\<close>

subsection \<open>Arguments of a model\<close>

datatype arg = TextArg utext | StrArg string | FloatArg pyfloat

type_synonym args = "(string \<times> arg) list"

definition voice_name_aliases :: "string list" where
  "voice_name_aliases = [''voice'', ''voice_id'', ''speaker'']"

definition ref_audio_aliases :: "string list" where
  "ref_audio_aliases = [''ref_audio'', ''reference_audio'']"

definition ref_text_aliases :: "string list" where
  "ref_text_aliases = [''ref_text'', ''reference_text'']"

definition language_arg_aliases :: "string list" where
  "language_arg_aliases = [''lang_code'', ''language'', ''lang'']"

definition temperature_aliases :: "string list" where
  "temperature_aliases = [''temperature'']"

definition top_p_aliases :: "string list" where
  "top_p_aliases = [''top_p'', ''topP'']"

definition first_supported_name :: "string list \<Rightarrow> string list \<Rightarrow> string option" where
  "first_supported_name candidates params = List.find (\<lambda>c. c \<in> set params) candidates"

definition opt_arg :: "string option \<Rightarrow> arg \<Rightarrow> args" where
  "opt_arg name v = (case name of None \<Rightarrow> [] | Some n \<Rightarrow> [(n, v)])"

definition build_named_voice_args :: "string \<Rightarrow> string list \<Rightarrow> args" where
  "build_named_voice_args voice_name params =
     (if voice_name = [] then [] else opt_arg (first_supported_name voice_name_aliases params) (StrArg voice_name))"

definition build_clone_voice_args :: "string \<Rightarrow> string \<Rightarrow> string list \<Rightarrow> args" where
  "build_clone_voice_args ref_audio_path ref_text params =
     (if ref_audio_path = [] then []
      else dict_merge (opt_arg (first_supported_name ref_audio_aliases params) (StrArg ref_audio_path))
        (opt_arg (first_supported_name ref_text_aliases params) (StrArg ref_text)))"

record voice_args_selection =
  va_primary :: args
  va_fallback :: args
  va_named :: bool

definition select_voice_args :: "string \<Rightarrow> string \<Rightarrow> string \<Rightarrow> string list \<Rightarrow> bool \<Rightarrow> bool \<Rightarrow> voice_args_selection" where
  "select_voice_args voice_name ref_audio_path ref_text params prefer_clone require_any =
     (let clone = build_clone_voice_args ref_audio_path ref_text params;
          named = build_named_voice_args voice_name params;
          ordered = (if prefer_clone then [clone, named] else [named, clone]);
          selected = (case filter (\<lambda>a. a \<noteq> []) ordered of [] \<Rightarrow> [] | a # _ \<Rightarrow> a)
      in if require_any \<and> selected = [] then \<lparr>va_primary = [], va_fallback = clone, va_named = False\<rparr>
         else \<lparr>va_primary = selected, va_fallback = clone, va_named = (selected \<noteq> [] \<and> selected = named)\<rparr>)"

definition build_generation_args :: "generation_options \<Rightarrow> string list \<Rightarrow> args" where
  "build_generation_args go params =
     dict_merge (dict_merge (opt_arg (first_supported_name language_arg_aliases params) (StrArg (go_language go)))
       (opt_arg (first_supported_name temperature_aliases params) (FloatArg (go_temperature go))))
       (opt_arg (first_supported_name top_p_aliases params) (FloatArg (go_top_p go)))"

definition generation_args :: "synthesis_request \<Rightarrow> string list \<Rightarrow> args" where
  "generation_args req params = (case sy_generation req of None \<Rightarrow> [] | Some go \<Rightarrow> build_generation_args go params)"

definition with_text :: "utext \<Rightarrow> args \<Rightarrow> args \<Rightarrow> args" where
  "with_text chunk voice gen = dict_merge (dict_merge [(''text'', TextArg chunk)] voice) gen"

subsection \<open>Loading and the loop over the chunks\<close>

datatype 'm lib_load = ImportFails | LoadFails py_exc | Loads 'm

definition failed_to_load :: "string \<Rightarrow> string \<Rightarrow> py_exc \<Rightarrow> py_exc" where
  "failed_to_load provider model e =
     (if is_exception e
      then invalid_request (''Failed to load '' @ provider @ '' model '' @ quoted model @ '': '' @ exc_str e) (Some ''model'')
      else e)"

definition needs_dependency :: "string \<Rightarrow> string \<Rightarrow> py_exc" where
  "needs_dependency provider package = invalid_request
     (''Provider '' @ quoted provider @ '' requires the optional dependency '' @ quoted package) (Some ''provider'')"

text \<open>\<open>_load_model\<close> of the two providers that run on mlx-audio.\<close>

definition mlx_load_model :: "string \<Rightarrow> string \<Rightarrow> 'm lib_load \<Rightarrow> 'm res" where
  "mlx_load_model provider model l = (case l of
       ImportFails \<Rightarrow> Inl (needs_dependency provider ''mlx-audio'')
     | LoadFails e \<Rightarrow> Inl (failed_to_load provider model e)
     | Loads m \<Rightarrow> Inr m)"

fun each_chunk :: "(utext \<Rightarrow> 'g \<Rightarrow> bytes list res \<times> 'g) \<Rightarrow> utext list \<Rightarrow> 'g \<Rightarrow> bytes list res \<times> 'g" where
  "each_chunk f [] g = (Inr [], g)"
| "each_chunk f (c # cs) g = (case f c g of
       (Inl e, g1) \<Rightarrow> (Inl e, g1)
     | (Inr rs, g1) \<Rightarrow> (case each_chunk f cs g1 of
         (Inl e, g2) \<Rightarrow> (Inl e, g2)
       | (Inr out, g2) \<Rightarrow> (Inr (rs @ out), g2)))"

text \<open>
  \<open>synthesize_chunks\<close>: the model, from the shared cache or the provider's own, then the calls. The state is the
  provider, the shared cache, and what the library keeps.
\<close>

type_synonym ('m, 'g) engine = "'m model_provider \<times> ('m, string) lru_cache \<times> 'g"

type_synonym ('m, 'g) chunk_call = "'m \<Rightarrow> synthesis_request \<Rightarrow> (string \<Rightarrow> bytes option) \<Rightarrow> 'g \<Rightarrow> bytes list res \<times> 'g"

definition provider_synth :: "(string \<Rightarrow> 'm res) \<Rightarrow> ('m, 'g) chunk_call \<Rightarrow> ('m, 'g) engine synth" where
  "provider_synth load call req files pcg = (case pcg of (p, c, g) \<Rightarrow>
     (case get_model p c (sy_model_name req) (load (sy_model_name req)) of
        (Inl e, p', c', _) \<Rightarrow> (Inl e, p', c', g)
      | (Inr m, p', c', _) \<Rightarrow> (case call m req files g of (r, g') \<Rightarrow> (r, p', c', g'))))"

subsection \<open>mlx-audio\<close>

datatype 'a mlx_outcome = MlxRaises py_exc | MlxYields "('a \<times> int) list" "py_exc option"

record ('m, 'a, 'g) mlx_lib =
  ml_params :: "'m \<Rightarrow> string list option"
  ml_generate :: "'m \<Rightarrow> args \<Rightarrow> (string \<Rightarrow> bytes option) \<Rightarrow> 'g \<Rightarrow> 'a mlx_outcome \<times> 'g"
  ml_encode :: "'a \<Rightarrow> int \<Rightarrow> bytes res"

definition collect :: "('r \<Rightarrow> bytes res) \<Rightarrow> 'r list \<Rightarrow> py_exc option \<Rightarrow> bytes list res" where
  "collect encode results after = bindE (res_map encode results) (\<lambda>out. case after of None \<Rightarrow> Inr out | Some e \<Rightarrow> Inl e)"

definition mlx_collect :: "('m, 'a, 'g) mlx_lib \<Rightarrow> 'a mlx_outcome \<Rightarrow> bytes list res" where
  "mlx_collect lib r = (case r of
       MlxRaises e \<Rightarrow> Inl e
     | MlxYields results after \<Rightarrow> collect (\<lambda>(a, rate). ml_encode lib a rate) results after)"

definition mlx_chunk :: "('m, 'a, 'g) mlx_lib \<Rightarrow> 'm \<Rightarrow> voice_args_selection \<Rightarrow> args \<Rightarrow> (string \<Rightarrow> bytes option) \<Rightarrow> utext \<Rightarrow> 'g \<Rightarrow>
    bytes list res \<times> 'g" where
  "mlx_chunk lib m sel gen files chunk g =
     (case ml_generate lib m (with_text chunk (va_primary sel) gen) files g of
        (MlxRaises (AssertionErr msg), g1) \<Rightarrow>
          (if va_named sel \<and> va_fallback sel \<noteq> []
           then (case ml_generate lib m (with_text chunk (va_fallback sel) gen) files g1 of (r, g2) \<Rightarrow> (mlx_collect lib r, g2))
           else (Inl (invalid_request msg (Some ''voice'')), g1))
      | (r, g1) \<Rightarrow> (mlx_collect lib r, g1))"

definition no_usable_voice :: py_exc where
  "no_usable_voice = invalid_request
     ''No usable voice provided: configure ref_audio_path/ref_text or set request voice_name'' (Some ''voice'')"

definition mlx_signature_params :: "('m, 'a, 'g) mlx_lib \<Rightarrow> 'm \<Rightarrow> string list" where
  "mlx_signature_params lib m = dflt (ml_params lib m) [''text'', ''voice'', ''ref_audio'', ''ref_text'']"

definition mlx_voice_selection :: "synthesis_request \<Rightarrow> string list \<Rightarrow> voice_args_selection res" where
  "mlx_voice_selection req params =
     (let sel = select_voice_args (sy_voice_name req) (vc_ref_audio_path (sy_voice req)) (vc_ref_text (sy_voice req)) params True True
      in if va_primary sel \<noteq> [] then Inr sel else Inl no_usable_voice)"

definition mlx_call :: "('m, 'a, 'g) mlx_lib \<Rightarrow> ('m, 'g) chunk_call" where
  "mlx_call lib m req files g =
     (let params = mlx_signature_params lib m
      in case mlx_voice_selection req params of
           Inl e \<Rightarrow> (Inl e, g)
         | Inr sel \<Rightarrow> each_chunk (mlx_chunk lib m sel (generation_args req params) files) (sy_chunks req) g)"

subsection \<open>Voxtral\<close>

definition voxtral_needs_clone :: py_exc where
  "voxtral_needs_clone = invalid_request
     ''Voxtral provider requires voice cloning references (ref_audio_path/ref_text)'' (Some ''voice'')"

definition voxtral_kwargs :: "synthesis_request \<Rightarrow> utext \<Rightarrow> string list \<Rightarrow> args res" where
  "voxtral_kwargs req chunk params =
     (if vc_ref_audio_path (sy_voice req) = [] then Inl voxtral_needs_clone
      else Inr (dict_merge [(''text'', TextArg chunk), (''ref_audio'', StrArg (vc_ref_audio_path (sy_voice req))),
        (''ref_text'', StrArg (vc_ref_text (sy_voice req)))] (generation_args req params)))"

definition voxtral_chunk :: "('m, 'a, 'g) mlx_lib \<Rightarrow> 'm \<Rightarrow> synthesis_request \<Rightarrow> string list \<Rightarrow> (string \<Rightarrow> bytes option) \<Rightarrow> utext \<Rightarrow> 'g \<Rightarrow>
    bytes list res \<times> 'g" where
  "voxtral_chunk lib m req params files chunk g = (case voxtral_kwargs req chunk params of
       Inl e \<Rightarrow> (Inl e, g)
     | Inr kwargs \<Rightarrow> (case ml_generate lib m kwargs files g of (r, g1) \<Rightarrow> (mlx_collect lib r, g1)))"

definition voxtral_signature_params :: "('m, 'a, 'g) mlx_lib \<Rightarrow> 'm \<Rightarrow> string list" where
  "voxtral_signature_params lib m = dflt (ml_params lib m) [''text'', ''ref_audio'', ''ref_text'']"

definition voxtral_call :: "('m, 'a, 'g) mlx_lib \<Rightarrow> ('m, 'g) chunk_call" where
  "voxtral_call lib m req files g =
     each_chunk (voxtral_chunk lib m req (voxtral_signature_params lib m) files) (sy_chunks req) g"

subsection \<open>vllm-omni\<close>

text \<open>
  Importing a module raises, or gives a module whose attribute \<open>load\<close> is callable or is not. A value that a
  call returns is bytes, a dict or an object, with its \<open>wav_bytes\<close> where they are bytes, its audio and its rate; an object
  may lack the attribute \<open>audio\<close>. Iterating over a value gives results and may raise.
\<close>

datatype 'l vllm_module = NoModule | ModuleWithout | ModuleWith 'l

datatype 'f vllm_entry = GenerateMethod 'f | CallableModel 'f | NoEntry

datatype 'a vllm_payload =
    RawBytes bytes
  | DictPayload "bytes option" "'a option" "int option"
  | ObjPayload "bytes option" "'a option option" "int option"

datatype 'a vllm_outcome = VllmRaises py_exc | VllmReturns "'a vllm_payload" "'a vllm_payload list" "py_exc option"

record ('m, 'a, 'g) vllm_lib =
  vl_modules :: "string \<Rightarrow> (string \<Rightarrow> 'm res) vllm_module"
  vl_params :: "'m \<Rightarrow> string list option"
  vl_entry :: "'m \<Rightarrow> (args \<Rightarrow> (string \<Rightarrow> bytes option) \<Rightarrow> 'g \<Rightarrow> 'a vllm_outcome \<times> 'g) vllm_entry"
  vl_encode :: "'a \<Rightarrow> int \<Rightarrow> bytes res"

definition vllm_candidates :: "string list" where
  "vllm_candidates = [''vllm_omni.tts.utils'', ''vllm_omni.tts'', ''vllm_omni'']"

fun first_loader :: "(string \<Rightarrow> 'l vllm_module) \<Rightarrow> string list \<Rightarrow> 'l res" where
  "first_loader modules [] = Inl (needs_dependency ''vllm-omni'' ''vllm-omni'')"
| "first_loader modules (n # ns) = (case modules n of ModuleWith l \<Rightarrow> Inr l | _ \<Rightarrow> first_loader modules ns)"

definition resolve_loader :: "(string \<Rightarrow> 'l vllm_module) \<Rightarrow> 'l res" where
  "resolve_loader modules = first_loader modules vllm_candidates"

fun has_status_400 :: "py_exc \<Rightarrow> bool" where
  "has_status_400 (HTTPErr st _) = (st = 400)"
| "has_status_400 (PlainHTTP st _) = (st = 400)"
| "has_status_400 _ = False"

definition vllm_load_model :: "(string \<Rightarrow> (string \<Rightarrow> 'm res) vllm_module) \<Rightarrow> string \<Rightarrow> 'm res" where
  "vllm_load_model modules model =
     (case bindE (resolve_loader modules) (\<lambda>loader. loader model) of
        Inl e \<Rightarrow> Inl (if has_status_400 e then e else failed_to_load ''vllm-omni'' model e)
      | Inr m \<Rightarrow> Inr m)"

definition vllm_signature_params :: "('m, 'a, 'g) vllm_lib \<Rightarrow> 'm \<Rightarrow> string list" where
  "vllm_signature_params lib m = dflt (vl_params lib m)
     [''text'', ''voice'', ''voice_id'', ''speaker'', ''ref_audio'', ''reference_audio'', ''ref_text'', ''reference_text'']"

definition vllm_voice_selection :: "synthesis_request \<Rightarrow> string list \<Rightarrow> voice_args_selection" where
  "vllm_voice_selection req params =
     select_voice_args (sy_voice_name req) (vc_ref_audio_path (sy_voice req)) (vc_ref_text (sy_voice req)) params True False"

definition vllm_generate :: "('m, 'a, 'g) vllm_lib \<Rightarrow> 'm \<Rightarrow> args \<Rightarrow> (string \<Rightarrow> bytes option) \<Rightarrow> 'g \<Rightarrow> 'a vllm_outcome \<times> 'g" where
  "vllm_generate lib m kwargs files g = (case vl_entry lib m of
       GenerateMethod f \<Rightarrow> f kwargs files g
     | CallableModel f \<Rightarrow> f kwargs files g
     | NoEntry \<Rightarrow> (VllmRaises (invalid_request ''vllm-omni model does not expose a callable generator'' (Some ''model'')), g))"

definition encode_audio :: "('a \<Rightarrow> int \<Rightarrow> bytes res) \<Rightarrow> 'a option \<Rightarrow> int option \<Rightarrow> bytes res" where
  "encode_audio encode audio rate = (case (audio, rate) of
       (Some a, Some r) \<Rightarrow> encode a r
     | _ \<Rightarrow> Inl (invalid_request ''vllm-omni provider returned an unsupported audio payload'' (Some ''provider'')))"

fun result_to_wav_bytes :: "('a \<Rightarrow> int \<Rightarrow> bytes res) \<Rightarrow> 'a vllm_payload \<Rightarrow> bytes res" where
  "result_to_wav_bytes encode (RawBytes b) = Inr b"
| "result_to_wav_bytes encode (DictPayload (Some b) _ _) = Inr b"
| "result_to_wav_bytes encode (DictPayload None audio rate) = encode_audio encode audio rate"
| "result_to_wav_bytes encode (ObjPayload (Some b) _ _) = Inr b"
| "result_to_wav_bytes encode (ObjPayload None audio rate) =
     encode_audio encode (case audio of None \<Rightarrow> None | Some a \<Rightarrow> a) rate"

fun single_payload :: "'a vllm_payload \<Rightarrow> bool" where
  "single_payload (RawBytes _) = True"
| "single_payload (DictPayload _ _ _) = True"
| "single_payload (ObjPayload _ audio _) = (audio \<noteq> None)"

definition vllm_collect :: "('a \<Rightarrow> int \<Rightarrow> bytes res) \<Rightarrow> 'a vllm_outcome \<Rightarrow> bytes list res" where
  "vllm_collect encode r = (case r of
       VllmRaises e \<Rightarrow> Inl e
     | VllmReturns v results after \<Rightarrow>
         if single_payload v then bindE (result_to_wav_bytes encode v) (\<lambda>b. Inr [b])
         else collect (result_to_wav_bytes encode) results after)"

definition vllm_chunk :: "('m, 'a, 'g) vllm_lib \<Rightarrow> 'm \<Rightarrow> voice_args_selection \<Rightarrow> args \<Rightarrow> (string \<Rightarrow> bytes option) \<Rightarrow> utext \<Rightarrow> 'g \<Rightarrow>
    bytes list res \<times> 'g" where
  "vllm_chunk lib m sel gen files chunk g =
     (let attempt = (\<lambda>voice g. case vllm_generate lib m (with_text chunk voice gen) files g of
            (r, g1) \<Rightarrow> (vllm_collect (vl_encode lib) r, g1))
      in case vllm_generate lib m (with_text chunk (va_primary sel) gen) files g of
           (VllmRaises (AssertionErr msg), g1) \<Rightarrow>
             (if va_named sel \<and> va_fallback sel \<noteq> [] then attempt (va_fallback sel) g1
              else if va_named sel then attempt [] g1
              else (Inl (invalid_request msg (Some ''voice'')), g1))
         | (r, g1) \<Rightarrow> (vllm_collect (vl_encode lib) r, g1))"

definition vllm_call :: "('m, 'a, 'g) vllm_lib \<Rightarrow> ('m, 'g) chunk_call" where
  "vllm_call lib m req files g =
     (let params = vllm_signature_params lib m
      in each_chunk (vllm_chunk lib m (vllm_voice_selection req params) (generation_args req params) files) (sy_chunks req) g)"

subsection \<open>Chunk by chunk\<close>

text \<open>
  The interface \<open>synthesize_core\<close> relies on when it calls a provider once per chunk: a request for several chunks does
  what the requests for each of them do in turn. The legacy endpoint sends all chunks in one request.
\<close>

fun chain :: "bytes list res \<times> 'w \<Rightarrow> ('w \<Rightarrow> bytes list res \<times> 'w) \<Rightarrow> bytes list res \<times> 'w" where
  "chain (Inl e, w) f = (Inl e, w)"
| "chain (Inr rs, w) f = (case f w of (Inl e, w1) \<Rightarrow> (Inl e, w1) | (Inr out, w1) \<Rightarrow> (Inr (rs @ out), w1))"

lemma each_chunk_Cons: "each_chunk f (c # cs) g = chain (f c g) (each_chunk f cs)"
  by (cases "f c g"; cases "fst (f c g)") (auto split: prod.splits sum.splits)

lemma run_loop_Cons:
  "run_loop (\<lambda>_. False) mk synth files i (c # cs) w = chain (synth (mk c) files w) (run_loop (\<lambda>_. False) mk synth files (i + 1) cs)"
  by (cases "synth (mk c) files w"; cases "fst (synth (mk c) files w)") (auto split: prod.splits sum.splits)

lemma chain_Nil: "(\<And>w. f w = (Inr [], w)) \<Longrightarrow> chain r f = r"
  by (cases r; cases "fst r") auto

lemma chain_cong: "(\<And>rs w. r = (Inr rs, w) \<Longrightarrow> f w = f' w) \<Longrightarrow> chain r f = chain r f'"
  by (cases r; cases "fst r") auto

locale chunkwise_provider =
  fixes synth :: "'w synth"
    and inv :: "'w \<Rightarrow> bool"
  assumes synth_inv: "inv w \<Longrightarrow> inv (snd (synth req files w))"
    and synth_Cons: "inv w \<Longrightarrow> synth (req\<lparr>sy_chunks := c # cs\<rparr>) files w =
      chain (synth (req\<lparr>sy_chunks := [c]\<rparr>) files w) (synth (req\<lparr>sy_chunks := cs\<rparr>) files)"
begin

lemma at_once_is_in_turn:
  "cs \<noteq> [] \<Longrightarrow> inv w \<Longrightarrow>
   synth (req\<lparr>sy_chunks := cs\<rparr>) files w = run_loop (\<lambda>_. False) (\<lambda>c. req\<lparr>sy_chunks := [c]\<rparr>) synth files i cs w"
proof (induction cs arbitrary: w i rule: list_nonempty_induct)
  case (single c)
  show ?case unfolding run_loop_Cons by (rule chain_Nil [symmetric]) simp
next
  case (cons c cs)
  have "chain (synth (req\<lparr>sy_chunks := [c]\<rparr>) files w) (synth (req\<lparr>sy_chunks := cs\<rparr>) files) =
    chain (synth (req\<lparr>sy_chunks := [c]\<rparr>) files w)
      (run_loop (\<lambda>_. False) (\<lambda>c. req\<lparr>sy_chunks := [c]\<rparr>) synth files (i + 1) cs)"
  proof (rule chain_cong)
    fix rs w1
    assume "synth (req\<lparr>sy_chunks := [c]\<rparr>) files w = (Inr rs, w1)"
    then have "inv w1" using synth_inv [OF cons.prems, of "req\<lparr>sy_chunks := [c]\<rparr>" files] by simp
    then show "synth (req\<lparr>sy_chunks := cs\<rparr>) files w1 = run_loop (\<lambda>_. False) (\<lambda>c. req\<lparr>sy_chunks := [c]\<rparr>) synth files (i + 1) cs w1"
      by (rule cons.IH)
  qed
  then show ?case unfolding run_loop_Cons by (rule trans [OF synth_Cons [OF cons.prems]])
qed

end

text \<open>What the model cache gives: the model of a retrieval is found again, and finding it changes nothing.\<close>

definition engine_inv :: "('m, 'g) engine \<Rightarrow> bool" where
  "engine_inv pcg = (case pcg of (p, c, _) \<Rightarrow> cache_inv c)"

lemma delete_last: "k \<notin> fst ` set es \<Longrightarrow> AList.delete k (es @ [(k, e)]) = es"
  by (induction es) auto

lemma try_hit_again: "lru_entries c = es @ [(k, e)] \<Longrightarrow> k \<notin> fst ` set es \<Longrightarrow> try_hit c k = (Some (ce_model e), c)"
  by (simp add: try_hit_def move_to_end_def map_add_def map_of_eq_None_iff [THEN iffD2] delete_last)

lemma hit_is_newest:
  assumes i: "cache_inv c" and newest: "hd (loaded_keys c) = k" and m: "map_option ce_model (map_of (lru_entries c) k) = Some m"
  shows "try_hit c k = (Some m, c)"
proof -
  from m have "lru_entries c \<noteq> []" by auto
  then obtain es k' e where es: "lru_entries c = es @ [(k', e)]" by (metis append_butlast_last_id surj_pair)
  with newest have k: "k' = k" by (simp add: loaded_keys_def)
  from i es k have fresh: "k \<notin> fst ` set es" by (simp add: cache_inv_def)
  from m es k fresh have "ce_model e = m" by (simp add: map_add_def map_of_eq_None_iff [THEN iffD2])
  with try_hit_again [OF es [unfolded k] fresh] show ?thesis by simp
qed

lemma get_or_load_again:
  assumes i: "cache_inv c" and run: "get_or_load c k loader validator u = (Inr m, c', us)"
  shows "cache_inv c' \<and> get_or_load c' k loader validator u = (Inr m, c', [])"
proof -
  from get_or_load_cases [OF i run] i have i': "cache_inv c'" and hd: "hd (loaded_keys c') = k"
    by (auto simp: lru_touch_def cache_inv_def take_Cons' split: if_splits)
  have "map_option ce_model (map_of (lru_entries c') k) = Some m"
  proof (cases "map_of (lru_entries c) k")
    case None
    then show ?thesis using run install_spec(4) [OF i, of k _ u]
      by (auto simp: get_or_load_def try_hit_def split: sum.splits prod.splits)
  next
    case (Some e)
    then show ?thesis using run by (auto simp: get_or_load_def try_hit_def map_of_move_to_end)
  qed
  from hit_is_newest [OF i' hd this] i' show ?thesis by (simp add: get_or_load_def)
qed

lemma get_model_again:
  assumes "cache_inv c" "get_model p c name loader = (Inr m, p', c', us)"
  shows "cache_inv c' \<and> get_model p' c' name loader = (Inr m, p', c', [])"
proof (cases "mp_shared p")
  case True
  with assms(2) have "get_or_load c (mp_name p, name) loader (Some (validate_model p name)) (Some (mp_name p)) = (Inr m, c', us)"
    "p' = p" by (auto simp: get_model_def split: prod.splits)
  with get_or_load_again [OF assms(1) this(1)] True show ?thesis by (simp add: get_model_def)
next
  case False
  with assms show ?thesis
    by (auto simp: get_model_def get_model_lock_def split: option.splits sum.splits)
qed

lemma get_model_failed:
  assumes "cache_inv c" "get_model p c name loader = (Inl e, p', c', us)"
  shows "cache_inv c'"
  using assms get_or_load_cases [OF assms(1)]
  by (auto simp: get_model_def split: if_splits prod.splits option.splits sum.splits)

text \<open>
  The calls a provider makes with the model: perhaps a refusal of the whole request, then one call per chunk, which does
  not look at the other chunks.
\<close>

locale chunk_calls =
  fixes load :: "string \<Rightarrow> 'm res"
    and call :: "('m, 'g) chunk_call"
    and refusal :: "'m \<Rightarrow> synthesis_request \<Rightarrow> py_exc option"
    and one :: "'m \<Rightarrow> synthesis_request \<Rightarrow> (string \<Rightarrow> bytes option) \<Rightarrow> utext \<Rightarrow> 'g \<Rightarrow> bytes list res \<times> 'g"
  assumes call_each: "call m req files g =
      (case refusal m req of Some e \<Rightarrow> (Inl e, g) | None \<Rightarrow> each_chunk (one m req files) (sy_chunks req) g)"
    and refusal_chunks: "refusal m (req\<lparr>sy_chunks := cs\<rparr>) = refusal m req"
    and one_chunks: "one m (req\<lparr>sy_chunks := cs\<rparr>) = one m req"

sublocale chunk_calls \<subseteq> chunkwise_provider "provider_synth load call" engine_inv
proof
  fix w :: "('m, 'g) engine" and req files
  assume "engine_inv w"
  then show "engine_inv (snd (provider_synth load call req files w))"
    by (auto simp: engine_inv_def provider_synth_def dest: get_model_again get_model_failed split: prod.splits sum.splits)
next
  fix w :: "('m, 'g) engine" and req c cs files
  assume i: "engine_inv w"
  show "provider_synth load call (req\<lparr>sy_chunks := c # cs\<rparr>) files w =
      chain (provider_synth load call (req\<lparr>sy_chunks := [c]\<rparr>) files w) (provider_synth load call (req\<lparr>sy_chunks := cs\<rparr>) files)"
  proof (rule prod_cases3 [of w])
    fix p c0 g
    assume w: "w = (p, c0, g)"
    with i have inv: "cache_inv c0" by (simp add: engine_inv_def)
    show ?thesis
    proof (rule prod_cases4 [of "get_model p c0 (sy_model_name req) (load (sy_model_name req))"])
      fix r p' c' us
      assume m: "get_model p c0 (sy_model_name req) (load (sy_model_name req)) = (r, p', c', us)"
      show ?thesis
      proof (cases r)
        case (Inl e)
        with m w show ?thesis by (simp add: provider_synth_def)
      next
        case (Inr md)
        note again = get_model_again [OF inv m [unfolded Inr]]
        show ?thesis
        proof (cases "refusal md req")
          case (Some e)
          with m w Inr show ?thesis by (simp add: provider_synth_def call_each refusal_chunks)
        next
          case None
          show ?thesis
            by (cases "one md req files c g"; cases "fst (one md req files c g)")
              (use m w Inr again None in \<open>simp_all add: provider_synth_def call_each refusal_chunks one_chunks split: prod.splits sum.splits\<close>)
        qed
      qed
    qed
  qed
qed

text \<open>The three providers of the registry.\<close>

abbreviation mlx_synth where
  "mlx_synth lib load \<equiv> provider_synth (\<lambda>n. mlx_load_model ''mlx_audio'' n (load n)) (mlx_call lib)"

abbreviation voxtral_synth where
  "voxtral_synth lib load \<equiv> provider_synth (\<lambda>n. mlx_load_model ''voxtral'' n (load n)) (voxtral_call lib)"

abbreviation vllm_synth where
  "vllm_synth lib \<equiv> provider_synth (vllm_load_model (vl_modules lib)) (vllm_call lib)"

definition mlx_refusal :: "('m, 'a, 'g) mlx_lib \<Rightarrow> 'm \<Rightarrow> synthesis_request \<Rightarrow> py_exc option" where
  "mlx_refusal lib m req = (case mlx_voice_selection req (mlx_signature_params lib m) of Inl e \<Rightarrow> Some e | Inr _ \<Rightarrow> None)"

definition mlx_one where
  "mlx_one lib m req = (case mlx_voice_selection req (mlx_signature_params lib m) of
     Inl e \<Rightarrow> (\<lambda>files c g. (Inl e, g))
   | Inr sel \<Rightarrow> mlx_chunk lib m sel (generation_args req (mlx_signature_params lib m)))"

lemma request_chunks [simp]:
  "mlx_voice_selection (req\<lparr>sy_chunks := cs\<rparr>) = mlx_voice_selection req"
  "vllm_voice_selection (req\<lparr>sy_chunks := cs\<rparr>) = vllm_voice_selection req"
  "generation_args (req\<lparr>sy_chunks := cs\<rparr>) = generation_args req"
  "voxtral_kwargs (req\<lparr>sy_chunks := cs\<rparr>) = voxtral_kwargs req"
  by (intro ext, simp add: mlx_voice_selection_def vllm_voice_selection_def generation_args_def voxtral_kwargs_def)+

interpretation mlxaudio: chunk_calls "\<lambda>n. mlx_load_model ''mlx_audio'' n (load n)" "mlx_call lib" "mlx_refusal lib" "mlx_one lib"
  for load lib
  by unfold_locales (simp_all add: mlx_call_def mlx_refusal_def mlx_one_def Let_def split: sum.splits)

interpretation voxtral: chunk_calls "\<lambda>n. mlx_load_model ''voxtral'' n (load n)" "voxtral_call lib" "\<lambda>_ _. None"
  "\<lambda>m req files. voxtral_chunk lib m req (voxtral_signature_params lib m) files" for load lib
  by unfold_locales (simp_all add: voxtral_call_def voxtral_chunk_def fun_eq_iff)

interpretation vllm: chunk_calls "vllm_load_model (vl_modules lib)" "vllm_call lib" "\<lambda>_ _. None"
  "\<lambda>m req. vllm_chunk lib m (vllm_voice_selection req (vllm_signature_params lib m)) (generation_args req (vllm_signature_params lib m))"
  for lib
  by unfold_locales (simp_all add: vllm_call_def Let_def)

lemma three_providers_in_turn:
  assumes "cs \<noteq> []" "engine_inv w" and "synth \<in> {mlx_synth mlib mload, voxtral_synth mlib mload, vllm_synth vlib}"
  shows "synth (req\<lparr>sy_chunks := cs\<rparr>) files w = run_loop (\<lambda>_. False) (\<lambda>chunk. req\<lparr>sy_chunks := [chunk]\<rparr>) synth files 0 cs w"
proof -
  consider "synth = mlx_synth mlib mload" | "synth = voxtral_synth mlib mload" | "synth = vllm_synth vlib"
    using assms(3) by auto
  then show ?thesis
  proof cases
    case 1
    show ?thesis unfolding 1 by (rule mlxaudio.at_once_is_in_turn [OF assms(1,2)])
  next
    case 2
    show ?thesis unfolding 2 by (rule voxtral.at_once_is_in_turn [OF assms(1,2)])
  next
    case 3
    show ?thesis unfolding 3 by (rule vllm.at_once_is_in_turn [OF assms(1,2)])
  qed
qed

subsection \<open>Arguments\<close>

lemma first_supported_SomeD: "first_supported_name cs ps = Some n \<Longrightarrow> n \<in> set cs \<and> n \<in> set ps"
  by (auto simp: first_supported_name_def find_Some_iff)

lemmas alias_defs = voice_name_aliases_def ref_audio_aliases_def ref_text_aliases_def language_arg_aliases_def
  temperature_aliases_def top_p_aliases_def

lemma keys_opt_arg: "fst ` set (opt_arg n v) = set_option n"
  by (cases n) (auto simp: opt_arg_def)

lemma keys_named: "fst ` set (build_named_voice_args v ps) \<subseteq> set voice_name_aliases \<inter> set ps"
  by (auto simp: build_named_voice_args_def keys_opt_arg dest!: first_supported_SomeD split: if_splits)

lemma keys_clone: "fst ` set (build_clone_voice_args path rt ps) \<subseteq> (set ref_audio_aliases \<union> set ref_text_aliases) \<inter> set ps"
  by (auto simp: build_clone_voice_args_def keys_opt_arg keys_dict_merge dest!: first_supported_SomeD split: if_splits)

lemma keys_generation: "fst ` set (generation_args req ps) \<subseteq>
    (set language_arg_aliases \<union> set temperature_aliases \<union> set top_p_aliases) \<inter> set ps"
proof (cases "sy_generation req")
  case (Some go)
  then have "fst ` set (generation_args req ps) = set_option (first_supported_name language_arg_aliases ps) \<union>
      set_option (first_supported_name temperature_aliases ps) \<union> set_option (first_supported_name top_p_aliases ps)"
    by (simp add: generation_args_def build_generation_args_def keys_opt_arg keys_dict_merge)
  then show ?thesis by (auto dest!: first_supported_SomeD)
qed (simp add: generation_args_def)

lemma aliases_disjoint:
  "set voice_name_aliases \<inter> (set ref_audio_aliases \<union> set ref_text_aliases) = {}"
  "''text'' \<notin> set voice_name_aliases \<union> set ref_audio_aliases \<union> set ref_text_aliases \<union> set language_arg_aliases \<union>
     set temperature_aliases \<union> set top_p_aliases"
  "set ref_audio_aliases \<inter> (set ref_text_aliases \<union> set language_arg_aliases \<union> set temperature_aliases \<union> set top_p_aliases) = {}"
  by (simp_all add: alias_defs)

text \<open>\<open>require_any\<close> changes nothing: with no arguments the two results agree.\<close>

lemma require_any_irrelevant: "select_voice_args v path rt ps pc True = select_voice_args v path rt ps pc False"
  by (simp add: select_voice_args_def Let_def)

lemma selection_cases:
  obtains (clone) "build_clone_voice_args path rt ps \<noteq> []"
      "select_voice_args v path rt ps True req = \<lparr>va_primary = build_clone_voice_args path rt ps,
         va_fallback = build_clone_voice_args path rt ps, va_named = False\<rparr>"
  | (named) "build_clone_voice_args path rt ps = []" "build_named_voice_args v ps \<noteq> []"
      "select_voice_args v path rt ps True req = \<lparr>va_primary = build_named_voice_args v ps, va_fallback = [], va_named = True\<rparr>"
  | (neither) "build_clone_voice_args path rt ps = []" "build_named_voice_args v ps = []"
      "select_voice_args v path rt ps True req = \<lparr>va_primary = [], va_fallback = [], va_named = False\<rparr>"
proof -
  let ?c = "build_clone_voice_args path rt ps" and ?n = "build_named_voice_args v ps"
  have ne: "?c \<noteq> [] \<Longrightarrow> ?c \<noteq> ?n"
  proof
    assume "?c \<noteq> []" "?c = ?n"
    then obtain x where "x \<in> fst ` set ?c" by (cases ?c) force+
    moreover from this \<open>?c = ?n\<close> have "x \<in> fst ` set ?n" by simp
    ultimately show False using keys_named [of v ps] keys_clone [of path rt ps] aliases_disjoint(1) by blast
  qed
  show ?thesis
  proof (cases "?c = []")
    case False
    then show ?thesis using ne by (intro clone) (simp_all add: select_voice_args_def Let_def)
  next
    case True
    then show ?thesis
      by (cases "?n = []") (auto intro: named neither simp: select_voice_args_def Let_def)
  qed
qed

lemma keys_selection: "fst ` set (va_primary (select_voice_args v path rt ps True b)) \<subseteq>
    (set voice_name_aliases \<union> set ref_audio_aliases \<union> set ref_text_aliases) \<inter> set ps"
  by (rule selection_cases [of path rt ps v b]) (use keys_named [of v ps] keys_clone [of path rt ps] in auto)

lemma distinct_selection: "distinct (map fst (va_primary (select_voice_args v path rt ps True b)))"
  by (rule selection_cases [of path rt ps v b])
    (auto simp: build_clone_voice_args_def build_named_voice_args_def opt_arg_def intro!: distinct_dict_merge split: option.splits)

lemma clone_reference:
  assumes "path \<noteq> []" "first_supported_name ref_audio_aliases ps = Some n"
  shows "map_of (build_clone_voice_args path rt ps) n = Some (StrArg path)"
proof -
  have "n \<in> set ref_audio_aliases" using assms(2) by (simp add: first_supported_SomeD)
  then have "n \<notin> fst ` set (opt_arg (first_supported_name ref_text_aliases ps) (StrArg rt))"
    using aliases_disjoint(3) by (auto simp: keys_opt_arg dest!: first_supported_SomeD)
  then show ?thesis using assms
    by (simp add: build_clone_voice_args_def map_of_dict_merge_old) (simp add: opt_arg_def)
qed

lemma selection_prefers_clone:
  assumes "path \<noteq> []" "first_supported_name ref_audio_aliases ps = Some n"
  shows "map_of (va_primary (select_voice_args v path rt ps True b)) n = Some (StrArg path)"
  by (rule selection_cases [of path rt ps v b]) (use clone_reference [OF assms, of rt] in auto)


definition sample_synthesis :: synthesis_request where
  "sample_synthesis = build_synthesis_request ''m'' sample_vc ''amy'' ''wav'' (ustr ''Hi'')"

lemma sample_vc_reference: "vc_ref_audio_path sample_vc = ''/tmp/voice-mario-1.wav''"
  by (simp add: sample_vc_def build_voice_config_def Let_def)



definition sample_mlx :: "(unit, bytes, nat) mlx_lib" where
  "sample_mlx = \<lparr>ml_params = \<lambda>_. Some [''text'', ''voice''],
     ml_generate = \<lambda>_ kwargs _ g. (MlxRaises (AssertionErr ''voice not found''), g + 1), ml_encode = \<lambda>a _. Inr a\<rparr>"

definition sample_vllm :: "(unit, bytes, nat) vllm_lib" where
  "sample_vllm = \<lparr>vl_modules = \<lambda>_. NoModule, vl_params = \<lambda>_. Some [''text'', ''voice''],
     vl_entry = \<lambda>_. GenerateMethod (\<lambda>kwargs _ g. if length kwargs = 1 then (VllmReturns (RawBytes [1]) [] None, g + 1)
       else (VllmRaises (AssertionErr ''voice not found''), g + 1)), vl_encode = \<lambda>a _. Inr a\<rparr>"


definition silent_vllm :: "(unit, bytes, nat) vllm_lib" where
  "silent_vllm = \<lparr>vl_modules = \<lambda>_. ModuleWith (\<lambda>_. Inr ()), vl_params = \<lambda>_. None,
     vl_entry = \<lambda>_. CallableModel (\<lambda>kwargs _ g. (VllmReturns (ObjPayload None None None) [RawBytes [7]] None, g + 1)),
     vl_encode = \<lambda>a _. Inr a\<rparr>"

end
