(* ===== verification/S3Blob.thy ===== *)
theory S3Blob
  imports FsBlob
begin

text \<open>
  \<open>voice_store/s3_blob.py\<close>: the blobs of the voices in an S3 bucket. The client of aiobotocore is a parameter, a record
  of its calls on a state \<open>'b\<close>; \<open>s3_laws\<close> states what S3 documents of them. The repository keeps, beside that state, whether
  it has seen its bucket.
\<close>

subsection \<open>The client\<close>

text \<open>A \<open>ClientError\<close> with its code, its HTTP status and its text; or another exception (no connection, no credentials).\<close>

datatype s3_error = ClientErr string "int option" string | ClientFails py_exc

record 'b s3_client =
  s3_open :: "'b \<Rightarrow> unit res \<times> 'b"
  s3_head_bucket :: "string \<Rightarrow> 'b \<Rightarrow> (s3_error + unit) \<times> 'b"
  s3_put :: "string \<Rightarrow> string \<Rightarrow> bytes \<Rightarrow> 'b \<Rightarrow> (s3_error + unit) \<times> 'b"
  s3_get :: "string \<Rightarrow> string \<Rightarrow> 'b \<Rightarrow> (s3_error + bytes) \<times> 'b"
  s3_head :: "string \<Rightarrow> string \<Rightarrow> 'b \<Rightarrow> (s3_error + unit) \<times> 'b"
  s3_delete :: "string \<Rightarrow> string \<Rightarrow> 'b \<Rightarrow> (s3_error + unit) \<times> 'b"

type_synonym 'b s3_state = "bool \<times> 'b"

subsection \<open>The repository\<close>

fun is_missing :: "s3_error \<Rightarrow> bool" where
  "is_missing (ClientErr code status _) = (code \<in> {''NoSuchKey'', ''NoSuchBucket'', ''404''} \<or> status = Some 404)"
| "is_missing (ClientFails _) = False"

text \<open>What leaves the repository when it does not translate an error.\<close>

fun s3_raise :: "s3_error \<Rightarrow> py_exc" where
  "s3_raise (ClientErr _ _ msg) = OtherErr msg"
| "s3_raise (ClientFails e) = e"

definition new_s3_repo :: "string \<Rightarrow> 'b \<Rightarrow> 'b s3_state res" where
  "new_s3_repo bucket b =
     (if bucket = [] then Inl (ValueErr ''S3BlobRepository requires a non-empty bucket name'') else Inr (False, b))"

definition key_for :: "string \<Rightarrow> string res" where
  "key_for v = bindE (validate_voice_id v) (\<lambda>_. Inr (v @ ''.wav''))"

definition ensure_bucket :: "'b s3_client \<Rightarrow> string \<Rightarrow> 'b s3_state \<Rightarrow> unit res \<times> 'b s3_state" where
  "ensure_bucket C bucket st = (case st of (verified, b) \<Rightarrow>
     if verified then (Inr (), st)
     else (case s3_head_bucket C bucket b of
         (Inl (ClientErr _ _ msg), b1) \<Rightarrow> (Inl (VoiceStoreErr (''S3 bucket '' @ repr_str bucket @ '' not reachable: '' @ msg)), False, b1)
       | (Inl (ClientFails e), b1) \<Rightarrow> (Inl e, False, b1)
       | (Inr _, b1) \<Rightarrow> (Inr (), True, b1)))"

text \<open>The prologue of every operation: the key, a client, the bucket.\<close>

definition with_bucket :: "'b s3_client \<Rightarrow> string \<Rightarrow> string \<Rightarrow> (string \<Rightarrow> 'b \<Rightarrow> 'a res \<times> 'b) \<Rightarrow> 'b s3_state \<Rightarrow> 'a res \<times> 'b s3_state" where
  "with_bucket C bucket v body st = (case key_for v of
       Inl e \<Rightarrow> (Inl e, st)
     | Inr key \<Rightarrow> (case s3_open C (snd st) of
         (Inl e, b) \<Rightarrow> (Inl e, fst st, b)
       | (Inr _, b) \<Rightarrow> (case ensure_bucket C bucket (fst st, b) of
           (Inl e, st1) \<Rightarrow> (Inl e, st1)
         | (Inr _, verified, b1) \<Rightarrow> (case body key b1 of (r, b2) \<Rightarrow> (r, verified, b2)))))"

definition s3b_put :: "'b s3_client \<Rightarrow> string \<Rightarrow> string \<Rightarrow> bytes \<Rightarrow> 'b s3_state \<Rightarrow> unit res \<times> 'b s3_state" where
  "s3b_put C bucket v data = with_bucket C bucket v (\<lambda>key b. case s3_put C bucket key data b of
       (Inl e, b1) \<Rightarrow> (Inl (s3_raise e), b1)
     | (Inr _, b1) \<Rightarrow> (Inr (), b1))"

definition s3b_get :: "'b s3_client \<Rightarrow> string \<Rightarrow> string \<Rightarrow> 'b s3_state \<Rightarrow> bytes res \<times> 'b s3_state" where
  "s3b_get C bucket v = with_bucket C bucket v (\<lambda>key b. case s3_get C bucket key b of
       (Inl e, b1) \<Rightarrow> (Inl (if is_missing e then VoiceNotFound v else s3_raise e), b1)
     | (Inr d, b1) \<Rightarrow> (Inr d, b1))"

definition s3b_exists :: "'b s3_client \<Rightarrow> string \<Rightarrow> string \<Rightarrow> 'b s3_state \<Rightarrow> bool res \<times> 'b s3_state" where
  "s3b_exists C bucket v = with_bucket C bucket v (\<lambda>key b. case s3_head C bucket key b of
       (Inl e, b1) \<Rightarrow> (if is_missing e then Inr False else Inl (s3_raise e), b1)
     | (Inr _, b1) \<Rightarrow> (Inr True, b1))"

definition s3b_delete :: "'b s3_client \<Rightarrow> string \<Rightarrow> string \<Rightarrow> 'b s3_state \<Rightarrow> unit res \<times> 'b s3_state" where
  "s3b_delete C bucket v = with_bucket C bucket v (\<lambda>key b. case s3_head C bucket key b of
       (Inl e, b1) \<Rightarrow> (Inl (if is_missing e then VoiceNotFound v else s3_raise e), b1)
     | (Inr _, b1) \<Rightarrow> (case s3_delete C bucket key b1 of
         (Inl e, b2) \<Rightarrow> (Inl (s3_raise e), b2)
       | (Inr _, b2) \<Rightarrow> (Inr (), b2)))"

definition s3_blob_repo :: "'b s3_client \<Rightarrow> string \<Rightarrow> 'b s3_state blob_ops" where
  "s3_blob_repo C bucket =
     \<lparr>b_put = s3b_put C bucket, b_get = s3b_get C bucket, b_exists = s3b_exists C bucket, b_delete = s3b_delete C bucket\<rparr>"

subsection \<open>What S3 documents\<close>

text \<open>
  \<open>stored b key\<close> is the object of the bucket under that key. A call that fails leaves the objects as they were; a
  missing key or bucket is reported as such, with one of the codes or the status 404, and only then; other
  exceptions of the client are subclasses of \<open>Exception\<close>.
\<close>

fun s3_failure :: "s3_error \<Rightarrow> bool" where
  "s3_failure (ClientErr _ _ _) = True"
| "s3_failure (ClientFails e) = backend_failure e"

definition s3_laws :: "'b s3_client \<Rightarrow> string \<Rightarrow> ('b \<Rightarrow> string \<Rightarrow> bytes option) \<Rightarrow> bool" where
  "s3_laws C bucket stored \<longleftrightarrow>
     (\<forall>b r b'. s3_open C b = (r, b') \<longrightarrow> stored b' = stored b \<and> (case r of Inl e \<Rightarrow> backend_failure e | Inr _ \<Rightarrow> True)) \<and>
     (\<forall>b r b'. s3_head_bucket C bucket b = (r, b') \<longrightarrow> stored b' = stored b \<and> (case r of Inl e \<Rightarrow> s3_failure e | Inr _ \<Rightarrow> True)) \<and>
     (\<forall>k d b r b'. s3_put C bucket k d b = (r, b') \<longrightarrow>
        (case r of Inl e \<Rightarrow> s3_failure e \<and> stored b' = stored b | Inr _ \<Rightarrow> stored b' = (stored b)(k \<mapsto> d))) \<and>
     (\<forall>k b r b'. s3_get C bucket k b = (r, b') \<longrightarrow> stored b' = stored b \<and>
        (case r of Inl e \<Rightarrow> s3_failure e \<and> (is_missing e \<longrightarrow> stored b k = None) | Inr d \<Rightarrow> stored b k = Some d)) \<and>
     (\<forall>k b r b'. s3_head C bucket k b = (r, b') \<longrightarrow> stored b' = stored b \<and>
        (case r of Inl e \<Rightarrow> s3_failure e \<and> (is_missing e \<longrightarrow> stored b k = None) | Inr _ \<Rightarrow> stored b k \<noteq> None)) \<and>
     (\<forall>k b r b'. s3_delete C bucket k b = (r, b') \<longrightarrow>
        (case r of Inl e \<Rightarrow> s3_failure e \<and> stored b' = stored b | Inr _ \<Rightarrow> stored b' = (stored b)(k := None)))"

definition s3_abs :: "('b \<Rightarrow> string \<Rightarrow> bytes option) \<Rightarrow> 'b s3_state \<Rightarrow> string \<Rightarrow> bytes option" where
  "s3_abs stored st v = stored (snd st) (v @ ''.wav'')"

lemma s3_raise_failure: "s3_failure e \<Longrightarrow> backend_failure (s3_raise e)"
  by (cases e) auto

lemma key_for_valid [simp]: "voice_id_regex v \<Longrightarrow> key_for v = Inr (v @ ''.wav'')"
  by (simp add: key_for_def validate_voice_id_def)

lemmas s3_law = s3_laws_def [THEN iffD1]
lemmas s3_law_open = s3_law [THEN conjunct1, rule_format]
lemmas s3_law_bucket = s3_law [THEN conjunct2, THEN conjunct1, rule_format]
lemmas s3_law_put = s3_law [THEN conjunct2, THEN conjunct2, THEN conjunct1, rule_format]
lemmas s3_law_get = s3_law [THEN conjunct2, THEN conjunct2, THEN conjunct2, THEN conjunct1, rule_format]
lemmas s3_law_head = s3_law [THEN conjunct2, THEN conjunct2, THEN conjunct2, THEN conjunct2, THEN conjunct1, rule_format]
lemmas s3_law_delete = s3_law [THEN conjunct2, THEN conjunct2, THEN conjunct2, THEN conjunct2, THEN conjunct2, rule_format]

text \<open>The prologue changes no object; where it fails, the operation is a failure of the backend.\<close>

lemma with_bucket_cases:
  assumes "s3_laws C bucket stored" "voice_id_regex v" "with_bucket C bucket v body st = (r, st')"
  obtains (failed) e where "r = Inl e" "backend_failure e" "stored (snd st') = stored (snd st)"
  | (ran) b r' b' where "stored b = stored (snd st)" "body (v @ ''.wav'') b = (r', b')" "r = r'" "snd st' = b'"
proof -
  obtain r0 b0 where o: "s3_open C (snd st) = (r0, b0)" by fastforce
  note o1 = s3_law_open [OF assms(1) o]
  show ?thesis
  proof (cases r0)
    case (Inl e)
    with assms(2,3) o o1 show ?thesis by (intro failed) (auto simp: with_bucket_def)
  next
    case (Inr u)
    obtain r1 b1 where h: "s3_head_bucket C bucket b0 = (r1, b1)" by fastforce
    note h1 = s3_law_bucket [OF assms(1) h]
    obtain r2 verified b2 where e: "ensure_bucket C bucket (fst st, b0) = (r2, verified, b2)" by (metis prod_cases3)
    with h h1 have e1: "stored b2 = stored b0" "case r2 of Inl e \<Rightarrow> backend_failure e | Inr _ \<Rightarrow> True"
      by (auto simp: ensure_bucket_def split: if_splits sum.splits s3_error.splits)
    show ?thesis
    proof (cases r2)
      case r2: (Inl x)
      with assms(2,3) o o1 e e1 Inr show ?thesis by (intro failed) (auto simp: with_bucket_def)
    next
      case r2: (Inr x)
      obtain r' b' where "body (v @ ''.wav'') b2 = (r', b')" by fastforce
      with assms(2,3) o o1 e e1 Inr r2 show ?thesis by (intro ran [of b2 r' b']) (auto simp: with_bucket_def)
    qed
  qed
qed

lemma s3_implements_blob_repo:
  assumes "s3_laws C bucket stored"
  shows "blob_repo (s3_blob_repo C bucket) (\<lambda>_. True) (s3_abs stored)"
proof (unfold_locales, goal_cases)
  case (1 v d b r b')
  then have "with_bucket C bucket v (\<lambda>key b. case s3_put C bucket key d b of
       (Inl e, b1) \<Rightarrow> (Inl (s3_raise e), b1) | (Inr _, b1) \<Rightarrow> (Inr (), b1)) b = (r, b')"
    by (simp add: s3_blob_repo_def s3b_put_def)
  from assms 1(3) this show ?case
  proof (cases rule: with_bucket_cases)
    case (ran b0 r0 b1)
    obtain r1 b2 where "s3_put C bucket (v @ ''.wav'') d b0 = (r1, b2)" by fastforce
    with ran s3_law_put [OF assms this] show ?thesis
      by (cases r1) (auto simp: s3_abs_def s3_raise_failure fun_eq_iff)
  qed (simp add: s3_abs_def fun_eq_iff)
next
  case (2 v b r b')
  then have "with_bucket C bucket v (\<lambda>key b. case s3_get C bucket key b of
       (Inl e, b1) \<Rightarrow> (Inl (if is_missing e then VoiceNotFound v else s3_raise e), b1) | (Inr d, b1) \<Rightarrow> (Inr d, b1)) b = (r, b')"
    by (simp add: s3_blob_repo_def s3b_get_def)
  from assms 2(3) this show ?case
  proof (cases rule: with_bucket_cases)
    case (ran b0 r0 b1)
    obtain r1 b2 where "s3_get C bucket (v @ ''.wav'') b0 = (r1, b2)" by fastforce
    with ran s3_law_get [OF assms this] show ?thesis
      by (cases r1) (auto simp: s3_abs_def s3_raise_failure fun_eq_iff)
  qed (simp add: s3_abs_def fun_eq_iff)
next
  case (3 v b r b')
  then have "with_bucket C bucket v (\<lambda>key b. case s3_head C bucket key b of
       (Inl e, b1) \<Rightarrow> (if is_missing e then Inr False else Inl (s3_raise e), b1) | (Inr _, b1) \<Rightarrow> (Inr True, b1)) b = (r, b')"
    by (simp add: s3_blob_repo_def s3b_exists_def)
  from assms 3(3) this show ?case
  proof (cases rule: with_bucket_cases)
    case (ran b0 r0 b1)
    obtain r1 b2 where "s3_head C bucket (v @ ''.wav'') b0 = (r1, b2)" by fastforce
    with ran s3_law_head [OF assms this] show ?thesis
      by (cases r1) (auto simp: s3_abs_def s3_raise_failure fun_eq_iff)
  qed (simp add: s3_abs_def fun_eq_iff)
next
  case (4 v b r b')
  then have "with_bucket C bucket v (\<lambda>key b. case s3_head C bucket key b of
       (Inl e, b1) \<Rightarrow> (Inl (if is_missing e then VoiceNotFound v else s3_raise e), b1)
     | (Inr _, b1) \<Rightarrow> (case s3_delete C bucket key b1 of (Inl e, b2) \<Rightarrow> (Inl (s3_raise e), b2) | (Inr _, b2) \<Rightarrow> (Inr (), b2))) b = (r, b')"
    by (simp add: s3_blob_repo_def s3b_delete_def)
  from assms 4(3) this show ?case
  proof (cases rule: with_bucket_cases)
    case (ran b0 r0 b1)
    obtain r1 b2 where h: "s3_head C bucket (v @ ''.wav'') b0 = (r1, b2)" by fastforce
    obtain r2 b3 where d: "s3_delete C bucket (v @ ''.wav'') b2 = (r2, b3)" by fastforce
    from ran h d s3_law_head [OF assms h] s3_law_delete [OF assms d] show ?thesis
      by (cases r1; cases r2) (auto simp: s3_abs_def s3_raise_failure fun_eq_iff)
  qed (simp add: s3_abs_def fun_eq_iff)
qed

text \<open>A bucket in memory.\<close>

definition memory_s3 :: "(string \<Rightarrow> bytes option) s3_client" where
  "memory_s3 = \<lparr>s3_open = \<lambda>b. (Inr (), b), s3_head_bucket = \<lambda>_ b. (Inr (), b), s3_put = \<lambda>_ k d b. (Inr (), b(k \<mapsto> d)),
     s3_get = \<lambda>_ k b. (case b k of None \<Rightarrow> Inl (ClientErr ''NoSuchKey'' (Some 404) ''gone'') | Some d \<Rightarrow> Inr d, b),
     s3_head = \<lambda>_ k b. (if b k = None then Inl (ClientErr '''' (Some 404) ''gone'') else Inr (), b),
     s3_delete = \<lambda>_ k b. (Inr (), b(k := None))\<rparr>"

lemma memory_s3_laws: "s3_laws memory_s3 bucket id"
  by (auto simp: s3_laws_def memory_s3_def split: option.splits if_splits)

end
