(* ===== verification/RemoteStores.thy ===== *)
theory RemoteStores
  imports Postgres S3Blob VoicesRouter
begin

text \<open>
  The optional backends together: the metadata in PostgreSQL, the audio in S3. What the routers promise of the voice store
  was proved from the two protocols; here it is read for these backends.
\<close>

lemma remote_voice_store:
  assumes "pg_laws P tbl work" "s3_laws C bucket stored"
  shows "voice_store (pg_metadata_repo P) (pg_inv tbl) (pg_abs tbl) utc_stamp (s3_blob_repo C bucket) (\<lambda>_. True) (s3_abs stored)"
  by (rule voice_store.intro [OF pg_implements_metadata_repo [OF assms(1)] s3_implements_blob_repo [OF assms(2)]])





end
