(* ===== verification/TtsService.thy ===== *)
theory TtsService
  imports ProviderImpls AudioAdapter
begin

text \<open>
  The speech service of \<open>tts_service.py\<close>: the resolver of requests against the configured voices, the
  synthesizer and the responses. It sends all chunks of a request to the provider at once, where \<open>synthesize_core\<close>
  sends one at a time. A file of the host is seen through \<open>hf\<close>: its bytes, where there is one.
\<close>

subsection \<open>Resolving a request\<close>

record resolved_speech =
  rs_model_name :: string
  rs_provider :: string
  rs_voice_name :: string
  rs_voice :: voice_config
  rs_response_format :: string
  rs_chunks :: "utext list"
  rs_normalize_db :: pyfloat

definition split_text_semantic_compat :: "utext \<Rightarrow> nat \<Rightarrow> utext list res" where
  "split_text_semantic_compat t max_chars = split_text_semantic t max_chars 2"

definition ensure_input_present :: "utext \<Rightarrow> unit res" where
  "ensure_input_present t = (if t = [] \<or> tstrip t = [] then Inl input_required else Inr ())"

definition resolve_target :: "settings \<Rightarrow> speech_request \<Rightarrow> (string \<times> string) res" where
  "resolve_target s req = (case resolve_tts_target s (Some (sp_model req)) (sp_provider req) of
       Inl (ValueErr m) \<Rightarrow> Inl (invalid_request m (Some ''provider''))
     | r \<Rightarrow> r)"

definition ensure_model_allowed :: "settings \<Rightarrow> string \<Rightarrow> string \<Rightarrow> unit res" where
  "ensure_model_allowed s model provider =
     (if \<not> is_allowed_tts_model s model provider
      then Inl (invalid_request (''model '' @ quoted model @ '' is not allowed'') (Some ''model''))
      else Inr ())"

definition resolve_configured_voice :: "settings \<Rightarrow> (string \<Rightarrow> bytes option) \<Rightarrow> string \<Rightarrow> voice_config res" where
  "resolve_configured_voice s hf name = (case map_of (tts_voice_map s) name of
       None \<Rightarrow> Inl (invalid_request (''voice '' @ quoted name @ '' is not configured'') (Some ''voice''))
     | Some v \<Rightarrow>
         if vc_ref_audio_path v \<noteq> [] \<and> hf (vc_ref_audio_path v) = None
         then Inl (invalid_request_code (''voice '' @ quoted name @ '' reference audio path does not exist'') (Some ''voice'')
           ''voice_reference_missing'')
         else Inr v)"

definition resolve_response_format :: "string \<Rightarrow> string res" where
  "resolve_response_format f =
     (let normalized = lower (if f = [] then ''wav'' else f)
      in if normalized \<noteq> ''wav'' then Inl only_wav_supported else Inr normalized)"

definition prepare_speech_chunks :: "unidata \<Rightarrow> num2words \<Rightarrow> settings \<Rightarrow> utext \<Rightarrow> voice_config \<Rightarrow> utext list res" where
  "prepare_speech_chunks U N s t v =
     bindE (preprocess_for_tts U N t (if vc_number_lang v = [] then vc_language v else vc_number_lang v)) (\<lambda>normalized.
     bindE (split_text_semantic normalized (nat (tts_max_input_chars s)) (vc_max_sentences v)) (\<lambda>chunks.
       if chunks = [] then Inl input_required else Inr chunks))"

definition resolve_speech :: "unidata \<Rightarrow> num2words \<Rightarrow> settings \<Rightarrow> (string \<Rightarrow> bytes option) \<Rightarrow> speech_request \<Rightarrow> resolved_speech res" where
  "resolve_speech U N s hf req =
     bindE (ensure_input_present (sp_input req)) (\<lambda>_.
     bindE (resolve_target s req) (\<lambda>(model, provider).
     bindE (ensure_model_allowed s model provider) (\<lambda>_.
     bindE (resolve_configured_voice s hf (sp_voice req)) (\<lambda>v.
     bindE (resolve_response_format (sp_response_format req)) (\<lambda>fmt.
     bindE (prepare_speech_chunks U N s (sp_input req) v) (\<lambda>chunks.
       Inr \<lparr>rs_model_name = model, rs_provider = provider, rs_voice_name = sp_voice req, rs_voice = v,
         rs_response_format = fmt, rs_chunks = chunks, rs_normalize_db = dflt (sp_normalize_db req) (vc_target_db v)\<rparr>))))))"

subsection \<open>Synthesis\<close>

definition speech_synthesis_request :: "resolved_speech \<Rightarrow> synthesis_request" where
  "speech_synthesis_request rs =
     \<lparr>sy_model_name = rs_model_name rs, sy_chunks = rs_chunks rs, sy_voice = rs_voice rs, sy_voice_name = rs_voice_name rs,
      sy_response_format = rs_response_format rs,
      sy_generation = Some \<lparr>go_language = vc_language (rs_voice rs), go_temperature = vc_temperature (rs_voice rs),
        go_top_p = vc_top_p (rs_voice rs)\<rparr>\<rparr>"

definition speech_generate :: "loudness \<Rightarrow> 'w synth provider_registry \<Rightarrow> (string \<Rightarrow> bytes option) \<Rightarrow> resolved_speech \<Rightarrow> 'w world \<Rightarrow>
    bytes res \<times> 'w world" where
  "speech_generate D registry hf rs w =
     (if wd_queue w = 0 then (Inl (queue_full ''Server is at capacity; queue is full''), w)
      else (let w1 = acquire_queue w in
        (case registry_get registry (rs_provider rs) of
           Inl e \<Rightarrow> (Inl e, release_permit w1)
         | Inr strategy \<Rightarrow> (case pv_impl strategy (speech_synthesis_request rs) hf (wd_engine w1) of
             (r, g) \<Rightarrow>
               (bindE r (\<lambda>wavs. bindE (res_map (\<lambda>wav. normalize_wav_rms D wav (rs_normalize_db rs)) wavs) concat_wav_bytes),
                release_permit (w1\<lparr>wd_engine := g\<rparr>))))))"

subsection \<open>Responses\<close>

datatype speech_response = SpeechStream bytes | SpeechFile string

definition build_speech_response :: "tmp_outcome \<Rightarrow> bytes \<Rightarrow> bool \<Rightarrow> 'w world \<Rightarrow> speech_response res \<times> 'w world" where
  "build_speech_response tmp wav stream w =
     (if stream then (Inr (SpeechStream wav), w)
      else (case tmp of
          TmpOpenFails e \<Rightarrow> (Inl e, w)
        | TmpWriteFails p e \<Rightarrow> (Inl e, w\<lparr>wd_tmp := (p, []) # wd_tmp w\<rparr>)
        | TmpFile p \<Rightarrow> (Inr (SpeechFile p), w\<lparr>wd_tmp := (p, wav) # wd_tmp w\<rparr>)))"

text \<open>Sending: the body, and the background task after it.\<close>

fun send_speech_response :: "speech_response \<Rightarrow> 'w world \<Rightarrow> bytes option \<times> 'w world" where
  "send_speech_response (SpeechStream wav) w = (Some wav, w)"
| "send_speech_response (SpeechFile p) w = (map_of (wd_tmp w) p, remove_tmp p w)"

definition service_create_speech :: "unidata \<Rightarrow> num2words \<Rightarrow> loudness \<Rightarrow> settings \<Rightarrow> 'w synth provider_registry \<Rightarrow>
    (string \<Rightarrow> bytes option) \<Rightarrow> tmp_outcome \<Rightarrow> speech_request \<Rightarrow> bool \<Rightarrow> 'w world \<Rightarrow> speech_response res \<times> 'w world" where
  "service_create_speech U N D s registry hf tmp req stream w =
     (case resolve_speech U N s hf req of
        Inl e \<Rightarrow> (Inl e, w)
      | Inr rs \<Rightarrow> (case speech_generate D registry hf rs w of
          (Inl e, w1) \<Rightarrow> (Inl (wrap_failure e), w1)
        | (Inr wav, w1) \<Rightarrow> (case build_speech_response tmp wav stream w1 of
            (r, w2) \<Rightarrow> (map_sum wrap_failure id r, w2))))"

subsection \<open>Properties\<close>

text \<open>
  C16: the one-call service and the chunk-by-chunk pipeline produce the same audio. For the three providers of the
  registry, on one voice and one list of chunks: the permit is taken and given back, the engine ends in the
  same state, and the WAV file - or the first error - is that of the loop of the pipeline.
\<close>

theorem speech_service_matches_pipeline:
  assumes "registry_get registry (rs_provider rs) = Inr strategy"
    and "pv_impl strategy \<in> {mlx_synth mlib mload, voxtral_synth mlib mload, vllm_synth vlib}"
    and "engine_inv (wd_engine w)" "0 < wd_queue w" "rs_chunks rs \<noteq> []"
  shows "speech_generate D registry hf rs w =
    (case run_loop (\<lambda>_. False) (build_synthesis_request (rs_model_name rs) (rs_voice rs) (rs_voice_name rs) (rs_response_format rs))
        (pv_impl strategy) hf 0 (rs_chunks rs) (wd_engine w) of
       (r, g) \<Rightarrow> (bindE r (\<lambda>wavs. bindE (res_map (\<lambda>wav. normalize_wav_rms D wav (rs_normalize_db rs)) wavs) concat_wav_bytes),
         w\<lparr>wd_engine := g\<rparr>))"
proof -
  let ?base = "speech_synthesis_request rs"
  have req: "?base = ?base\<lparr>sy_chunks := rs_chunks rs\<rparr>" by (simp add: speech_synthesis_request_def)
  have mk: "(\<lambda>c. ?base\<lparr>sy_chunks := [c]\<rparr>) =
      build_synthesis_request (rs_model_name rs) (rs_voice rs) (rs_voice_name rs) (rs_response_format rs)"
    by (rule ext) (simp add: speech_synthesis_request_def build_synthesis_request_def)
  have call: "pv_impl strategy ?base hf (wd_engine w) = run_loop (\<lambda>_. False) (\<lambda>c. ?base\<lparr>sy_chunks := [c]\<rparr>)
      (pv_impl strategy) hf 0 (rs_chunks rs) (wd_engine w)"
    by (subst req) (rule three_providers_in_turn [OF assms(5,3,2)])
  show ?thesis using assms(1,4) call
    by (simp add: speech_generate_def world_ops mk split: prod.splits)
qed

definition speech_strategy :: "(unit, nat) engine synth tts_provider_strategy" where
  "speech_strategy = \<lparr>pv_name = ''vllm-omni'', pv_devices = [''cuda''], pv_impl = vllm_synth silent_vllm\<rparr>"

definition sample_speech :: resolved_speech where
  "sample_speech = \<lparr>rs_model_name = ''m'', rs_provider = ''vllm-omni'', rs_voice_name = ''amy'', rs_voice = sample_vc,
     rs_response_format = ''wav'', rs_chunks = [ustr ''a'', ustr ''b''], rs_normalize_db = Fin (-20)\<rparr>"

definition speech_world :: "(unit, nat) engine world" where
  "speech_world = \<lparr>wd_queue = 1, wd_tmp = [], wd_engine =
     (\<lparr>mp_name = ''vllm-omni'', mp_class = [], mp_allowed = [], mp_shared = True, mp_local = [], mp_locks = []\<rparr>,
      \<lparr>lru_max = 1, lru_entries = []\<rparr>, 0)\<rparr>"

theorem speech_service_matches_pipeline_witness:
  "speech_generate plain_loudness [(''vllm-omni'', speech_strategy)] Map.empty sample_speech speech_world =
    (case run_loop (\<lambda>_. False) (build_synthesis_request ''m'' sample_vc ''amy'' ''wav'') (vllm_synth silent_vllm) Map.empty 0
        [ustr ''a'', ustr ''b''] (wd_engine speech_world) of
       (r, g) \<Rightarrow> (bindE r (\<lambda>wavs. bindE (res_map (\<lambda>wav. normalize_wav_rms plain_loudness wav (Fin (-20))) wavs) concat_wav_bytes),
         speech_world\<lparr>wd_engine := g\<rparr>))"
  using speech_service_matches_pipeline [where registry = "[(''vllm-omni'', speech_strategy)]" and rs = sample_speech
      and w = speech_world and D = plain_loudness and hf = Map.empty and strategy = speech_strategy and vlib = silent_vllm and mlib = sample_mlx
      and mload = "\<lambda>_. ImportFails"]
  by (simp add: registry_get_def speech_strategy_def sample_speech_def speech_world_def engine_inv_def cache_inv_def)

text \<open>
  What the resolver accepts. A resolved request names one of the three providers and a model on its list, a
  configured voice whose reference audio is there, the only format, and a nonempty list of chunks with every visible
  character of the normalised text, in order.
\<close>

theorem resolve_speech_sound:
  assumes "resolve_speech U N s hf req = Inr rs"
  shows "rs_provider rs \<in> {''mlx_audio'', ''voxtral'', ''vllm-omni''} \<and>
    rs_model_name rs \<in> set (model_allowed_for s (rs_provider rs)) \<and>
    map_of (tts_voice_map s) (sp_voice req) = Some (rs_voice rs) \<and>
    (vc_ref_audio_path (rs_voice rs) = [] \<or> (\<exists>b. hf (vc_ref_audio_path (rs_voice rs)) = Some b)) \<and>
    rs_response_format rs = ''wav'' \<and> rs_chunks rs \<noteq> [] \<and>
    (\<exists>plain. preprocess_for_tts U N (sp_input req)
        (if vc_number_lang (rs_voice rs) = [] then vc_language (rs_voice rs) else vc_number_lang (rs_voice rs)) = Inr plain \<and>
      concat (map nonspace (rs_chunks rs)) = nonspace plain)"
proof -
  from assms obtain model provider v fmt chunks where r: "resolve_target s req = Inr (model, provider)"
    "ensure_model_allowed s model provider = Inr ()" "resolve_configured_voice s hf (sp_voice req) = Inr v"
    "resolve_response_format (sp_response_format req) = Inr fmt" "prepare_speech_chunks U N s (sp_input req) v = Inr chunks"
    and rs: "rs_provider rs = provider" "rs_model_name rs = model" "rs_voice rs = v" "rs_response_format rs = fmt" "rs_chunks rs = chunks"
    by (auto simp: resolve_speech_def bindE_Inr_iff)
  from r(1) have "provider \<in> {''mlx_audio'', ''voxtral'', ''vllm-omni''}"
    by (auto simp: resolve_target_def resolve_tts_target_def Let_def split: sum.splits py_exc.splits if_splits)
  moreover from r(2) have "model \<in> set (model_allowed_for s provider)"
    by (simp add: ensure_model_allowed_def is_allowed_tts_model_def split: if_splits)
  moreover from r(3) have "map_of (tts_voice_map s) (sp_voice req) = Some v"
    "vc_ref_audio_path v = [] \<or> (\<exists>b. hf (vc_ref_audio_path v) = Some b)"
    by (auto simp: resolve_configured_voice_def split: option.splits if_splits)
  moreover from r(4) have "fmt = ''wav''" by (simp add: resolve_response_format_def Let_def split: if_splits)
  moreover from r(5) have "chunks \<noteq> []" "\<exists>plain. preprocess_for_tts U N (sp_input req)
      (if vc_number_lang v = [] then vc_language v else vc_number_lang v) = Inr plain \<and> concat (map nonspace chunks) = nonspace plain"
    by (auto simp: prepare_speech_chunks_def bindE_Inr_iff split_text_semantic_content split: if_splits)
  ultimately show ?thesis unfolding rs by blast
qed

text \<open>
  The service leaves nothing behind. Whatever it answers, the permit of the queue is back; an error leaves no file; a
  response carries exactly the audio that was generated, and once it is sent its file is gone.
\<close>

theorem speech_service_restores:
  assumes "service_create_speech U N D s registry hf tmp req stream w = (res, w')"
    and "\<forall>p. tmp = TmpFile p \<longrightarrow> p \<notin> fst ` set (wd_tmp w)" "\<forall>p e. tmp \<noteq> TmpWriteFails p e"
  shows "wd_queue w' = wd_queue w \<and>
    (case res of
       Inl e \<Rightarrow> wd_tmp w' = wd_tmp w
     | Inr response \<Rightarrow> \<exists>rs wav w1 w2. resolve_speech U N s hf req = Inr rs \<and> speech_generate D registry hf rs w = (Inr wav, w1) \<and>
         send_speech_response response w' = (Some wav, w2) \<and> wd_tmp w2 = wd_tmp w \<and> wd_queue w2 = wd_queue w)"
proof (cases "resolve_speech U N s hf req")
  case (Inl e)
  with assms show ?thesis by (auto simp: service_create_speech_def)
next
  case (Inr rs)
  obtain r w1 where g: "speech_generate D registry hf rs w = (r, w1)" by fastforce
  then have frame: "wd_queue w1 = wd_queue w" "wd_tmp w1 = wd_tmp w"
    by (auto simp: speech_generate_def Let_def world_ops split: if_splits sum.splits prod.splits)
  show ?thesis
  proof (cases r)
    case (Inl e)
    with assms(1) Inr g frame show ?thesis by (auto simp: service_create_speech_def)
  next
    case (Inr wav)
    with assms \<open>resolve_speech U N s hf req = Inr rs\<close> g frame show ?thesis
      by (cases tmp; cases stream)
        (auto simp: service_create_speech_def build_speech_response_def remove_tmp_def delete_idem)
  qed
qed

definition speech_settings :: settings where
  "speech_settings = default_settings\<lparr>tts_voice_map := [(''mario'', sample_vc)], mlx_allowed := [''m'']\<rparr>"

definition sample_speech_request :: speech_request where
  "sample_speech_request = \<lparr>sp_model = ''m'', sp_input = ustr ''ciao'', sp_voice = ''mario'', sp_provider = None,
     sp_response_format = ''wav'', sp_instructions = None, sp_speed = None, sp_stream_format = None, sp_normalize_db = None\<rparr>"

definition sample_resolved :: resolved_speech where
  "sample_resolved = \<lparr>rs_model_name = ''m'', rs_provider = ''mlx_audio'', rs_voice_name = ''mario'', rs_voice = sample_vc,
     rs_response_format = ''wav'', rs_chunks = [ustr ''ciao''], rs_normalize_db = vc_target_db sample_vc\<rparr>"

lemma sample_speech_resolves:
  "resolve_speech ascii_unidata None speech_settings (\<lambda>_. Some [7, 7]) sample_speech_request = Inr sample_resolved"
proof -
  have mx: "vc_max_sentences sample_vc = 2"
    by (simp add: sample_vc_def build_voice_config_def sample_voice_def sample_config_def dflt_def Let_def)
  have "prepare_speech_chunks ascii_unidata None speech_settings (ustr ''ciao'') sample_vc = Inr [ustr ''ciao'']"
    by (simp add: prepare_speech_chunks_def mx speech_settings_def preprocess_no_digits ascii_unidata_def isd_def ustr_def
        clean_punctuation_def is_dot_def is_mark_def tstrip_def strip_by_def space_cp_def Let_def split_text_semantic_def
        split_sentences_def paragraph_sentences_def sentence_end_def flush_def default_settings_def)
  moreover have "resolve_response_format ''wav'' = Inr ''wav''"
  proof -
    have "lower ''wav'' = ''wav''" by (rule lower_id) (simp add: lower_cp_def)
    then show ?thesis by (simp add: resolve_response_format_def)
  qed
  moreover have "resolve_target speech_settings sample_speech_request = Inr (''m'', ''mlx_audio'')"
    by (simp add: resolve_target_def resolve_tts_target_def resolve_tts_model_def sample_speech_request_def speech_settings_def
        default_settings_def)
  moreover have "ensure_model_allowed speech_settings ''m'' ''mlx_audio'' = Inr ()"
    by (simp add: ensure_model_allowed_def is_allowed_tts_model_def speech_settings_def model_allowed_for_def default_settings_def)
  moreover have "resolve_configured_voice speech_settings (\<lambda>_. Some [7, 7]) ''mario'' = Inr sample_vc"
    by (simp add: resolve_configured_voice_def speech_settings_def)
  moreover have "ensure_input_present (ustr ''ciao'') = Inr ()"
    by (simp add: ensure_input_present_def ustr_def tstrip_def strip_by_def space_cp_def)
  ultimately show ?thesis
    by (simp add: resolve_speech_def sample_resolved_def dflt_def) (simp add: sample_speech_request_def)
qed

theorem resolve_speech_sound_witness:
  "map_of (tts_voice_map speech_settings) ''mario'' = Some sample_vc \<and> ''m'' \<in> set (model_allowed_for speech_settings ''mlx_audio'')"
  using resolve_speech_sound [OF sample_speech_resolves] by (simp add: sample_resolved_def sample_speech_request_def)

definition engine_strategy :: "nat synth tts_provider_strategy" where
  "engine_strategy = \<lparr>pv_name = ''mlx_audio'', pv_devices = [''mps''], pv_impl = sample_engine\<rparr>"

theorem speech_service_restores_witness:
  "\<exists>res w'. service_create_speech ascii_unidata None plain_loudness speech_settings [(''mlx_audio'', engine_strategy)]
       (\<lambda>_. Some [7, 7]) (TmpFile ''/tmp/x.wav'') sample_speech_request False sample_world = (res, w') \<and>
     wd_queue w' = 2 \<and> res = Inr (SpeechFile ''/tmp/x.wav'')"
proof -
  have n: "normalize_wav_rms plain_loudness sample_pcm (vc_target_db sample_vc) = Inr sample_pcm"
    using sample_normalize by blast
  obtain res w' where run: "service_create_speech ascii_unidata None plain_loudness speech_settings [(''mlx_audio'', engine_strategy)]
       (\<lambda>_. Some [7, 7]) (TmpFile ''/tmp/x.wav'') sample_speech_request False sample_world = (res, w')" by fastforce
  then have "res = Inr (SpeechFile ''/tmp/x.wav'')" using n
    by (auto simp: service_create_speech_def sample_speech_resolves speech_generate_def sample_resolved_def registry_get_def
        engine_strategy_def sample_engine_def sample_world_def world_ops build_speech_response_def concat_wav_bytes_def)
  moreover have "wd_queue w' = wd_queue sample_world"
    using speech_service_restores [OF run] by (simp add: sample_world_def)
  ultimately show ?thesis using run by (auto simp: sample_world_def)
qed

end
