(* ===== verification/Logging.thy ===== *)
theory Logging
  imports VoiceRecords
begin

text \<open>
  \<open>app_logging.py\<close> on the loggers of the standard library: the filter that attaches the request id, the JSON
  formatter, and \<open>setup_logging\<close>. A JSON line is given by the object that \<open>json.dumps\<close> writes; the text of an
  exception and the time of a record are parts of the record.
\<close>

subsection \<open>Levels\<close>

datatype log_level = NotSet | Debug | Info | Warning | Error | Critical

fun level_no :: "log_level \<Rightarrow> nat" where
  "level_no NotSet = 0"
| "level_no Debug = 10"
| "level_no Info = 20"
| "level_no Warning = 30"
| "level_no Error = 40"
| "level_no Critical = 50"

text \<open>\<open>logging.getLevelName\<close>\<close>

fun level_name :: "log_level \<Rightarrow> string" where
  "level_name NotSet = ''NOTSET''"
| "level_name Debug = ''DEBUG''"
| "level_name Info = ''INFO''"
| "level_name Warning = ''WARNING''"
| "level_name Error = ''ERROR''"
| "level_name Critical = ''CRITICAL''"

lemma level_no_inj: "level_no a = level_no b \<Longrightarrow> a = b"
  by (cases a; cases b) auto

instantiation log_level :: linorder
begin

definition less_eq_log_level :: "log_level \<Rightarrow> log_level \<Rightarrow> bool" where
  "less_eq_log_level a b \<longleftrightarrow> level_no a \<le> level_no b"

definition less_log_level :: "log_level \<Rightarrow> log_level \<Rightarrow> bool" where
  "less_log_level a b \<longleftrightarrow> level_no a < level_no b"

instance
  by standard (auto simp: less_eq_log_level_def less_log_level_def intro: level_no_inj)

end

text \<open>\<open>str.upper\<close>; sharp s, micro and y with diaeresis, whose capitals are no Latin-1 letters, stay as they are.\<close>

definition upper_cp :: "nat \<Rightarrow> nat" where
  "upper_cp n = (if (97 \<le> n \<and> n \<le> 122) \<or> (224 \<le> n \<and> n \<le> 254 \<and> n \<noteq> 247) then n - 32 else n)"

definition upper :: "string \<Rightarrow> string" where
  "upper = map (\<lambda>c. char_of (upper_cp (of_char c)))"

text \<open>
  The level named by a setting: an attribute of the module \<open>logging\<close>, and INFO if it has none of that name. Two
  attributes in capitals are no levels; \<open>setLevel\<close> rejects them.
\<close>

definition level_attributes :: "(string \<times> log_level) list" where
  "level_attributes = [(''CRITICAL'', Critical), (''FATAL'', Critical), (''ERROR'', Error), (''WARNING'', Warning),
     (''WARN'', Warning), (''INFO'', Info), (''DEBUG'', Debug), (''NOTSET'', NotSet)]"

definition level_of_name :: "string \<Rightarrow> log_level res" where
  "level_of_name s =
     (let n = upper (if s = [] then ''INFO'' else s) in
      if n = ''BASIC_FORMAT'' then Inl (ValueErr (''Unknown level: '' @ quoted ''%(levelname)s:%(name)s:%(message)s''))
      else if n = ''_STYLES'' then Inl (TypeErr ''Level not an integer or a valid string'')
      else Inr (case map_of level_attributes n of None \<Rightarrow> Info | Some l \<Rightarrow> l))"

subsection \<open>Loggers\<close>

datatype log_formatter = TextFormat | JsonFormat | ForeignFormat

record log_handler =
  lh_level :: log_level
  lh_formatter :: log_formatter
  lh_request_id :: bool

record logger =
  lg_level :: log_level
  lg_handlers :: "log_handler list"
  lg_propagate :: bool

record logging_state =
  root_logger :: logger
  named_loggers :: "(string \<times> logger) list"

definition fresh_logger :: logger where
  "fresh_logger = \<lparr>lg_level = NotSet, lg_handlers = [], lg_propagate = True\<rparr>"

definition get_logger :: "logging_state \<Rightarrow> string \<Rightarrow> logger" where
  "get_logger st n = (case map_of (named_loggers st) n of None \<Rightarrow> fresh_logger | Some l \<Rightarrow> l)"

text \<open>A logger and those above it, without the root.\<close>

fun inits :: "'a list \<Rightarrow> 'a list list" where
  "inits [] = []"
| "inits (x # xs) = map ((#) x) (inits xs) @ [[x]]"

definition ancestors :: "string \<Rightarrow> string list" where
  "ancestors n = map (join ''.'') (inits (split_on (CHR ''.'') n))"

fun effective_level :: "logging_state \<Rightarrow> string list \<Rightarrow> log_level" where
  "effective_level st [] = lg_level (root_logger st)"
| "effective_level st (n # ns) =
     (if lg_level (get_logger st n) = NotSet then effective_level st ns else lg_level (get_logger st n))"

fun handlers_reached :: "logging_state \<Rightarrow> string list \<Rightarrow> log_handler list" where
  "handlers_reached st [] = lg_handlers (root_logger st)"
| "handlers_reached st (n # ns) =
     lg_handlers (get_logger st n) @ (if lg_propagate (get_logger st n) then handlers_reached st ns else [])"

text \<open>The handlers that write a record of level \<open>l\<close> logged under the name \<open>n\<close>.\<close>

definition emitted_by :: "logging_state \<Rightarrow> string \<Rightarrow> log_level \<Rightarrow> log_handler list" where
  "emitted_by st n l =
     (if effective_level st (ancestors n) \<le> l then filter (\<lambda>h. lh_level h \<le> l) (handlers_reached st (ancestors n)) else [])"

subsection \<open>Set-up\<close>

definition managed_loggers :: "string list" where
  "managed_loggers = [''uvicorn'', ''uvicorn.error'', ''uvicorn.access'', ''llm_tts_api'']"

definition select_format :: "(string \<Rightarrow> string option) \<Rightarrow> string option \<Rightarrow> log_formatter" where
  "select_format env log_format =
     (let chosen = (case log_format of Some f \<Rightarrow> if f = [] then None else Some f | None \<Rightarrow> None);
          f = (case chosen of Some f \<Rightarrow> f | None \<Rightarrow> (case env ''APP_LOG_FORMAT'' of None \<Rightarrow> ''text'' | Some x \<Rightarrow> x))
      in if lower (strip f) = ''json'' then JsonFormat else TextFormat)"

definition adopt_logger :: "log_level \<Rightarrow> string \<Rightarrow> logging_state \<Rightarrow> logging_state" where
  "adopt_logger l n st = st\<lparr>named_loggers :=
     AList.update n ((get_logger st n)\<lparr>lg_level := l, lg_handlers := [], lg_propagate := True\<rparr>) (named_loggers st)\<rparr>"

definition setup_logging :: "(string \<Rightarrow> string option) \<Rightarrow> string \<Rightarrow> string option \<Rightarrow> logging_state \<Rightarrow> string res \<times> logging_state" where
  "setup_logging env name log_format st = (case level_of_name name of
       Inl e \<Rightarrow> (Inl e, st)
     | Inr l \<Rightarrow>
         (let handler = \<lparr>lh_level = l, lh_formatter = select_format env log_format, lh_request_id = True\<rparr>;
              st1 = st\<lparr>root_logger := (root_logger st)\<lparr>lg_level := l, lg_handlers := [handler]\<rparr>\<rparr>
          in (Inr (level_name l), fold (adopt_logger l) managed_loggers st1)))"

subsection \<open>One line of JSON\<close>

record log_record =
  lr_created :: datetime
  lr_level :: string
  lr_name :: string
  lr_message :: string
  lr_request_id :: "string option"
  lr_dict :: "(string \<times> json) list"
  lr_exc :: "string option"

definition sample_instant :: datetime where
  "sample_instant = \<lparr>dt_year = 2026, dt_month = 5, dt_day = 17, dt_hour = 15, dt_minute = 35, dt_second = 55, dt_micro = 0,
     dt_offset = Some 0\<rparr>"

definition request_id_filter :: "string \<Rightarrow> log_record \<Rightarrow> log_record" where
  "request_id_filter rid r = r\<lparr>lr_request_id := Some (if rid = [] then ''-'' else rid)\<rparr>"

definition reserved_attributes :: "string list" where
  "reserved_attributes = [''args'', ''asctime'', ''created'', ''exc_info'', ''exc_text'', ''filename'', ''funcName'', ''levelname'',
     ''levelno'', ''lineno'', ''message'', ''module'', ''msecs'', ''msg'', ''name'', ''pathname'', ''process'', ''processName'',
     ''relativeCreated'', ''stack_info'', ''thread'', ''threadName'', ''taskName'', ''request_id'']"

definition log_extras :: "log_record \<Rightarrow> (string \<times> json) list" where
  "log_extras r = filter (\<lambda>kv. fst kv \<notin> set reserved_attributes \<and> take 1 (fst kv) \<noteq> ''_'') (lr_dict r)"

definition standard_fields :: "log_record \<Rightarrow> (string \<times> json) list" where
  "standard_fields r = [(''ts'', JStr (isoformat (lr_created r))), (''level'', JStr (lr_level r)), (''logger'', JStr (lr_name r)),
     (''request_id'', JStr (case lr_request_id r of Some x \<Rightarrow> x | None \<Rightarrow> ''-'')), (''message'', JStr (lr_message r))]"

definition json_format :: "log_record \<Rightarrow> (string \<times> json) list" where
  "json_format r = dict_merge (dict_merge (standard_fields r) (log_extras r))
     (case lr_exc r of None \<Rightarrow> [] | Some t \<Rightarrow> [(''exc_info'', JStr t)])"

subsection \<open>Properties\<close>

lemma get_logger_adopt:
  "get_logger (adopt_logger l n st) m = (if m = n then (get_logger st n)\<lparr>lg_level := l, lg_handlers := [], lg_propagate := True\<rparr>
     else get_logger st m)"
  by (simp add: get_logger_def adopt_logger_def update_conv')

lemma root_adopt [simp]: "root_logger (adopt_logger l n st) = root_logger st"
  by (simp add: adopt_logger_def)

lemma root_adopt_all [simp]: "root_logger (fold (adopt_logger l) ns st) = root_logger st"
  by (induction ns arbitrary: st) simp_all

lemma get_logger_adopt_all:
  "get_logger (fold (adopt_logger l) ns st) m =
     (if m \<in> set ns then (get_logger st m)\<lparr>lg_level := l, lg_handlers := [], lg_propagate := True\<rparr> else get_logger st m)"
  by (induction ns arbitrary: st) (auto simp: get_logger_adopt)

lemma get_logger_root [simp]: "get_logger (st\<lparr>root_logger := x\<rparr>) m = get_logger st m"
  by (simp add: get_logger_def)

lemma map_of_filter_keys: "map_of (filter (\<lambda>kv. P (fst kv)) al) k = (if P k then map_of al k else None)"
  by (induction al) auto

lemma setup_logging_state:
  assumes "setup_logging env name log_format st = (Inr s, st')"
  obtains l where "level_of_name name = Inr l" "s = level_name l"
    "root_logger st' = (root_logger st)\<lparr>lg_level := l,
       lg_handlers := [\<lparr>lh_level = l, lh_formatter = select_format env log_format, lh_request_id = True\<rparr>]\<rparr>"
    "\<And>m. get_logger st' m = (if m \<in> set managed_loggers
       then (get_logger st m)\<lparr>lg_level := l, lg_handlers := [], lg_propagate := True\<rparr> else get_logger st m)"
  using assms by (auto simp: setup_logging_def Let_def get_logger_adopt_all split: sum.splits)

lemma quiet_ancestors:
  assumes "\<And>m. m \<in> set ns \<Longrightarrow> lg_handlers (get_logger st m) = [] \<and> lg_propagate (get_logger st m) \<and>
      lg_level (get_logger st m) \<in> {NotSet, lg_level (root_logger st)}"
  shows "handlers_reached st ns = lg_handlers (root_logger st) \<and> effective_level st ns = lg_level (root_logger st)"
  using assms by (induction ns) auto

lemma level_name_inj: "level_name a = level_name b \<Longrightarrow> a = b"
  by (cases a; cases b) auto

text \<open>
  After the set-up a record is written once. Whatever handlers the loggers had, a record logged under the name of a
  managed logger, or of one below them or elsewhere that nobody has configured, is written by a single handler, the
  one with the request id, if its level is at least the configured one, and by none otherwise; the level returned names
  it.
\<close>

theorem logging_emits_once:
  assumes "setup_logging env name log_format st = (Inr s, st')"
    and "\<forall>m\<in>set (ancestors n). m \<in> set managed_loggers \<or> get_logger st m = fresh_logger"
  shows "\<exists>l. level_of_name name = Inr l \<and> s = level_name l \<and> (\<forall>lv. emitted_by st' n lv =
    (if l \<le> lv then [\<lparr>lh_level = l, lh_formatter = select_format env log_format, lh_request_id = True\<rparr>] else []))"
  using assms(1)
proof (rule setup_logging_state)
  fix l
  assume l: "level_of_name name = Inr l" "s = level_name l"
    and root: "root_logger st' = (root_logger st)\<lparr>lg_level := l,
      lg_handlers := [\<lparr>lh_level = l, lh_formatter = select_format env log_format, lh_request_id = True\<rparr>]\<rparr>"
    and named: "\<And>m. get_logger st' m = (if m \<in> set managed_loggers
       then (get_logger st m)\<lparr>lg_level := l, lg_handlers := [], lg_propagate := True\<rparr> else get_logger st m)"
  have "handlers_reached st' (ancestors n) = lg_handlers (root_logger st') \<and>
      effective_level st' (ancestors n) = lg_level (root_logger st')"
    by (rule quiet_ancestors) (use assms(2) in \<open>auto simp: named root fresh_logger_def\<close>)
  then have "emitted_by st' n lv =
      (if l \<le> lv then [\<lparr>lh_level = l, lh_formatter = select_format env log_format, lh_request_id = True\<rparr>] else [])" for lv
    by (simp add: emitted_by_def root)
  with l show ?thesis by blast
qed

theorem logging_emits_once_witness:
  "emitted_by (snd (setup_logging (\<lambda>_. Some ''json'') ''warning'' None
      \<lparr>root_logger = fresh_logger\<lparr>lg_handlers := [\<lparr>lh_level = Debug, lh_formatter = ForeignFormat, lh_request_id = False\<rparr>]\<rparr>,
       named_loggers = [(''uvicorn'', \<lparr>lg_level = Debug, lg_handlers = [\<lparr>lh_level = Debug, lh_formatter = ForeignFormat,
         lh_request_id = False\<rparr>], lg_propagate = False\<rparr>)]\<rparr>)) ''uvicorn.error'' Error =
     [\<lparr>lh_level = Warning, lh_formatter = JsonFormat, lh_request_id = True\<rparr>]"
proof -
  let ?st = "\<lparr>root_logger = fresh_logger\<lparr>lg_handlers := [\<lparr>lh_level = Debug, lh_formatter = ForeignFormat, lh_request_id = False\<rparr>]\<rparr>,
       named_loggers = [(''uvicorn'', \<lparr>lg_level = Debug, lg_handlers = [\<lparr>lh_level = Debug, lh_formatter = ForeignFormat,
         lh_request_id = False\<rparr>], lg_propagate = False\<rparr>)]\<rparr>"
  have lv: "level_of_name ''warning'' = Inr Warning"
    by (simp add: level_of_name_def upper_def upper_cp_def level_attributes_def char_of_eq_iff take_bit_eq_mod)
  then obtain s st' where run: "setup_logging (\<lambda>_. Some ''json'') ''warning'' None ?st = (Inr s, st')"
    by (auto simp: setup_logging_def Let_def)
  have "lower ''json'' = ''json''" by (rule lower_id) (simp add: lower_cp_def)
  then have "select_format (\<lambda>_. Some ''json'') None = JsonFormat"
    by (simp add: select_format_def strip_def strip_by_def is_space_def space_cp_def)
  moreover have "\<forall>m\<in>set (ancestors ''uvicorn.error''). m \<in> set managed_loggers \<or> get_logger ?st m = fresh_logger"
    by (simp add: ancestors_def managed_loggers_def)
  ultimately show ?thesis
    using logging_emits_once [OF run, of "''uvicorn.error''"] run lv
    by (simp add: less_eq_log_level_def)
qed

text \<open>Setting up again changes nothing.\<close>

lemma setup_logging_again:
  assumes "setup_logging env name log_format st = (Inr s, st')" "setup_logging env name log_format st' = (r, st'')"
  shows "r = Inr s \<and> root_logger st'' = root_logger st' \<and> get_logger st'' m = get_logger st' m"
  using assms(1)
proof (rule setup_logging_state)
  fix l
  assume l: "level_of_name name = Inr l" "s = level_name l"
    and root: "root_logger st' = (root_logger st)\<lparr>lg_level := l,
      lg_handlers := [\<lparr>lh_level = l, lh_formatter = select_format env log_format, lh_request_id = True\<rparr>]\<rparr>"
    and named: "\<And>m. get_logger st' m = (if m \<in> set managed_loggers
       then (get_logger st m)\<lparr>lg_level := l, lg_handlers := [], lg_propagate := True\<rparr> else get_logger st m)"
  from l assms(2) have r: "setup_logging env name log_format st' = (Inr s, st'')" "r = Inr s"
    by (auto simp: setup_logging_def Let_def)
  from r(1) show ?thesis
    by (rule setup_logging_state) (use l root named r(2) in auto)
qed

text \<open>
  A line of JSON. The message and the request id are the record's own, whatever extras it carries; an exception is
  there under \<open>exc_info\<close>; and an extra named \<open>ts\<close>, \<open>level\<close> or \<open>logger\<close> takes the place of that field, which
  without one is the record's.
\<close>

theorem json_log_fields:
  assumes "distinct (map fst (lr_dict r))"
  shows "map_of (json_format r) ''message'' = Some (JStr (lr_message r)) \<and>
    map_of (json_format (request_id_filter rid r)) ''request_id'' = Some (JStr (if rid = [] then ''-'' else rid)) \<and>
    (\<forall>k\<in>{''ts'', ''level'', ''logger''}. map_of (json_format r) k =
       (case map_of (lr_dict r) k of Some v \<Rightarrow> Some v | None \<Rightarrow> map_of (standard_fields r) k)) \<and>
    (lr_exc r = None \<or> map_of (json_format r) ''exc_info'' = map_option JStr (lr_exc r))"
proof -
  have d: "distinct (map fst (log_extras r))" if "distinct (map fst (lr_dict r))" for r
    using that by (simp add: log_extras_def distinct_map_filter)
  have look: "map_of (json_format r) k = (map_of (standard_fields r) ++ map_of (log_extras r)) k"
    if "k \<noteq> ''exc_info''" "distinct (map fst (lr_dict r))" for r k
    using that by (auto simp: json_format_def map_of_dict_merge_distinct [OF d] map_of_dict_merge_old split: option.splits)
  have extra: "map_of (log_extras r) k = (if k \<notin> set reserved_attributes \<and> take 1 k \<noteq> ''_'' then map_of (lr_dict r) k else None)"
    for r k
    unfolding log_extras_def by (rule map_of_filter_keys)
  have f: "distinct (map fst (lr_dict (request_id_filter rid r)))" using assms by (simp add: request_id_filter_def)
  have exc: "lr_exc r = None \<or> map_of (json_format r) ''exc_info'' = map_option JStr (lr_exc r)"
    by (cases "lr_exc r") (simp_all add: json_format_def map_of_dict_merge_distinct)
  have m: "map_of (json_format r) ''message'' = Some (JStr (lr_message r))"
    using look [OF _ assms, of "''message''"] by (simp add: extra map_add_def reserved_attributes_def standard_fields_def)
  have i: "map_of (json_format (request_id_filter rid r)) ''request_id'' = Some (JStr (if rid = [] then ''-'' else rid))"
    using look [OF _ f, of "''request_id''"]
    by (simp add: extra map_add_def reserved_attributes_def standard_fields_def) (simp add: request_id_filter_def)
  have t: "map_of (json_format r) k = (case map_of (lr_dict r) k of Some v \<Rightarrow> Some v | None \<Rightarrow> map_of (standard_fields r) k)"
    if "k \<in> {''ts'', ''level'', ''logger''}" for k
  proof -
    from that have "k \<noteq> ''exc_info''" "k \<notin> set reserved_attributes" "take 1 k \<noteq> ''_''" by (auto simp: reserved_attributes_def)
    with look [OF this(1) assms] show ?thesis by (auto simp: extra map_add_def split: option.splits)
  qed
  from exc m i t show ?thesis by blast
qed

text \<open>The level of this line is the one of the extra.\<close>

theorem json_log_fields_witness:
  "map_of (json_format \<lparr>lr_created = sample_instant, lr_level = ''INFO'', lr_name = ''llm_tts_api'', lr_message = ''started'',
      lr_request_id = None, lr_dict = [(''level'', JStr ''trace'')], lr_exc = None\<rparr>) ''level'' = Some (JStr ''trace'')"
  using json_log_fields [where r = "\<lparr>lr_created = sample_instant, lr_level = ''INFO'', lr_name = ''llm_tts_api'',
      lr_message = ''started'', lr_request_id = None, lr_dict = [(''level'', JStr ''trace'')], lr_exc = None\<rparr>"]
  by simp

end
