(* ===== verification/StubEndpoints.thy ===== *)
theory StubEndpoints
  imports Providers
begin

text \<open>
  The endpoints that only hold the shape of OpenAI's API: \<open>routers/chat.py\<close>, \<open>routers/realtime.py\<close>, the placeholders of
  \<open>routers/audio.py\<close> with \<open>stt_service.py\<close>, as a method, a path template and what the handler does; and the list of models
  (\<open>routers/models.py\<close>).
\<close>

type_synonym stub = "string \<times> string \<times> unit res"

definition chat_routes :: "stub list" where
  "chat_routes = map (\<lambda>(m, path, r). (m, ''/v1/chat'' @ path, r))
     [(''POST'', ''/completions'', raise_not_implemented ''/v1/chat/completions''),
      (''GET'', ''/completions'', raise_not_implemented ''/v1/chat/completions''),
      (''GET'', ''/completions/{completion_id}'', raise_not_implemented ''/v1/chat/completions/{completion_id}''),
      (''POST'', ''/completions/{completion_id}'', raise_not_implemented ''/v1/chat/completions/{completion_id}''),
      (''DELETE'', ''/completions/{completion_id}'', raise_not_implemented ''/v1/chat/completions/{completion_id}''),
      (''GET'', ''/completions/{completion_id}/messages'', raise_not_implemented ''/v1/chat/completions/{completion_id}/messages'')]"

definition realtime_routes :: "stub list" where
  "realtime_routes = map (\<lambda>(m, path, r). (m, ''/v1/realtime'' @ path, r))
     [(''POST'', ''/client_secrets'', raise_not_implemented ''/v1/realtime/client_secrets''),
      (''POST'', ''/calls/{call_id}/accept'', raise_not_implemented ''/v1/realtime/calls/{call_id}/accept''),
      (''POST'', ''/calls/{call_id}/hangup'', raise_not_implemented ''/v1/realtime/calls/{call_id}/hangup''),
      (''POST'', ''/calls/{call_id}/refer'', raise_not_implemented ''/v1/realtime/calls/{call_id}/refer''),
      (''POST'', ''/calls/{call_id}/reject'', raise_not_implemented ''/v1/realtime/calls/{call_id}/reject''),
      (''POST'', ''/sessions'', raise_not_implemented ''/v1/realtime/sessions''),
      (''POST'', ''/transcription_sessions'', raise_not_implemented ''/v1/realtime/transcription_sessions'')]"

definition stt_create_transcription :: "unit res" where
  "stt_create_transcription = Inl (not_implemented (''Endpoint '' @ quoted ''/v1/audio/transcriptions'' @ '' is not implemented yet''))"

definition stt_create_translation :: "unit res" where
  "stt_create_translation = Inl (not_implemented (''Endpoint '' @ quoted ''/v1/audio/translations'' @ '' is not implemented yet''))"

definition audio_stub_routes :: "stub list" where
  "audio_stub_routes = map (\<lambda>(m, path, r). (m, ''/v1/audio'' @ path, r))
     [(''POST'', ''/transcriptions'', stt_create_transcription),
      (''POST'', ''/translations'', stt_create_translation),
      (''POST'', ''/voices'', raise_not_implemented ''/v1/audio/voices''),
      (''GET'', ''/voice_consents'', raise_not_implemented ''/v1/audio/voice_consents''),
      (''POST'', ''/voice_consents'', raise_not_implemented ''/v1/audio/voice_consents''),
      (''GET'', ''/voice_consents/{consent_id}'', raise_not_implemented ''/v1/audio/voice_consents/{consent_id}''),
      (''POST'', ''/voice_consents/{consent_id}'', raise_not_implemented ''/v1/audio/voice_consents/{consent_id}''),
      (''DELETE'', ''/voice_consents/{consent_id}'', raise_not_implemented ''/v1/audio/voice_consents/{consent_id}'')]"

definition stub_routes :: "stub list" where
  "stub_routes = audio_stub_routes @ chat_routes @ realtime_routes"

text \<open>\<open>GET /v1/models\<close>\<close>

definition model_object :: "string \<Rightarrow> json" where
  "model_object model = JObj [(''id'', JStr model), (''object'', JStr ''model''), (''created'', JInt 0), (''owned_by'', JStr ''llm-tts-api'')]"

definition models_endpoint :: "settings \<Rightarrow> json" where
  "models_endpoint s = JObj [(''object'', JStr ''list''), (''data'', JList (map model_object (list_models s)))]"

subsection \<open>Properties\<close>

lemma set_dedup_first [simp]: "set (dedup_first xs) = set xs"
  by (simp add: dedup_first_def)

lemma distinct_dedup_first [simp]: "distinct (dedup_first xs)"
  by (simp add: dedup_first_def)

definition not_implemented_at :: "string \<Rightarrow> py_exc" where
  "not_implemented_at path = HTTPErr 501 \<lparr>oe_message = ''Endpoint '' @ quoted path @ '' is not implemented yet'',
     oe_type = ValidationError, oe_code = ''not_implemented'', oe_param = None\<rparr>"

lemma stub_value:
  "raise_not_implemented path = (Inl (not_implemented_at path) :: unit res)"
  "stt_create_transcription = Inl (not_implemented_at ''/v1/audio/transcriptions'')"
  "stt_create_translation = Inl (not_implemented_at ''/v1/audio/translations'')"
  by (simp_all add: raise_not_implemented_def stt_create_transcription_def stt_create_translation_def not_implemented_at_def
      not_implemented_def make_err_def)

text \<open>
  No stub claims another's place: the routes are distinct, and each raises the 501 \<open>not_implemented\<close> that names the very path
  it is mounted at.
\<close>

theorem stubs_name_their_path:
  "distinct (map (\<lambda>(m, path, r). (m, path)) stub_routes) \<and> (\<forall>(m, path, r)\<in>set stub_routes. r = Inl (not_implemented_at path))"
  by (simp add: stub_routes_def audio_stub_routes_def chat_routes_def realtime_routes_def stub_value)

theorem stubs_name_their_path_witness:
  "(''GET'', ''/v1/chat/completions'', Inl (not_implemented_at ''/v1/chat/completions'')) \<in> set stub_routes"
proof -
  obtain r where r: "(''GET'', ''/v1/chat/completions'', r) \<in> set stub_routes"
    by (auto simp: stub_routes_def chat_routes_def)
  with stubs_name_their_path have "r = Inl (not_implemented_at ''/v1/chat/completions'')" by blast
  with r show ?thesis by simp
qed

end
