(* ===== verification/Service.thy ===== *)
theory Service
  imports AudioAdapter RequestIds Lifecycle StubEndpoints VoicesRouter
begin

text \<open>
  The application that \<open>create_app\<close> of \<open>main.py\<close> puts together: its endpoints with the dependencies they get, the
  request-id middleware and the exception handlers around them, and beside the requests the two watchers. A request comes
  here routed and parsed; what FastAPI refuses by itself (no route, a wrong method, an invalid body) comes with
  the exception it raises. Starlette runs the handler of \<open>Exception\<close> outside of the middleware the application
  adds, and the other handlers inside.
\<close>

subsection \<open>State and requests\<close>

text \<open>What stays for the life of the process, and what changes: the slots of \<open>app.state\<close>.\<close>

record ('s, 'b, 'w) service =
  sv_app :: "('s, 'b, 'w) app"
  sv_pydantic :: pydantic
  sv_schema :: schema_lib
  sv_sha256 :: "bytes \<Rightarrow> string"
  sv_version :: string
  sv_probe :: probe_state
  sv_slots :: "'w world \<Rightarrow> slots"

record ('s, 'b, 'w) live =
  lv_stores :: "'s \<times> 'b"
  lv_world :: "'w world"
  lv_presets :: preset_registry

datatype api_call =
    CallHealth
  | CallReady
  | CallModels
  | CallSpeech speech_request bool
  | CallSynthesize synthesize_request
  | CallVoice voice_request
  | CallStub stub
  | CallRefused py_exc

text \<open>
  A request: its headers, the UUID that would be minted for it, the clock, when its client goes away, what the
  temporary directory does for it, and how many chunks of a stream its client reads.
\<close>

record http_request =
  ht_headers :: "(string \<times> string) list"
  ht_fresh :: string
  ht_now :: datetime
  ht_gone :: "nat \<Rightarrow> bool"
  ht_tmp :: tmp_outcome
  ht_taken :: "nat option"
  ht_call :: api_call

datatype 'w answer =
    JsonAnswer json
  | SummariesAnswer "voice_summary list"
  | VoiceAnswer int voice_response
  | RawAnswer response
  | AudioAnswer "'w synth_response"

subsection \<open>Endpoints\<close>

definition te_header :: "(string \<times> string) list \<Rightarrow> string" where
  "te_header hs = (case List.find (\<lambda>h. ascii_lower (fst h) = ''te'') hs of None \<Rightarrow> [] | Some h \<Rightarrow> snd h)"

text \<open>The dependencies of a synthesis request; the presets are the ones of the moment it arrives.\<close>

definition get_preset_registry_snapshot :: "('s, 'b, 'w) live \<Rightarrow> preset_registry" where
  "get_preset_registry_snapshot lv = lv_presets lv"

definition synthesis_context :: "http_request \<Rightarrow> string \<Rightarrow> ('s, 'b, 'w) live \<Rightarrow> request_context" where
  "synthesis_context ht rid lv = \<lparr>rq_id = rid, rq_now = ht_now ht, rq_te = te_header (ht_headers ht), rq_gone = ht_gone ht,
     rq_tmp = ht_tmp ht, rq_snapshot = get_preset_registry_snapshot lv\<rparr>"

fun voices_endpoint :: "('s, 'b, 'w) service \<Rightarrow> datetime \<Rightarrow> voice_request \<Rightarrow> 's \<times> 'b \<Rightarrow> 'w answer res \<times> ('s \<times> 'b)" where
  "voices_endpoint S now ListVoices (s, b) = (case list_voices (app_metadata (sv_app S)) now s of
     (r, s') \<Rightarrow> (map_sum id SummariesAnswer r, (s', b)))"
| "voices_endpoint S now (CreateVoice m a) st = (case create_voice (sv_pydantic S) (app_metadata (sv_app S)) (app_blobs (sv_app S))
       (nat (tts_refaudio_max_bytes (app_settings (sv_app S)))) now m a st of
     (r, st') \<Rightarrow> (map_sum id (VoiceAnswer 201) r, st'))"
| "voices_endpoint S now (GetVoice v) (s, b) = (case get_voice (app_metadata (sv_app S)) now v s of
     (r, s') \<Rightarrow> (map_sum id (VoiceAnswer 200) r, (s', b)))"
| "voices_endpoint S now (GetVoiceAudio v) st =
     (case get_voice_audio (sv_sha256 S) (app_metadata (sv_app S)) (app_blobs (sv_app S)) now v st of
       (r, st') \<Rightarrow> (map_sum id RawAnswer r, st'))"
| "voices_endpoint S now (UpdateVoice v m a) st = (case update_voice (sv_pydantic S) (app_metadata (sv_app S)) (app_blobs (sv_app S))
       (nat (tts_refaudio_max_bytes (app_settings (sv_app S)))) now v m a st of
     (r, st') \<Rightarrow> (map_sum id (VoiceAnswer 200) r, st'))"
| "voices_endpoint S now (DeleteVoice v) st = (case delete_voice (app_metadata (sv_app S)) (app_blobs (sv_app S)) now v st of
     (r, st') \<Rightarrow> (map_sum id RawAnswer r, st'))"

fun call_endpoint :: "('s, 'b, 'w) service \<Rightarrow> http_request \<Rightarrow> string \<Rightarrow> api_call \<Rightarrow> ('s, 'b, 'w) live \<Rightarrow>
    'w answer res \<times> ('s, 'b, 'w) live" where
  "call_endpoint S ht rid CallHealth lv = (Inr (JsonAnswer (health (sv_version S) (sv_slots S (lv_world lv)))), lv)"
| "call_endpoint S ht rid CallReady lv = (Inr (RawAnswer (ready (sv_probe S))), lv)"
| "call_endpoint S ht rid CallModels lv = (Inr (JsonAnswer (models_endpoint (app_settings (sv_app S)))), lv)"
| "call_endpoint S ht rid (CallSpeech req stream) lv =
     (case create_speech (sv_app S) (synthesis_context ht rid lv) req stream (lv_stores lv) (lv_world lv) of
       (r, sb, w) \<Rightarrow> (map_sum id AudioAnswer r, lv\<lparr>lv_stores := sb, lv_world := w\<rparr>))"
| "call_endpoint S ht rid (CallSynthesize payload) lv =
     (case synthesize_endpoint (sv_app S) (synthesis_context ht rid lv) payload (lv_stores lv) (lv_world lv) of
       (r, sb, w) \<Rightarrow> (map_sum id AudioAnswer r, lv\<lparr>lv_stores := sb, lv_world := w\<rparr>))"
| "call_endpoint S ht rid (CallVoice vr) lv = (case voices_endpoint S (ht_now ht) vr (lv_stores lv) of
       (r, sb) \<Rightarrow> (r, lv\<lparr>lv_stores := sb\<rparr>))"
| "call_endpoint S ht rid (CallStub (m, path, r)) lv = (map_sum id (\<lambda>_. JsonAnswer JNull) r, lv)"
| "call_endpoint S ht rid (CallRefused e) lv = (Inl e, lv)"

subsection \<open>Around the endpoints\<close>

fun answer_start :: "'w answer \<Rightarrow> int \<times> (string \<times> string) list" where
  "answer_start (VoiceAnswer st _) = (st, [])"
| "answer_start (RawAnswer r) = (resp_status r, resp_headers r)"
| "answer_start (AudioAnswer (BufferedAudio _ hs)) = (200, hs)"
| "answer_start (AudioAnswer (StreamingAudio _ hs _)) = (200, hs)"
| "answer_start _ = (200, [])"

datatype 'w outcome =
    Served int "(string \<times> string) list" "'w answer"
  | Failed int "(string \<times> string) list" body
  | Aborted

text \<open>The header the middleware puts on the start of a response.\<close>

definition with_request_id :: "string \<Rightarrow> (string \<times> string) list \<Rightarrow> (string \<times> string) list" where
  "with_request_id rid hs = (case wrap_send rid (ResponseStart 200 hs False) of ResponseStart _ hs' _ \<Rightarrow> hs' | _ \<Rightarrow> hs)"

text \<open>
  The stack: the middleware sets the context variable to the id and resets it; outside of it, where the handler of
  an unexpected exception runs, the variable has its default, the empty string.
\<close>

definition dispatch :: "('s, 'b, 'w) service \<Rightarrow> http_request \<Rightarrow> ('s, 'b, 'w) live \<Rightarrow> 'w outcome \<times> ('s, 'b, 'w) live" where
  "dispatch S ht lv =
     (let rid = resolve_request_id (ht_headers ht) (ht_fresh ht) in
      case call_endpoint S ht rid (ht_call ht) lv of
        (Inr a, lv') \<Rightarrow> (case answer_start a of (st, hs) \<Rightarrow> (Served st (with_request_id rid hs) a, lv'))
      | (Inl e, lv') \<Rightarrow>
          if unexpected e
          then (case unhandled_exception_handler [] of r \<Rightarrow> (Failed (resp_status r) (resp_headers r) (resp_body r), lv'))
          else (case handle_exception e rid of
              Some r \<Rightarrow> (Failed (resp_status r) (with_request_id rid (resp_headers r)) (resp_body r), lv')
            | None \<Rightarrow> (Aborted, lv')))"

text \<open>Sending a stream runs its generator.\<close>

fun deliver :: "loudness \<Rightarrow> nat option \<Rightarrow> 'w outcome \<Rightarrow> 'w world \<Rightarrow> 'w world" where
  "deliver D taken (Served _ _ (AudioAnswer (StreamingAudio job _ _))) w = (case stream_run D taken job w of (_, _, _, w') \<Rightarrow> w')"
| "deliver D taken _ w = w"

definition serve :: "('s, 'b, 'w) service \<Rightarrow> http_request \<Rightarrow> ('s, 'b, 'w) live \<Rightarrow> 'w outcome \<times> ('s, 'b, 'w) live" where
  "serve S ht lv = (case dispatch S ht lv of (o1, lv') \<Rightarrow>
     (o1, lv'\<lparr>lv_world := deliver (app_loudness (sv_app S)) (ht_taken ht) o1 (lv_world lv')\<rparr>))"

text \<open>A life of the service: requests, and changes of the two watched files.\<close>

datatype event = Request http_request | SeedChanged seed_moment | PresetsChanged presets_file

fun on_event :: "('s, 'b, 'w) service \<Rightarrow> event \<Rightarrow> ('s, 'b, 'w) live \<Rightarrow> ('s, 'b, 'w) live" where
  "on_event S (Request ht) lv = snd (serve S ht lv)"
| "on_event S (SeedChanged m) lv =
     lv\<lparr>lv_stores := snd (on_seed_changed (app_metadata (sv_app S)) (app_blobs (sv_app S)) m (lv_stores lv))\<rparr>"
| "on_event S (PresetsChanged f) lv =
     lv\<lparr>lv_presets := snd (reload_once (sv_schema S) (app_settings (sv_app S)) (Some (registry_names (app_registry (sv_app S)))) f
       (lv_presets lv))\<rparr>"

subsection \<open>Correlation\<close>

text \<open>The values of the id header among the headers of a response, whatever the case of its name.\<close>

definition id_values :: "(string \<times> string) list \<Rightarrow> string list" where
  "id_values hs = map snd (filter (\<lambda>h. ascii_lower (fst h) = request_id_header) hs)"

lemma id_values_simps [simp]:
  "id_values [] = []"
  "id_values (h # hs) = (if ascii_lower (fst h) = request_id_header then snd h # id_values hs else id_values hs)"
  "id_values (hs @ hs') = id_values hs @ id_values hs'"
  by (simp_all add: id_values_def)

lemma ascii_lower_header [simp]:
  "ascii_lower request_id_header = request_id_header" "ascii_lower ''X-Request-ID'' = request_id_header"
  by (simp_all add: ascii_lower_def request_id_header_def char_of_eq_iff take_bit_eq_mod)

lemma other_headers [simp]:
  "ascii_lower ''X-Provider'' \<noteq> request_id_header" "ascii_lower ''X-Model'' \<noteq> request_id_header"
  "ascii_lower ''X-Device'' \<noteq> request_id_header" "ascii_lower ''X-Dtype'' \<noteq> request_id_header"
  "ascii_lower ''X-Voice-Source'' \<noteq> request_id_header" "ascii_lower ''X-Voice-Id'' \<noteq> request_id_header"
  "ascii_lower ''X-Chunks'' \<noteq> request_id_header" "ascii_lower ''X-Total-Duration-Ms'' \<noteq> request_id_header"
  "ascii_lower ''X-Preset-Effective'' \<noteq> request_id_header" "ascii_lower ''X-Preset-Ignored-Knobs'' \<noteq> request_id_header"
  "ascii_lower ''X-Content-Sha256'' \<noteq> request_id_header" "ascii_lower ''content-type'' \<noteq> request_id_header"
  "ascii_lower ''X-Error-Code'' \<noteq> request_id_header"
  by (simp_all add: ascii_lower_def request_id_header_def)

lemma with_request_id_values: "id_values (with_request_id rid hs) = (if id_values hs = [] then [rid] else id_values hs)"
proof -
  have "list_ex (\<lambda>h. ascii_lower (fst h) = request_id_header) hs \<longleftrightarrow> id_values hs \<noteq> []"
    by (induction hs) auto
  then show ?thesis by (auto simp: with_request_id_def)
qed

lemma with_request_id_other: "k \<noteq> request_id_header \<Longrightarrow> map_of (with_request_id rid hs) k = map_of hs k"
  by (auto simp: with_request_id_def map_add_def split: option.splits)

lemma id_values_update:
  "\<forall>kv\<in>set new. ascii_lower (fst kv) \<noteq> request_id_header \<Longrightarrow> id_values (update_headers hs new) = id_values hs"
  by (simp add: id_values_def filter_update_headers [where P = "\<lambda>k. ascii_lower k = request_id_header"])

lemma pipeline_headers:
  "id_values (update_headers (synthesis_headers L rid p m dev r n ms) (preset_headers L ef)) = [rid]"
proof -
  have "\<forall>kv\<in>set (preset_headers L ef). ascii_lower (fst kv) \<noteq> request_id_header"
    using preset_header_keys [of L ef] by (auto dest!: subsetD)
  then show ?thesis by (simp add: id_values_update synthesis_headers_def opt_header_def split: option.split)
qed

lemma synthesize_core_headers:
  assumes "synthesize_core A rq payload sb w = (Inr resp, sb', w')"
  shows "id_values (snd (answer_start (AudioAnswer resp))) = [rq_id rq]"
  using assms
proof (cases rule: synthesize_core_cases)
  case (run ef r audio provider model synth)
  then show ?thesis
    by (auto simp: with_reference_audio_def Let_def buffered_path_def stream_path_def pipeline_headers
        split: tmp_outcome.splits sum.splits if_splits prod.splits)
qed simp

lemma create_speech_headers:
  assumes "create_speech A rq req stream sb w = (Inr resp, sb', w')"
  shows "id_values (snd (answer_start (AudioAnswer resp))) = [rq_id rq]"
proof -
  obtain payload res where "translate_openai_request req stream = Inr payload" "resp = openai_response (rq_id rq) res"
      "synthesize_core A rq payload sb w = (Inr res, sb', w')"
    using assms by (auto simp: create_speech_def map_sum_Inr_iff split: sum.splits prod.splits)
  then show ?thesis
    using buffered_headers [of A rq payload sb w _ _ sb' w'] by (cases res) (auto simp: stripped_headers)
qed

lemma voices_endpoint_headers:
  "voices_endpoint S now vr st = (Inr a, st') \<Longrightarrow> id_values (snd (answer_start a)) = []"
  by (cases vr; cases st)
    (auto simp: map_sum_Inr_iff get_voice_audio_def delete_voice_def audio_response_def Let_def
      split: prod.splits sum.splits json.splits py_exc.splits if_splits bool.splits)

lemma answer_id:
  assumes "call_endpoint S ht rid call lv = (Inr a, lv')"
  shows "id_values (snd (answer_start a)) \<in> {[], [rid]}"
proof (cases call)
  case CallReady
  with assms show ?thesis by (auto simp: ready_def split: prod.splits)
next
  case (CallSpeech req stream)
  with assms obtain resp sb w where "a = AudioAnswer resp"
      "create_speech (sv_app S) (synthesis_context ht rid lv) req stream (lv_stores lv) (lv_world lv) = (Inr resp, sb, w)"
    by (auto simp: map_sum_Inr_iff split: prod.splits)
  with create_speech_headers [OF this(2)] show ?thesis by (simp add: synthesis_context_def)
next
  case (CallSynthesize payload)
  with assms obtain resp sb w where "a = AudioAnswer resp"
      "synthesize_core (sv_app S) (synthesis_context ht rid lv) payload (lv_stores lv) (lv_world lv) = (Inr resp, sb, w)"
    by (auto simp: map_sum_Inr_iff synthesize_endpoint_def split: prod.splits)
  with synthesize_core_headers [OF this(2)] show ?thesis by (simp add: synthesis_context_def)
next
  case (CallVoice vr)
  with assms voices_endpoint_headers show ?thesis by (fastforce split: prod.splits)
next
  case (CallStub st)
  with assms show ?thesis by (cases st) (auto simp: map_sum_Inr_iff)
qed (use assms in auto)

lemma handled_by_envelope:
  "if \<not> is_exception e then \<not> unexpected e \<and> handle_exception e rid = None
   else unexpected e \<or> (\<exists>st er. handle_exception e rid = Some (envelope_response st er rid))"
  by (cases e) (auto simp: openai_exception_handler_def http_exception_handler_def validation_exception_handler_def Let_def
    split: list.splits prod.splits)

text \<open>
  C20: a response can be traced to its request, unless the exception was unexpected. Every answer of an endpoint
  carries the id of the request in exactly one header of that name, on success and on the errors that have a handler of
  their own, whose envelope has the same id and whose code is in \<open>X-Error-Code\<close>. An unexpected exception is answered
  outside of the middleware: a 500 that has no id, neither in its headers nor in its envelope.
\<close>

theorem responses_correlated:
  assumes "rid = resolve_request_id (ht_headers ht) (ht_fresh ht)"
    and "call_endpoint S ht rid (ht_call ht) lv = (r, lv')" "dispatch S ht lv = (out, lv'')"
  shows "lv'' = lv' \<and> (case r of
      Inr a \<Rightarrow> \<exists>st hs. out = Served st hs a \<and> id_values hs = [rid]
    | Inl e \<Rightarrow> if \<not> is_exception e then out = Aborted
        else \<exists>st hs er. out = Failed st hs (JsonBody (as_envelope er (if unexpected e then [] else rid))) \<and>
          map_of hs ''X-Error-Code'' = Some (oe_code er) \<and> id_values hs = (if unexpected e then [] else [rid]) \<and>
          (unexpected e \<longrightarrow> st = 500 \<and> oe_code er = ''unexpected_error''))"
proof (cases r)
  case (Inr a)
  with answer_id assms(2) have "id_values (snd (answer_start a)) \<in> {[], [rid]}" by blast
  with assms Inr show ?thesis
    by (auto simp: dispatch_def Let_def with_request_id_values split: prod.splits)
next
  case (Inl e)
  obtain er where er: "oe_code er = ''unexpected_error''" "unhandled_exception_handler [] = envelope_response 500 er []"
    by (rule that [rotated, OF unhandled_exception_handler_def]) simp
  have "request_id_header \<noteq> ''X-Error-Code''" by (simp add: request_id_header_def)
  with assms Inl handled_by_envelope [of e rid] er show ?thesis
    by (auto simp: dispatch_def Let_def with_request_id_values with_request_id_other envelope_response_def
        as_envelope_inj split: option.splits)
qed

definition sample_service :: "(meta_fs, blob_fs, nat) service" where
  "sample_service = \<lparr>sv_app = sample_app, sv_pydantic = strict_pydantic, sv_schema = strict_schema, sv_sha256 = (\<lambda>_. ''0''),
     sv_version = ''1'', sv_probe = (True, []), sv_slots = (\<lambda>w. \<lparr>sl_selection = None, sl_device = None, sl_loaded = None,
       sl_settings = None, sl_queue = Some (int (wd_queue w)), sl_concur = None\<rparr>)\<rparr>"

definition sample_http :: "api_call \<Rightarrow> http_request" where
  "sample_http call = \<lparr>ht_headers = [], ht_fresh = ''f00d'', ht_now = sample_time, ht_gone = (\<lambda>_. False),
     ht_tmp = TmpFile ''/tmp/voice-mario-1.wav'', ht_taken = None, ht_call = call\<rparr>"

definition sample_live :: "(meta_fs, blob_fs, nat) live" where
  "sample_live = \<lparr>lv_stores = (sample_stored, sample_audio_store), lv_world = sample_world,
     lv_presets = [(''balanced'', sample_entry (Fin 1))]\<rparr>"

text \<open>A client lists the voices: from the sample store, and from a document that is not JSON.\<close>

theorem responses_correlated_witness:
  "(\<exists>st hs a. fst (dispatch sample_service (sample_http CallModels) sample_live) = Served st hs a \<and> id_values hs = [''f00d'']) \<and>
   (\<exists>hs er. fst (dispatch sample_service (sample_http (CallVoice ListVoices))
        (sample_live\<lparr>lv_stores := (sample_stored\<lparr>mf_doc := doc.NotJson ''bad''\<rparr>, sample_audio_store)\<rparr>)) =
      Failed 500 hs (JsonBody (as_envelope er [])) \<and> id_values hs = [])"
proof -
  have rid: "''f00d'' = resolve_request_id (ht_headers (sample_http c)) (ht_fresh (sample_http c))" for c
    by (simp add: sample_http_def resolve_request_id_def)
  have call: "ht_call (sample_http c) = c" for c by (simp add: sample_http_def)
  let ?lv = "sample_live\<lparr>lv_stores := (sample_stored\<lparr>mf_doc := doc.NotJson ''bad''\<rparr>, sample_audio_store)\<rparr>"
  let ?list = "sample_http (CallVoice ListVoices)" and ?models = "sample_http CallModels"
  have "call_endpoint sample_service ?list ''f00d'' (ht_call ?list) ?lv = (Inl (ValueErr ''bad''), ?lv)"
    by (simp add: call sample_service_def sample_app_def list_voices_def fs_metadata_repo_sel fs_list_def load_all_def)
  note bad = responses_correlated [OF rid this prod.collapse [symmetric]]
  have "call_endpoint sample_service ?models ''f00d'' (ht_call ?models) sample_live =
      (Inr (JsonAnswer (models_endpoint (app_settings (sv_app sample_service)))), sample_live)"
    by (simp add: call)
  note good = responses_correlated [OF rid this prod.collapse [symmetric]]
  from bad have "\<exists>hs er. fst (dispatch sample_service ?list ?lv) = Failed 500 hs (JsonBody (as_envelope er [])) \<and> id_values hs = []"
    by (simp, blast)
  moreover from good have "\<exists>st hs a. fst (dispatch sample_service ?models sample_live) = Served st hs a \<and> id_values hs = [''f00d'']"
    by (simp, blast)
  ultimately show ?thesis by blast
qed

subsection \<open>A consistent service\<close>

lemma m_exists_state: "m_exists (fs_metadata_repo L) now v s = (r, s') \<Longrightarrow> s' = s"
  by (auto simp: fs_metadata_repo_sel fs_exists_def)

lemma ingest_entries_faults:
  "ingest_entries (fs_metadata_repo L) blobs files now es n (s, b) = (r, (s', b'), logs) \<Longrightarrow> mf_faults s = [] \<Longrightarrow>
   mf_faults s' = []"
proof (induction es arbitrary: n s b r s' b' logs)
  case (Cons e es)
  obtain q s1 where x: "m_exists (fs_metadata_repo L) now (se_voice_id e) s = (q, s1)" by fastforce
  obtain c s2 where m: "m_create (fs_metadata_repo L) now (seed_record e now) s = (c, s2)" by fastforce
  have f: "mf_faults s2 = []" using m Cons.prems(2) by (auto simp: fs_metadata_repo_sel dest: fs_create_faults)
  show ?case
    using Cons.prems x m f m_exists_state [OF x]
    by (auto split: sum.splits prod.splits bool.splits if_splits dest: Cons.IH)
qed simp

lemma seed_keeps_pairs:
  assumes "paired L st" "valid_datetime now"
  shows "paired L (snd (on_seed_changed (fs_metadata_repo L) fs_blob_repo (files, now, seed) st))"
proof -
  obtain s b where st: "st = (s, b)" by (cases st)
  obtain r s' b' logs where run: "ingest_once (fs_metadata_repo L) fs_blob_repo files now seed (s, b) = (r, (s', b'), logs)"
    by (metis prod.exhaust)
  have inv: "meta_inv L s" "mf_faults s = []" "dom (meta_abs L s) \<subseteq> dom (blob_abs b)" using assms(1) by (auto simp: paired_def st)
  have "mf_faults s' = []"
    using run inv(2) by (auto simp: ingest_once_def Let_def dest: ingest_entries_faults split: seed_file.splits sum.splits)
  moreover have "meta_inv L s'" "seeded UNIV (meta_abs L s) (meta_abs L s') (blob_abs b) (blob_abs b')"
    using ingest_once_seeded [OF inv(1) assms(2) run] by auto
  moreover from this(2) inv(3) have "dom (meta_abs L s') \<subseteq> dom (blob_abs b')"
    unfolding seeded_def dom_def by (smt (verit) mem_Collect_eq option.exhaust subset_iff)
  ultimately show ?thesis by (simp add: on_seed_changed_def st run paired_def)
qed

lemma resolve_voice_state: "resolve_voice (fs_metadata_repo L) fs_blob_repo now v st = (r, st') \<Longrightarrow> st' = st"
  by (cases st) (auto simp: resolve_voice_def dest!: m_get_state b_get_state split: sum.splits prod.splits py_exc.splits)

lemma voices_endpoint_effect:
  assumes "app_metadata (sv_app S) = fs_metadata_repo L" "app_blobs (sv_app S) = fs_blob_repo"
  shows "snd (voices_endpoint S now vr st) =
    voice_effect (sv_pydantic S) L (nat (tts_refaudio_max_bytes (app_settings (sv_app S)))) (now, vr) st"
proof (cases "\<exists>v. vr = GetVoiceAudio v")
  case True
  obtain s b where st: "st = (s, b)" by (cases st)
  have "snd (get_voice_audio h (fs_metadata_repo L) fs_blob_repo now v (s, b)) = (s, b)" for h v
    by (rule get_voice_audio_state [OF prod.collapse [symmetric]])
  with True assms st show ?thesis by (auto split: prod.split dest: get_voice_audio_state)
next
  case False
  with assms show ?thesis by (cases vr; cases st) (auto split: prod.split)
qed

lemma synthesize_core_stores:
  assumes "app_metadata A = fs_metadata_repo L" "app_blobs A = fs_blob_repo" "synthesize_core A rq payload sb w = (res, sb', w')"
  shows "sb' = sb"
  using assms
  by (auto simp: synthesize_core_def Let_def dest: resolve_voice_state split: sum.splits if_splits prod.splits)

text \<open>What a response leaves to be done, and that sending it settles the accounts of the request.\<close>

definition settled :: "loudness \<Rightarrow> nat option \<Rightarrow> 'w synth_response res \<Rightarrow> 'w world \<Rightarrow> 'w world \<Rightarrow> bool" where
  "settled D taken res w w' \<longleftrightarrow> (case res of
       Inr (StreamingAudio job hs te) \<Rightarrow> (case stream_run D taken job w' of (_, _, _, w'') \<Rightarrow> wd_queue w'' = wd_queue w \<and> wd_tmp w'' = wd_tmp w)
     | _ \<Rightarrow> wd_queue w' = wd_queue w \<and> wd_tmp w' = wd_tmp w)"

lemma core_settles:
  assumes "synthesize_core A rq payload sb w = (res, sb', w')" "wd_tmp w = []" "\<forall>p e. rq_tmp rq \<noteq> TmpWriteFails p e"
  shows "settled D taken res w w'"
  using synthesize_core_frame [OF assms(1) _ assms(3)] assms(2)
  by (auto simp: settled_def dest!: stream_run_frame split: sum.splits synth_response.splits)

lemma settled_openai: "settled D taken (map_sum id (openai_response rid) res) w w' = settled D taken res w w'"
  by (auto simp: settled_def split: sum.split synth_response.split)

definition event_ok :: "event \<Rightarrow> bool" where
  "event_ok e \<longleftrightarrow> (case e of
       Request ht \<Rightarrow> valid_datetime (ht_now ht) \<and> (\<forall>p x. ht_tmp ht \<noteq> TmpWriteFails p x)
     | SeedChanged (files, now, seed) \<Rightarrow> valid_datetime now
     | PresetsChanged f \<Rightarrow> True)"

definition service_ok :: "stdlib \<Rightarrow> nat \<Rightarrow> (meta_fs, blob_fs, 'w) service \<Rightarrow> (meta_fs, blob_fs, 'w) live \<Rightarrow> bool" where
  "service_ok L capacity S lv \<longleftrightarrow> paired L (lv_stores lv) \<and>
     preset_registry_ok (app_settings (sv_app S)) (Some (registry_names (app_registry (sv_app S)))) (lv_presets lv) \<and>
     wd_tmp (lv_world lv) = [] \<and> wd_queue (lv_world lv) = capacity"

definition on_local_disks :: "stdlib \<Rightarrow> (meta_fs, blob_fs, 'w) service \<Rightarrow> bool" where
  "on_local_disks L S \<longleftrightarrow> app_metadata (sv_app S) = fs_metadata_repo L \<and> app_blobs (sv_app S) = fs_blob_repo \<and>
     pattern_law (sv_pydantic S) \<and> schema_law (sv_schema S)"

lemma call_endpoint_keeps:
  assumes S: "on_local_disks L S" and ok: "service_ok L c S lv"
    and ev: "valid_datetime (ht_now ht)" "\<forall>p x. ht_tmp ht \<noteq> TmpWriteFails p x"
    and run: "call_endpoint S ht rid call lv = (r, lv')"
  shows "paired L (lv_stores lv') \<and> lv_presets lv' = lv_presets lv \<and>
    (case r of Inr (AudioAnswer resp) \<Rightarrow> settled D taken (Inr resp) (lv_world lv) (lv_world lv')
     | _ \<Rightarrow> wd_queue (lv_world lv') = wd_queue (lv_world lv) \<and> wd_tmp (lv_world lv') = wd_tmp (lv_world lv))"
proof -
  have p: "paired L (lv_stores lv)" "wd_tmp (lv_world lv) = []" using ok by (auto simp: service_ok_def)
  have A: "app_metadata (sv_app S) = fs_metadata_repo L" "app_blobs (sv_app S) = fs_blob_repo" "pattern_law (sv_pydantic S)"
    using S by (auto simp: on_local_disks_def)
  have tmp: "\<forall>p x. rq_tmp (synthesis_context ht rid lv) \<noteq> TmpWriteFails p x" using ev(2) by (simp add: synthesis_context_def)
  note settles = core_settles [OF _ p(2) tmp, of "sv_app S" _ "lv_stores lv" _ _ _ D taken]
  show ?thesis
  proof (cases call)
    case (CallSpeech req stream)
    obtain res sb w where c: "create_speech (sv_app S) (synthesis_context ht rid lv) req stream (lv_stores lv) (lv_world lv) = (res, sb, w)"
      by (metis prod.exhaust)
    have "sb = lv_stores lv \<and> settled D taken res (lv_world lv) w"
    proof (cases "translate_openai_request req stream")
      case (Inl e)
      with c show ?thesis by (auto simp: create_speech_def settled_def)
    next
      case (Inr payload)
      then obtain q where "synthesize_core (sv_app S) (synthesis_context ht rid lv) payload (lv_stores lv) (lv_world lv) = (q, sb, w)"
          "res = map_sum id (openai_response (rq_id (synthesis_context ht rid lv))) q"
        using c by (auto simp: create_speech_def split: prod.splits)
      with settles synthesize_core_stores [OF A(1,2)] show ?thesis by (simp only: settled_openai)
    qed
    then show ?thesis using run CallSpeech c p by (auto simp: settled_def split: sum.splits)
  next
    case (CallSynthesize payload)
    obtain res sb w where c: "synthesize_core (sv_app S) (synthesis_context ht rid lv) payload (lv_stores lv) (lv_world lv) = (res, sb, w)"
      by (metis prod.exhaust)
    from settles [OF c] synthesize_core_stores [OF A(1,2) c] run CallSynthesize c p show ?thesis
      by (auto simp: synthesize_endpoint_def settled_def split: sum.splits)
  next
    case (CallVoice vr)
    obtain q sb where v: "voices_endpoint S (ht_now ht) vr (lv_stores lv) = (q, sb)" by (metis prod.exhaust)
    have "\<And>resp. q \<noteq> Inr (AudioAnswer resp)"
      using v by (cases vr; cases "lv_stores lv") (auto simp: map_sum_Inr_iff split: prod.splits)
    moreover have "paired L sb"
      using voices_endpoint_effect [OF A(1,2), of "ht_now ht" vr "lv_stores lv"] v
        voice_effect_paired [OF A(3) ev(1) p(1)] by (metis snd_conv)
    ultimately show ?thesis using run CallVoice v by (auto split: sum.splits answer.splits)
  next
    case (CallStub st)
    with run p show ?thesis by (cases st) (auto split: sum.splits answer.splits simp: map_sum_Inr_iff)
  qed (use run p in auto)
qed

lemma deliver_other: "(\<And>st hs resp. out \<noteq> Served st hs (AudioAnswer resp)) \<Longrightarrow> deliver D taken out w = w"
  by (cases "(D, taken, out, w)" rule: deliver.cases) auto

lemma dispatch_outcome:
  assumes "call_endpoint S ht (resolve_request_id (ht_headers ht) (ht_fresh ht)) (ht_call ht) lv = (r, lv')"
  shows "\<exists>out. dispatch S ht lv = (out, lv') \<and>
    (case r of Inr a \<Rightarrow> \<exists>st hs. out = Served st hs a | Inl e \<Rightarrow> \<forall>st hs a. out \<noteq> Served st hs a)"
  using assms
  by (cases r) (auto simp: dispatch_def Let_def split: prod.split option.split)

lemma on_event_keeps:
  assumes S: "on_local_disks L S" and ok: "service_ok L c S lv" and ev: "event_ok e"
  shows "service_ok L c S (on_event S e lv)"
proof (cases e)
  case (Request ht)
  let ?rid = "resolve_request_id (ht_headers ht) (ht_fresh ht)"
  obtain r lv' where run: "call_endpoint S ht ?rid (ht_call ht) lv = (r, lv')" by fastforce
  have evs: "valid_datetime (ht_now ht)" "\<forall>p x. ht_tmp ht \<noteq> TmpWriteFails p x" using ev Request by (auto simp: event_ok_def)
  note keeps = call_endpoint_keeps [OF S ok evs run, of "app_loudness (sv_app S)" "ht_taken ht"]
  obtain out where d: "dispatch S ht lv = (out, lv')"
      "\<And>a. r = Inr a \<Longrightarrow> \<exists>st hs. out = Served st hs a" "\<And>x. r = Inl x \<Longrightarrow> \<forall>st hs a. out \<noteq> Served st hs a"
    using dispatch_outcome [OF run] by (cases r) auto
  show ?thesis
  proof (cases "\<exists>resp. r = Inr (AudioAnswer resp)")
    case True
    then obtain resp where resp: "r = Inr (AudioAnswer resp)" by blast
    from d(2) [OF this] obtain st hs where "out = Served st hs (AudioAnswer resp)" by blast
    with keeps ok d(1) resp Request show ?thesis
      by (cases resp) (auto simp: serve_def service_ok_def settled_def split: prod.splits)
  next
    case False
    then have "deliver (app_loudness (sv_app S)) (ht_taken ht) out w = w" for w
      using d(2,3) by (intro deliver_other) (cases r; force)
    with keeps ok d(1) Request False show ?thesis
      by (auto simp: serve_def service_ok_def split: sum.splits answer.splits)
  qed
next
  case (SeedChanged m)
  obtain files now seed where "m = (files, now, seed)" by (metis prod.exhaust)
  with SeedChanged ev ok S seed_keeps_pairs [of L "lv_stores lv" now files seed] show ?thesis
    by (auto simp: service_ok_def event_ok_def on_local_disks_def)
next
  case (PresetsChanged f)
  with ok S show ?thesis
    by (auto simp: service_ok_def on_local_disks_def reload_once_live split: option.split dest: accepted_ok)
qed


lemma sample_service_ok: "on_local_disks sample_stdlib sample_service" "service_ok sample_stdlib 2 sample_service sample_live"
proof -
  show "on_local_disks sample_stdlib sample_service"
    using strict_pydantic_law strict_schema_law
    by (simp add: on_local_disks_def sample_service_def sample_app_def pattern_law_def)
  obtain r s where c: "fs_create sample_stdlib sample_time sample_voice sample_meta = (r, s)" by fastforce
  then have s: "s = sample_stored" by (simp add: sample_stored_def)
  have id: "vr_id sample_voice = ''mario''" by (simp add: sample_voice_def)
  from fs_create_ok [OF sample_meta_facts(1) sample_voice_storable c]
  have "dom (meta_abs sample_stdlib sample_stored) \<subseteq> {''mario''}"
    by (auto simp: s id split: sum.splits if_splits)
  moreover have "mf_faults sample_stored = []" using fs_create_faults [OF c] s by simp
  moreover have "''mario'' \<in> dom (blob_abs sample_audio_store)"
    by (simp add: dom_def blob_abs_def sample_audio_store_def blob_suffix_def)
  ultimately have "paired sample_stdlib (sample_stored, sample_audio_store)" by (auto simp: paired_def)
  moreover have "preset_registry_ok default_settings regd [(''balanced'', sample_entry (Fin 1))]" for regd
    by (simp add: preset_registry_ok_def preset_names_def pins_ok_def preset_entry_ok_def preset_defaults_ok_def)
      (simp add: sample_entry_def)
  ultimately show "service_ok sample_stdlib 2 sample_service sample_live"
    by (simp add: service_ok_def sample_live_def) (simp add: sample_service_def sample_app_def)
qed


end
