(* ===== verification/PerfBaseline.thy ===== *)
theory PerfBaseline
  imports Errors
begin

text \<open>
  \<open>scripts/perf_baseline.py\<close>: the client that measures the latency of a running service. The network is a
  parameter: what each request, counted from zero, does. Times are exact numbers of seconds; the rounding of
  floats and the printing of the row are left out.
\<close>

subsection \<open>One request\<close>

definition endpoint_paths :: "(string \<times> string) list" where
  "endpoint_paths = [(''openai'', ''/v1/audio/speech''), (''rich'', ''/v1/tts/synthesize'')]"

definition request_url :: "string \<Rightarrow> string \<Rightarrow> string res" where
  "request_url url endpoint = (case map_of endpoint_paths endpoint of
       None \<Rightarrow> Inl (KeyErr endpoint)
     | Some p \<Rightarrow> Inr (rev (dropWhile (\<lambda>c. c = CHR ''/'') (rev url)) @ p))"

definition request_body :: "json \<Rightarrow> json \<Rightarrow> json \<Rightarrow> json" where
  "request_body model text voice =
     JObj [(''model'', model), (''input'', text), (''voice'', voice), (''response_format'', JStr ''wav'')]"

text \<open>What \<open>urlopen\<close> and reading the whole answer do: the seconds they take, a \<open>URLError\<close>, another exception.\<close>

datatype exchange = Took rat | UrlError string | Raises py_exc

subsection \<open>Percentiles\<close>

text \<open>
  \<open>statistics.quantiles(data, n=n, method="inclusive")\<close> of sorted data with two samples at least: \<open>n - 1\<close> cut points.
\<close>

definition quantiles :: "nat \<Rightarrow> rat list \<Rightarrow> rat list" where
  "quantiles n xs = map (\<lambda>i. let m = length xs - 1; j = i * m div n; d = i * m mod n in
     (xs ! j * of_nat (n - d) + xs ! (j + 1) * of_nat d) / of_nat n) [1..<n]"

definition percentile :: "rat list \<Rightarrow> nat \<Rightarrow> rat" where
  "percentile samples pct = (case samples of
       [] \<Rightarrow> 0
     | [x] \<Rightarrow> x
     | _ \<Rightarrow> quantiles 100 (sort samples) ! (pct - 1))"

subsection \<open>The measurement\<close>

record perf_args =
  pa_endpoint :: string
  pa_voice :: string
  pa_runs :: int
  pa_warmup :: int

record perf_row =
  pr_sha :: string
  pr_endpoint :: string
  pr_voice :: string
  pr_chars :: nat
  pr_runs :: int
  pr_p50 :: rat
  pr_p95 :: rat
  pr_min :: rat
  pr_max :: rat

text \<open>A loop of requests: the times, or the exit code 1 of the first that fails, and the requests made.\<close>

datatype stop = ExitOne | Uncaught py_exc

fun request_loop :: "(nat \<Rightarrow> exchange) \<Rightarrow> nat \<Rightarrow> nat \<Rightarrow> (stop + rat list) \<times> nat" where
  "request_loop net k 0 = (Inr [], k)"
| "request_loop net k (Suc n) = (case net k of
       UrlError _ \<Rightarrow> (Inl ExitOne, k + 1)
     | Raises e \<Rightarrow> (Inl (Uncaught e), k + 1)
     | Took t \<Rightarrow> (case request_loop net (k + 1) n of
         (Inl x, k') \<Rightarrow> (Inl x, k')
       | (Inr ts, k') \<Rightarrow> (Inr (t # ts), k')))"

text \<open>The body of \<open>main\<close> once the arguments and the input are there; the row has the voice \<open>alloy\<close> whatever was asked for.\<close>

definition perf_main :: "perf_args \<Rightarrow> string \<Rightarrow> nat \<Rightarrow> (nat \<Rightarrow> exchange) \<Rightarrow> (stop + perf_row) \<times> nat" where
  "perf_main a sha chars net =
     (case request_loop net 0 (nat (pa_warmup a)) of
        (Inl x, k) \<Rightarrow> (Inl x, k)
      | (Inr _, k) \<Rightarrow> (case request_loop net k (nat (pa_runs a)) of
          (Inl x, k') \<Rightarrow> (Inl x, k')
        | (Inr [], k') \<Rightarrow> (Inl (Uncaught (ValueErr ''min() arg is an empty sequence'')), k')
        | (Inr (t # ts), k') \<Rightarrow>
            (Inr \<lparr>pr_sha = take 12 sha, pr_endpoint = pa_endpoint a, pr_voice = ''alloy'', pr_chars = chars, pr_runs = pa_runs a,
               pr_p50 = percentile (t # ts) 50, pr_p95 = percentile (t # ts) 95,
               pr_min = fold min ts t, pr_max = fold max ts t\<rparr>, k')))"

subsection \<open>Properties\<close>

text \<open>A cut point lies between two neighbours of the sorted data.\<close>

lemma cut_between:
  assumes "sorted xs" "2 \<le> length xs" "1 \<le> i" "i < n"
  defines "m \<equiv> length xs - 1"
  shows "i * m div n + 1 < length xs \<and> xs ! (i * m div n) \<le> quantiles n xs ! (i - 1) \<and>
    quantiles n xs ! (i - 1) \<le> xs ! (i * m div n + 1)"
proof -
  let ?j = "i * m div n" and ?d = "i * m mod n"
  have m: "1 \<le> m" "length xs = m + 1" using assms(2) by (auto simp: m_def)
  have "i * m < n * m" using assms(4) m by simp
  then have j: "?j < m" using assms(4) by (metis less_mult_imp_div_less mult.commute)
  have q: "quantiles n xs ! (i - 1) = (xs ! ?j * of_nat (n - ?d) + xs ! (?j + 1) * of_nat ?d) / of_nat n"
    using assms(3,4) nth_upt [of 1 "i - 1" n] by (simp add: quantiles_def Let_def m_def)
  have d: "?d \<le> n" using assms(4) by (simp add: less_imp_le)
  have le: "xs ! ?j \<le> xs ! (?j + 1)" using assms(1) j m by (simp add: sorted_iff_nth_mono)
  have w: "xs ! ?j * of_nat (n - ?d) + xs ! (?j + 1) * of_nat ?d = of_nat n * xs ! ?j + (xs ! (?j + 1) - xs ! ?j) * of_nat ?d"
    using d by (simp add: of_nat_diff algebra_simps)
  have "0 \<le> (xs ! (?j + 1) - xs ! ?j) * of_nat ?d" using le by simp
  moreover have "(xs ! (?j + 1) - xs ! ?j) * of_nat ?d \<le> (xs ! (?j + 1) - xs ! ?j) * of_nat n"
    using le d by (intro mult_left_mono) simp_all
  moreover have "0 < (of_nat n :: rat)" using assms(4) by simp
  ultimately show ?thesis using j m unfolding q w by (simp add: field_simps)
qed

lemma cut_mono:
  assumes "sorted xs" "2 \<le> length xs" "1 \<le> i" "i \<le> k" "k < n"
  shows "quantiles n xs ! (i - 1) \<le> quantiles n xs ! (k - 1)"
proof -
  let ?m = "length xs - 1"
  let ?j = "i * ?m div n" and ?l = "k * ?m div n"
  have i: "?j + 1 < length xs" "quantiles n xs ! (i - 1) \<le> xs ! (?j + 1)" using cut_between [of xs i n] assms by auto
  have k: "?l + 1 < length xs" "xs ! ?l \<le> quantiles n xs ! (k - 1)" using cut_between [of xs k n] assms by auto
  have jl: "?j \<le> ?l" using assms(4) by (intro div_le_mono mult_le_mono1)
  show ?thesis
  proof (cases "?j = ?l")
    case False
    with jl have "xs ! (?j + 1) \<le> xs ! ?l" using assms(1) k by (intro sorted_nth_mono) auto
    with i(2) k(2) show ?thesis by linarith
  next
    case True
    let ?d = "i * ?m mod n" and ?e = "k * ?m mod n"
    have de: "?d \<le> ?e" using assms(4) True by (metis add_le_cancel_left div_mult_mod_eq mult_le_mono1)
    have e: "?e \<le> n" "?d \<le> n" using assms(5) by (simp_all add: less_imp_le)
    have le: "xs ! ?l \<le> xs ! (?l + 1)" using assms(1) k(1) by (simp add: sorted_iff_nth_mono)
    have q: "quantiles n xs ! (c - 1) = (xs ! ?l * of_nat (n - (c * ?m mod n)) + xs ! (?l + 1) * of_nat (c * ?m mod n)) / of_nat n"
      if "1 \<le> c" "c < n" "c * ?m div n = ?l" for c
      using that nth_upt [of 1 "c - 1" n] by (simp add: quantiles_def Let_def)
    have "(xs ! (?l + 1) - xs ! ?l) * of_nat ?d \<le> (xs ! (?l + 1) - xs ! ?l) * of_nat ?e"
      using le de by (intro mult_left_mono) simp_all
    moreover have "xs ! ?l * of_nat (n - c) + xs ! (?l + 1) * of_nat c = of_nat n * xs ! ?l + (xs ! (?l + 1) - xs ! ?l) * of_nat c"
      if "c \<le> n" for c
      using that by (simp add: of_nat_diff algebra_simps)
    moreover have "quantiles n xs ! (i - 1) = (xs ! ?l * of_nat (n - ?d) + xs ! (?l + 1) * of_nat ?d) / of_nat n"
      using q [of i] assms(3-5) True by simp
    moreover have "quantiles n xs ! (k - 1) = (xs ! ?l * of_nat (n - ?e) + xs ! (?l + 1) * of_nat ?e) / of_nat n"
      using q [of k] assms(3-5) by simp
    ultimately show ?thesis using e by (simp only: divide_right_mono add_left_mono of_nat_0_le_iff)
  qed
qed

lemma count_below:
  assumes "sorted xs" "j < length xs" "xs ! j \<le> v"
  shows "j + 1 \<le> length (filter (\<lambda>x. x \<le> v) xs)"
proof -
  have "\<forall>x\<in>set (take (j + 1) xs). x \<le> v"
    using assms by (auto simp: in_set_conv_nth) (metis less_Suc_eq_le order.trans sorted_nth_mono)
  then have "filter (\<lambda>x. x \<le> v) (take (j + 1) xs) = take (j + 1) xs" by simp
  then have "length (filter (\<lambda>x. x \<le> v) (take (j + 1) xs)) = j + 1" using assms(2) by simp
  moreover have "filter (\<lambda>x. x \<le> v) xs = filter (\<lambda>x. x \<le> v) (take (j + 1) xs) @ filter (\<lambda>x. x \<le> v) (drop (j + 1) xs)"
    by (simp flip: filter_append)
  ultimately show ?thesis by simp
qed

lemma count_above:
  assumes "sorted xs" "j < length xs" "v \<le> xs ! j"
  shows "length xs - j \<le> length (filter (\<lambda>x. v \<le> x) xs)"
proof -
  have "\<forall>x\<in>set (drop j xs). v \<le> x"
    using assms by (auto simp: in_set_conv_nth) (metis le_add1 less_diff_conv add.commute order.trans sorted_nth_mono)
  then have "filter (\<lambda>x. v \<le> x) (drop j xs) = drop j xs" by simp
  moreover have "filter (\<lambda>x. v \<le> x) xs = filter (\<lambda>x. v \<le> x) (take j xs) @ filter (\<lambda>x. v \<le> x) (drop j xs)"
    by (simp flip: filter_append)
  ultimately show ?thesis by simp
qed

text \<open>The percentile has its rank: enough samples are not above it, and enough are not below it.\<close>

lemma percentile_rank:
  assumes "samples \<noteq> []" "1 \<le> p" "p < 100"
  shows "p * (length samples - 1) \<le> 100 * length (filter (\<lambda>x. x \<le> percentile samples p) samples) \<and>
    (100 - p) * (length samples - 1) \<le> 100 * length (filter (\<lambda>x. percentile samples p \<le> x) samples)"
proof (cases "2 \<le> length samples")
  case True
  let ?xs = "sort samples" and ?m = "length samples - 1"
  let ?v = "percentile samples p" and ?j = "p * (length samples - 1) div 100"
  have v: "?v = quantiles 100 ?xs ! (p - 1)" using True by (auto simp: percentile_def split: list.split)
  have c: "?j + 1 < length ?xs" "?xs ! ?j \<le> ?v" "?v \<le> ?xs ! (?j + 1)"
    using cut_between [of ?xs p 100] True assms(2,3) by (auto simp: v)
  have "?j + 1 \<le> length (filter (\<lambda>x. x \<le> ?v) ?xs)" using c by (intro count_below) auto
  moreover have "length ?xs - (?j + 1) \<le> length (filter (\<lambda>x. ?v \<le> x) ?xs)" using c by (intro count_above) auto
  ultimately have le: "?j + 1 \<le> length (filter (\<lambda>x. x \<le> ?v) samples)" "?m - ?j \<le> length (filter (\<lambda>x. ?v \<le> x) samples)"
    by (simp_all add: filter_sort)
  have hundreds: "a \<le> 100 * (a div 100 + 1) \<and> 100 * b - a \<le> 100 * (b - a div 100)" for a b :: nat
  proof -
    obtain q r where "a div 100 = q" "a = 100 * q + r" "r < 100"
      by (metis mod_less_divisor mult_div_mod_eq zero_less_numeral)
    then show ?thesis by (simp add: diff_mult_distrib2)
  qed
  from hundreds [of "p * ?m" ?m]
  have "p * ?m \<le> 100 * (?j + 1)" "(100 - p) * ?m \<le> 100 * (?m - ?j)" by (simp_all only: diff_mult_distrib)
  with le show ?thesis by (meson le_trans mult_le_mono2)
next
  case False
  with assms(1) have "length samples = 1" by (cases samples) (auto simp: not_le Suc_le_eq)
  then show ?thesis by simp
qed

lemma percentile_mono:
  assumes "samples \<noteq> []" "1 \<le> p" "p \<le> q" "q < 100"
  shows "percentile samples p \<le> percentile samples q"
proof (cases "2 \<le> length samples")
  case True
  then show ?thesis using cut_mono [of "sort samples" p q 100] assms
    by (auto simp: percentile_def split: list.split)
next
  case False
  with assms(1) have "length samples = 1" by (cases samples) (auto simp: not_le Suc_le_eq)
  then show ?thesis by (auto simp: percentile_def length_Suc_conv)
qed

lemma percentile_within:
  assumes "samples \<noteq> []" "1 \<le> p" "p < 100"
  shows "Min (set samples) \<le> percentile samples p \<and> percentile samples p \<le> Max (set samples)"
proof (cases "2 \<le> length samples")
  case True
  let ?xs = "sort samples" and ?j = "p * (length samples - 1) div 100"
  have "percentile samples p = quantiles 100 ?xs ! (p - 1)" using True by (auto simp: percentile_def split: list.split)
  then have "?j + 1 < length ?xs" "?xs ! ?j \<le> percentile samples p" "percentile samples p \<le> ?xs ! (?j + 1)"
    using cut_between [of ?xs p 100] True assms(2,3) by auto
  moreover from this(1) have "?xs ! ?j \<in> set samples" "?xs ! (?j + 1) \<in> set samples"
    by (metis Suc_eq_plus1 Suc_lessD nth_mem set_sort)+
  ultimately show ?thesis by (meson List.finite_set Max_ge Min_le order_trans)
next
  case False
  with assms(1) have "length samples = 1" by (cases samples) (auto simp: not_le Suc_le_eq)
  then show ?thesis by (auto simp: percentile_def length_Suc_conv)
qed

lemma request_loop_spec:
  "request_loop net k n = (r, k') \<Longrightarrow> case r of
     Inr ts \<Rightarrow> k' = k + n \<and> map Took ts = map net [k..<k + n]
   | Inl x \<Rightarrow> k < k' \<and> k' \<le> k + n \<and> (\<forall>i\<in>{k..<k' - 1}. \<exists>t. net i = Took t) \<and>
       (case x of ExitOne \<Rightarrow> \<exists>m. net (k' - 1) = UrlError m | Uncaught e \<Rightarrow> net (k' - 1) = Raises e)"
proof (induction n arbitrary: k r k')
  case (Suc n)
  show ?case
  proof (cases "net k")
    case (Took t)
    obtain q l where rest: "request_loop net (k + 1) n = (q, l)" by fastforce
    note ih = Suc.IH [OF rest]
    show ?thesis
    proof (cases q)
      case (Inl x)
      with Suc.prems rest Took have "r = Inl x" "k' = l" by auto
      with ih Inl Took show ?thesis
        by (auto simp: Suc_le_eq)
    next
      case (Inr ts)
      with ih Suc.prems rest Took show ?thesis by (auto simp: upt_conv_Cons simp del: upt_Suc)
    qed
  qed (use Suc.prems in auto)
qed simp

lemma all_answered:
  assumes "map Took us = map net [0..<l]" "map Took ts = map net [l..<k]" "i < k"
  shows "\<exists>t. net i = Took t"
proof -
  have "net i \<in> set (map net [0..<l]) \<union> set (map net [l..<k])" using assms(3) by (cases "i < l") auto
  then show ?thesis unfolding assms(1,2) [symmetric] by auto
qed

lemma perf_row:
  assumes "perf_main a sha chars net = (r, k)" "request_loop net 0 (nat (pa_warmup a)) = (Inr us, l)"
    "request_loop net l (nat (pa_runs a)) = (Inr ts, l')" "ts \<noteq> []"
  obtains row where "r = Inr row" "k = l'" "pr_p50 row = percentile ts 50" "pr_p95 row = percentile ts 95"
    "pr_min row = Min (set ts)" "pr_max row = Max (set ts)"
  using assms by (cases ts) (auto simp: perf_main_def simp flip: Min.set_eq_fold Max.set_eq_fold)

text \<open>
  The baseline report measures what it says. A run that ends with a row made all the warm-up and measured requests,
  each of which was answered; the minimum, the median, the 95th percentile and the maximum are in this order, and each percentile
  has its rank among the measured times. A run ends without a row only at a request that failed, the last it
  made, or when no measured run was asked for.
\<close>

theorem perf_report_sound:
  assumes "perf_main a sha chars net = (r, k)"
  shows "case r of
      Inr row \<Rightarrow> \<exists>ts. ts \<noteq> [] \<and> map Took ts = map net [nat (pa_warmup a)..<k] \<and> k = nat (pa_warmup a) + nat (pa_runs a) \<and>
        (\<forall>i<k. \<exists>t. net i = Took t) \<and> pr_min row = Min (set ts) \<and> pr_max row = Max (set ts) \<and>
        pr_min row \<le> pr_p50 row \<and> pr_p50 row \<le> pr_p95 row \<and> pr_p95 row \<le> pr_max row \<and>
        50 * (length ts - 1) \<le> 100 * length (filter (\<lambda>t. t \<le> pr_p50 row) ts) \<and>
        95 * (length ts - 1) \<le> 100 * length (filter (\<lambda>t. t \<le> pr_p95 row) ts)
    | Inl x \<Rightarrow> (0 < k \<and> (\<exists>m. net (k - 1) = UrlError m) \<and> x = ExitOne) \<or> (\<exists>e. 0 < k \<and> net (k - 1) = Raises e \<and> x = Uncaught e) \<or>
        pa_runs a \<le> 0 \<and> (\<exists>m. x = Uncaught (ValueErr m))"
proof -
  obtain w l where w: "request_loop net 0 (nat (pa_warmup a)) = (w, l)" by fastforce
  obtain s l' where s: "request_loop net l (nat (pa_runs a)) = (s, l')" by fastforce
  note warm = request_loop_spec [OF w] and runs = request_loop_spec [OF s]
  show ?thesis
  proof (cases w)
    case (Inl x)
    with assms w have "r = Inl x" "k = l" by (simp_all add: perf_main_def)
    with warm Inl show ?thesis by (auto split: stop.splits)
  next
    case warmed: (Inr us)
    show ?thesis
    proof (cases s)
      case (Inl x)
      with assms w s warmed have "r = Inl x" "k = l'" by (simp_all add: perf_main_def)
      with runs Inl show ?thesis by (auto split: stop.splits)
    next
      case (Inr ts)
      show ?thesis
      proof (cases "ts = []")
        case True
        with assms w s warmed Inr have "r = Inl (Uncaught (ValueErr ''min() arg is an empty sequence''))"
          by (simp add: perf_main_def)
        with runs Inr True show ?thesis by auto
      next
        case False
        obtain row where row: "r = Inr row" "k = l'" "pr_p50 row = percentile ts 50" "pr_p95 row = percentile ts 95"
            "pr_min row = Min (set ts)" "pr_max row = Max (set ts)"
          using assms w [unfolded warmed] s [unfolded Inr] False by (rule perf_row)
        have net: "l = nat (pa_warmup a)" "map Took us = map net [0..<l]" "map Took ts = map net [l..<k]" "k = l + nat (pa_runs a)"
          using warm runs warmed Inr row(2) by auto
        note all_answered [OF net(2,3)] False percentile_within [OF False, of 50] percentile_within [OF False, of 95]
          percentile_mono [OF False, of 50 95] percentile_rank [OF False, of 50] percentile_rank [OF False, of 95]
        then show ?thesis using net unfolding row(1) by (auto simp: row simp del: upt_Suc)
      qed
    qed
  qed
qed

text \<open>One warm-up, then two runs of one and three seconds: the median is two.\<close>

theorem perf_report_sound_witness:
  "\<exists>row. perf_main \<lparr>pa_endpoint = ''rich'', pa_voice = ''mario'', pa_runs = 2, pa_warmup = 1\<rparr> ''abc'' 10
     (\<lambda>i. if i = 1 then Took 3 else Took 1) = (Inr row, 3) \<and> pr_min row \<le> pr_p50 row \<and> pr_p95 row \<le> pr_max row"
proof -
  let ?run = "perf_main \<lparr>pa_endpoint = ''rich'', pa_voice = ''mario'', pa_runs = 2, pa_warmup = 1\<rparr> ''abc'' 10
     (\<lambda>i. if i = 1 then Took 3 else Took 1)"
  obtain row where "?run = (Inr row, 3)"
    by (simp add: perf_main_def numeral_2_eq_2 numeral_3_eq_3)
  with perf_report_sound [OF this] show ?thesis by auto
qed

end
