(* ===== verification/VoicePrograms.thy ===== *)
theory VoicePrograms
  imports VoicesRouter SeedIngestion
begin

text \<open>
  The handlers of \<open>routers/voices.py\<close> and the pass of \<open>voice_store/seed_ingestion.py\<close> as programs: the next operation of a
  repository and what is done with its result. A program that runs alone is the handler, or the pass. Then what each program
  may do to the stores, whoever else uses them: by recursion over programs, proved for each step inside the locales of the
  protocols.
\<close>

subsection \<open>Handlers as programs\<close>

datatype reply = VoiceReply "voice_response res" | PlainReply "response res" | ListReply "voice_summary list res" | SeedReply "nat res"

datatype program =
    Finish reply
  | ListAll "voice_record list res \<Rightarrow> program"
  | Get string "voice_record res \<Rightarrow> program"
  | Exists string "bool res \<Rightarrow> program"
  | Create voice_record "voice_record res \<Rightarrow> program"
  | Update voice_record "voice_record res \<Rightarrow> program"
  | Delete string "unit res \<Rightarrow> program"
  | PutBlob string bytes "unit res \<Rightarrow> program"
  | GetBlob string "bytes res \<Rightarrow> program"
  | ExistsBlob string "bool res \<Rightarrow> program"
  | DeleteBlob string "unit res \<Rightarrow> program"

definition list_program :: program where
  "list_program = ListAll (\<lambda>r. Finish (ListReply (bindE r (res_map record_to_summary))))"

definition create_program :: "pydantic \<Rightarrow> nat \<Rightarrow> datetime \<Rightarrow> string + json \<Rightarrow> upload \<Rightarrow> program" where
  "create_program P max_bytes now metadata audio =
     (case parse_metadata_json (voice_create_model P) metadata of
        Inl e \<Rightarrow> Finish (VoiceReply (Inl e))
      | Inr (vid, p) \<Rightarrow>
          if \<not> vp_consent p then Finish (VoiceReply (Inl consent_required))
          else (case read_audio_validated audio max_bytes of
              Inl e \<Rightarrow> Finish (VoiceReply (Inl e))
            | Inr data \<Rightarrow> Create (new_record vid p (JStr ''crud'') now now) (\<lambda>r. case r of
                  Inl (VoiceAlreadyExists _) \<Rightarrow> Finish (VoiceReply (Inl (invalid_request_with
                    (''voice id '' @ repr_str vid @ '' already exists'') (Some ''id'') ''voice_id_exists'' 409)))
                | Inl (VoiceIdInvalid m) \<Rightarrow>
                    Finish (VoiceReply (Inl (invalid_request_code m (Some ''id'') ''invalid_parameter'')))
                | Inl e \<Rightarrow> Finish (VoiceReply (Inl e))
                | Inr created \<Rightarrow> PutBlob vid data (\<lambda>q. case q of
                    Inl e \<Rightarrow> if is_exception e then Delete vid (\<lambda>_. Finish (VoiceReply (Inl e))) else Finish (VoiceReply (Inl e))
                  | Inr _ \<Rightarrow> Finish (VoiceReply (record_to_response created))))))"

definition get_program :: "string \<Rightarrow> program" where
  "get_program v = (case check_path_id v of
       Inl e \<Rightarrow> Finish (VoiceReply (Inl e))
     | Inr _ \<Rightarrow> Get v (\<lambda>r. Finish (VoiceReply (case r of
           Inl e \<Rightarrow> Inl (map_not_found (voice_not_found v) e)
         | Inr x \<Rightarrow> record_to_response x))))"

definition audio_program :: "(bytes \<Rightarrow> string) \<Rightarrow> string \<Rightarrow> program" where
  "audio_program sha256 v = (case check_path_id v of
       Inl e \<Rightarrow> Finish (PlainReply (Inl e))
     | Inr _ \<Rightarrow> Get v (\<lambda>r. case r of
         Inl e \<Rightarrow> Finish (PlainReply (Inl (map_not_found (voice_not_found v) e)))
       | Inr x \<Rightarrow> GetBlob v (\<lambda>q. Finish (PlainReply (case q of
             Inl e \<Rightarrow> Inl (map_not_found (voice_error ''voice_blob_missing'' (''audio for voice '' @ repr_str v @ '' not found'') 404 None) e)
           | Inr data \<Rightarrow> audio_response sha256 x data)))))"

definition update_tail :: "datetime \<Rightarrow> voice_record \<Rightarrow> voice_payload \<Rightarrow> program" where
  "update_tail now existing p =
     Update (new_record (vr_id existing) p (vr_source existing) (vr_created_at existing) now)
       (\<lambda>r. Finish (VoiceReply (bindE r record_to_response)))"

definition update_program :: "pydantic \<Rightarrow> nat \<Rightarrow> datetime \<Rightarrow> string \<Rightarrow> string + json \<Rightarrow> upload option \<Rightarrow> program" where
  "update_program P max_bytes now v metadata audio = (case check_path_id v of
       Inl e \<Rightarrow> Finish (VoiceReply (Inl e))
     | Inr _ \<Rightarrow> (case parse_metadata_json (voice_update_model P) metadata of
         Inl e \<Rightarrow> Finish (VoiceReply (Inl e))
       | Inr p \<Rightarrow>
           if \<not> vp_consent p then Finish (VoiceReply (Inl consent_required))
           else Get v (\<lambda>r. case r of
               Inl e \<Rightarrow> Finish (VoiceReply (Inl (map_not_found (voice_not_found v) e)))
             | Inr existing \<Rightarrow> (case uploaded_blob audio max_bytes of
                 Inl e \<Rightarrow> Finish (VoiceReply (Inl e))
               | Inr None \<Rightarrow> update_tail now existing p
               | Inr (Some d) \<Rightarrow> PutBlob v d (\<lambda>q. case q of
                   Inl e \<Rightarrow> Finish (VoiceReply (Inl e))
                 | Inr _ \<Rightarrow> update_tail now existing p)))))"

definition no_content :: reply where
  "no_content = PlainReply (Inr \<lparr>resp_status = 204, resp_headers = [], resp_body = EmptyBody\<rparr>)"

fun blob_deleted :: "unit res \<Rightarrow> program" where
  "blob_deleted (Inl (VoiceNotFound _)) = Finish no_content"
| "blob_deleted (Inl e) = Finish (PlainReply (Inl e))"
| "blob_deleted (Inr _) = Finish no_content"

fun delete_audio :: "string \<Rightarrow> bool res \<Rightarrow> program" where
  "delete_audio v (Inl (VoiceNotFound _)) = Finish no_content"
| "delete_audio v (Inl e) = Finish (PlainReply (Inl e))"
| "delete_audio v (Inr found) = (if found then DeleteBlob v blob_deleted else Finish no_content)"

definition delete_program :: "string \<Rightarrow> program" where
  "delete_program v = (case check_path_id v of
       Inl e \<Rightarrow> Finish (PlainReply (Inl e))
     | Inr _ \<Rightarrow> Delete v (\<lambda>r. case r of
         Inl e \<Rightarrow> Finish (PlainReply (Inl (map_not_found (voice_not_found v) e)))
       | Inr _ \<Rightarrow> ExistsBlob v (delete_audio v)))"

fun voice_program :: "pydantic \<Rightarrow> (bytes \<Rightarrow> string) \<Rightarrow> nat \<Rightarrow> datetime \<Rightarrow> voice_request \<Rightarrow> program" where
  "voice_program P sha n now ListVoices = list_program"
| "voice_program P sha n now (CreateVoice m a) = create_program P n now m a"
| "voice_program P sha n now (GetVoice v) = get_program v"
| "voice_program P sha n now (GetVoiceAudio v) = audio_program sha v"
| "voice_program P sha n now (UpdateVoice v m a) = update_program P n now v m a"
| "voice_program P sha n now (DeleteVoice v) = delete_program v"

text \<open>One operation, and a program run alone to its end.\<close>

fun program_step :: "'s metadata_ops \<Rightarrow> 'b blob_ops \<Rightarrow> datetime \<Rightarrow> program \<Rightarrow> 's \<times> 'b \<Rightarrow> program \<times> ('s \<times> 'b)" where
  "program_step repo blobs now (Finish r) st = (Finish r, st)"
| "program_step repo blobs now (ListAll k) (s, b) = (case m_list repo now s of (r, s1) \<Rightarrow> (k r, (s1, b)))"
| "program_step repo blobs now (Get v k) (s, b) = (case m_get repo now v s of (r, s1) \<Rightarrow> (k r, (s1, b)))"
| "program_step repo blobs now (Exists v k) (s, b) = (case m_exists repo now v s of (r, s1) \<Rightarrow> (k r, (s1, b)))"
| "program_step repo blobs now (Create x k) (s, b) = (case m_create repo now x s of (r, s1) \<Rightarrow> (k r, (s1, b)))"
| "program_step repo blobs now (Update x k) (s, b) = (case m_update repo now x s of (r, s1) \<Rightarrow> (k r, (s1, b)))"
| "program_step repo blobs now (Delete v k) (s, b) = (case m_delete repo now v s of (r, s1) \<Rightarrow> (k r, (s1, b)))"
| "program_step repo blobs now (PutBlob v d k) (s, b) = (case b_put blobs v d b of (r, b1) \<Rightarrow> (k r, (s, b1)))"
| "program_step repo blobs now (GetBlob v k) (s, b) = (case b_get blobs v b of (r, b1) \<Rightarrow> (k r, (s, b1)))"
| "program_step repo blobs now (ExistsBlob v k) (s, b) = (case b_exists blobs v b of (r, b1) \<Rightarrow> (k r, (s, b1)))"
| "program_step repo blobs now (DeleteBlob v k) (s, b) = (case b_delete blobs v b of (r, b1) \<Rightarrow> (k r, (s, b1)))"

primrec run_program :: "'s metadata_ops \<Rightarrow> 'b blob_ops \<Rightarrow> datetime \<Rightarrow> program \<Rightarrow> 's \<times> 'b \<Rightarrow> reply \<times> ('s \<times> 'b)" where
  "run_program repo blobs now (Finish r) = (\<lambda>st. (r, st))"
| "run_program repo blobs now (ListAll k) = (\<lambda>(s, b). case m_list repo now s of (r, s1) \<Rightarrow> run_program repo blobs now (k r) (s1, b))"
| "run_program repo blobs now (Get v k) = (\<lambda>(s, b). case m_get repo now v s of (r, s1) \<Rightarrow> run_program repo blobs now (k r) (s1, b))"
| "run_program repo blobs now (Exists v k) = (\<lambda>(s, b). case m_exists repo now v s of (r, s1) \<Rightarrow> run_program repo blobs now (k r) (s1, b))"
| "run_program repo blobs now (Create x k) = (\<lambda>(s, b). case m_create repo now x s of (r, s1) \<Rightarrow> run_program repo blobs now (k r) (s1, b))"
| "run_program repo blobs now (Update x k) = (\<lambda>(s, b). case m_update repo now x s of (r, s1) \<Rightarrow> run_program repo blobs now (k r) (s1, b))"
| "run_program repo blobs now (Delete v k) = (\<lambda>(s, b). case m_delete repo now v s of (r, s1) \<Rightarrow> run_program repo blobs now (k r) (s1, b))"
| "run_program repo blobs now (PutBlob v d k) = (\<lambda>(s, b). case b_put blobs v d b of (r, b1) \<Rightarrow> run_program repo blobs now (k r) (s, b1))"
| "run_program repo blobs now (GetBlob v k) = (\<lambda>(s, b). case b_get blobs v b of (r, b1) \<Rightarrow> run_program repo blobs now (k r) (s, b1))"
| "run_program repo blobs now (ExistsBlob v k) = (\<lambda>(s, b). case b_exists blobs v b of (r, b1) \<Rightarrow> run_program repo blobs now (k r) (s, b1))"
| "run_program repo blobs now (DeleteBlob v k) = (\<lambda>(s, b). case b_delete blobs v b of (r, b1) \<Rightarrow> run_program repo blobs now (k r) (s, b1))"

lemma run_program_step:
  "run_program repo blobs now p st = (case program_step repo blobs now p st of (p', st') \<Rightarrow> run_program repo blobs now p' st')"
  by (cases p; cases st) (simp_all split: prod.split)

fun voice_handler :: "pydantic \<Rightarrow> (bytes \<Rightarrow> string) \<Rightarrow> nat \<Rightarrow> 's metadata_ops \<Rightarrow> 'b blob_ops \<Rightarrow> datetime \<Rightarrow> voice_request \<Rightarrow> 's \<times> 'b \<Rightarrow>
    reply \<times> ('s \<times> 'b)" where
  "voice_handler P sha n repo blobs now ListVoices (s, b) = (case list_voices repo now s of (r, s1) \<Rightarrow> (ListReply r, (s1, b)))"
| "voice_handler P sha n repo blobs now (CreateVoice m a) st = map_prod VoiceReply id (create_voice P repo blobs n now m a st)"
| "voice_handler P sha n repo blobs now (GetVoice v) (s, b) = (case get_voice repo now v s of (r, s1) \<Rightarrow> (VoiceReply r, (s1, b)))"
| "voice_handler P sha n repo blobs now (GetVoiceAudio v) st = map_prod PlainReply id (get_voice_audio sha repo blobs now v st)"
| "voice_handler P sha n repo blobs now (UpdateVoice v m a) st = map_prod VoiceReply id (update_voice P repo blobs n now v m a st)"
| "voice_handler P sha n repo blobs now (DeleteVoice v) st = map_prod PlainReply id (delete_voice repo blobs now v st)"

lemma run_create:
  "run_program repo blobs now (create_program P n now m a) (s, b) = map_prod VoiceReply id (create_voice P repo blobs n now m a (s, b))"
proof (cases "parse_metadata_json (voice_create_model P) m")
  case (Inl e)
  then show ?thesis by (simp add: create_program_def create_voice_def)
next
  case (Inr vp)
  obtain v p where vp: "vp = (v, p)" by (cases vp)
  obtain r1 s1 where c: "m_create repo now (new_record v p (JStr ''crud'') now now) s = (r1, s1)" by fastforce
  show ?thesis
  proof (cases "vp_consent p")
    case True
    show ?thesis
    proof (cases "read_audio_validated a n")
      case (Inl e)
      with Inr vp True show ?thesis by (simp add: create_program_def create_voice_def)
    next
      case data: (Inr data)
      obtain r2 b1 where q: "b_put blobs v data b = (r2, b1)" by fastforce
      show ?thesis
        using Inr vp True data c q
        by (cases r1; cases r2) (auto simp: create_program_def create_voice_def split: py_exc.split prod.split)
    qed
  qed (use Inr vp in \<open>simp add: create_program_def create_voice_def\<close>)
qed

lemma run_update_tail:
  "run_program repo blobs now (update_tail now x p) (s, b) = (case update_record repo now x p s of (r, s1) \<Rightarrow> (VoiceReply r, (s1, b)))"
  by (auto simp: update_tail_def update_record_def split: prod.split sum.split)

lemma run_update:
  "run_program repo blobs now (update_program P n now v m a) (s, b) = map_prod VoiceReply id (update_voice P repo blobs n now v m a (s, b))"
  by (auto simp: update_program_def update_voice_def put_optional_def run_update_tail split: sum.split prod.split option.split)

lemma run_delete:
  "run_program repo blobs now (delete_program v) (s, b) = map_prod PlainReply id (delete_voice repo blobs now v (s, b))"
  by (auto simp: delete_program_def delete_voice_def no_content_def Let_def split: sum.split prod.split bool.split py_exc.split)


subsection \<open>The pass over the seed file\<close>

fun ingest_program :: "(string \<Rightarrow> audio_file) \<Rightarrow> datetime \<Rightarrow> parsed_seed_entry list \<Rightarrow> nat \<Rightarrow> program" where
  "ingest_program files now [] created = Finish (SeedReply (Inr created))"
| "ingest_program files now (e # es) created = Exists (se_voice_id e) (\<lambda>r. case r of
       Inl x \<Rightarrow> Finish (SeedReply (Inl x))
     | Inr True \<Rightarrow> ingest_program files now es created
     | Inr False \<Rightarrow> (case af_read (files (se_ref_audio_path e)) of
         Inl x \<Rightarrow> Finish (SeedReply (if is_os_error x then Inr created else Inl x))
       | Inr data \<Rightarrow> PutBlob (se_voice_id e) data (\<lambda>q. case q of
           Inl x \<Rightarrow> Finish (SeedReply (Inl x))
         | Inr _ \<Rightarrow> Create (seed_record e now) (\<lambda>c. case c of
             Inl x \<Rightarrow> Finish (SeedReply (Inl x))
           | Inr _ \<Rightarrow> ingest_program files now es (created + 1)))))"

fun seed_entries :: "(string \<Rightarrow> audio_file) \<Rightarrow> seed_file \<Rightarrow> parsed_seed_entry list res" where
  "seed_entries files SeedUnset = Inr []"
| "seed_entries files SeedAbsent = Inr []"
| "seed_entries files (SeedUnreadable e) = Inl e"
| "seed_entries files (SeedNotJson _) = Inr []"
| "seed_entries files (SeedJson j) = (case parse_and_validate files (Inr j) of Inl _ \<Rightarrow> Inr [] | Inr es \<Rightarrow> Inr es)"

definition seed_program :: "(string \<Rightarrow> audio_file) \<Rightarrow> datetime \<Rightarrow> seed_file \<Rightarrow> program" where
  "seed_program files now seed = (case seed_entries files seed of
       Inl e \<Rightarrow> Finish (SeedReply (Inl e))
     | Inr es \<Rightarrow> ingest_program files now es 0)"

lemma run_ingest:
  "run_program repo blobs now (ingest_program files now es created) st =
     (case ingest_entries repo blobs files now es created st of (r, st', logs) \<Rightarrow> (SeedReply r, st'))"
proof (induction es arbitrary: created st)
  case (Cons e es)
  obtain s b where "st = (s, b)" by (cases st)
  then show ?case by (auto simp: Cons.IH split: prod.split sum.split bool.split)
qed simp

text \<open>
  The program of a pass over the seed file is the pass: run alone over any two repositories, whatever fails, it returns
  and leaves what \<open>ingest_once\<close> does.
\<close>

theorem seed_program_is_pass:
  "run_program repo blobs now (seed_program files now seed) st =
     (case ingest_once repo blobs files now seed st of (r, st', logs) \<Rightarrow> (SeedReply r, st'))"
  by (cases seed) (auto simp: seed_program_def ingest_once_def Let_def run_ingest parse_and_validate_def split: sum.split json.split)

subsection \<open>Jobs\<close>

text \<open>What uses the stores: a request to an endpoint, or a pass of the ingestor; and the voices it is about, if it comes to use them.\<close>

datatype job = Request voice_request | SeedPass "string \<Rightarrow> audio_file" seed_file

fun job_program :: "pydantic \<Rightarrow> (bytes \<Rightarrow> string) \<Rightarrow> nat \<Rightarrow> datetime \<Rightarrow> job \<Rightarrow> program" where
  "job_program P sha n now (Request rq) = voice_program P sha n now rq"
| "job_program P sha n now (SeedPass files seed) = seed_program files now seed"

fun request_target :: "pydantic \<Rightarrow> voice_request \<Rightarrow> string option" where
  "request_target P ListVoices = None"
| "request_target P (CreateVoice m a) = (case parse_metadata_json (voice_create_model P) m of Inl _ \<Rightarrow> None | Inr (v, _) \<Rightarrow> Some v)"
| "request_target P (GetVoice v) = (if voice_id_regex v then Some v else None)"
| "request_target P (GetVoiceAudio v) = (if voice_id_regex v then Some v else None)"
| "request_target P (UpdateVoice v m a) = (if voice_id_regex v then Some v else None)"
| "request_target P (DeleteVoice v) = (if voice_id_regex v then Some v else None)"

fun job_targets :: "pydantic \<Rightarrow> job \<Rightarrow> string set" where
  "job_targets P (Request rq) = set_option (request_target P rq)"
| "job_targets P (SeedPass files seed) = (case seed_entries files seed of Inl _ \<Rightarrow> {} | Inr es \<Rightarrow> se_voice_id ` set es)"

subsection \<open>What a program may do\<close>

text \<open>
  \<open>formed\<close>: ids are valid and records can be stored. \<open>settles V p m b\<close>: \<open>p\<close> uses no voices but those of \<open>V\<close>, and if nobody else
  touches them, which have records as in \<open>m\<close> and audio as in \<open>b\<close>, each has audio when \<open>p\<close> ends if it then has a record;
  an operation that deletes a record fails only when there is none.
\<close>

primrec formed :: "(datetime \<Rightarrow> bool) \<Rightarrow> program \<Rightarrow> bool" where
  "formed stamp (Finish r) = True"
| "formed stamp (ListAll k) = (\<forall>r. formed stamp (k r))"
| "formed stamp (Get v k) = (voice_id_regex v \<and> (\<forall>r. (\<forall>x. r = Inr x \<longrightarrow> vr_id x = v \<and> storable_at stamp x) \<longrightarrow> formed stamp (k r)))"
| "formed stamp (Exists v k) = (voice_id_regex v \<and> (\<forall>r. formed stamp (k r)))"
| "formed stamp (Create x k) = (storable_at stamp x \<and> (\<forall>r. formed stamp (k r)))"
| "formed stamp (Update x k) = (storable_at stamp x \<and> (\<forall>r. formed stamp (k r)))"
| "formed stamp (Delete v k) = (voice_id_regex v \<and> (\<forall>r. formed stamp (k r)))"
| "formed stamp (PutBlob v d k) = (voice_id_regex v \<and> (\<forall>r. formed stamp (k r)))"
| "formed stamp (GetBlob v k) = (voice_id_regex v \<and> (\<forall>r. formed stamp (k r)))"
| "formed stamp (ExistsBlob v k) = (voice_id_regex v \<and> (\<forall>r. formed stamp (k r)))"
| "formed stamp (DeleteBlob v k) = (voice_id_regex v \<and> (\<forall>r. formed stamp (k r)))"

primrec settles :: "string set \<Rightarrow> program \<Rightarrow> (string \<Rightarrow> bool) \<Rightarrow> (string \<Rightarrow> bool) \<Rightarrow> bool" where
  "settles V (Finish r) m b = (\<forall>v\<in>V. m v \<longrightarrow> b v)"
| "settles V (ListAll k) m b = (\<forall>r. settles V (k r) m b)"
| "settles V (Get u k) m b = (u \<in> V \<and> (\<forall>r. (\<forall>x. r = Inr x \<longrightarrow> vr_id x = u) \<longrightarrow> settles V (k r) m b))"
| "settles V (Exists u k) m b = (u \<in> V \<and> settles V (k (Inr (m u))) m b \<and> (\<forall>e. settles V (k (Inl e)) m b))"
| "settles V (Create x k) m b = (vr_id x \<in> V \<and> (\<not> m (vr_id x) \<longrightarrow> settles V (k (Inr x)) (m(vr_id x := True)) b) \<and>
     (\<forall>e. settles V (k (Inl e)) m b))"
| "settles V (Update x k) m b = (vr_id x \<in> V \<and> (\<forall>r. settles V (k r) m b))"
| "settles V (Delete u k) m b = (u \<in> V \<and> (m u \<longrightarrow> settles V (k (Inr ())) (m(u := False)) b) \<and>
     (\<not> m u \<longrightarrow> (\<forall>e. settles V (k (Inl e)) m b)))"
| "settles V (PutBlob u d k) m b = (u \<in> V \<and> settles V (k (Inr ())) m (b(u := True)) \<and>
     (\<forall>e. is_exception e \<longrightarrow> settles V (k (Inl e)) m b))"
| "settles V (GetBlob u k) m b = (u \<in> V \<and> (\<forall>r. settles V (k r) m b))"
| "settles V (ExistsBlob u k) m b = (u \<in> V \<and> (\<forall>r. settles V (k r) m b))"
| "settles V (DeleteBlob u k) m b = (u \<in> V \<and> settles V (k (Inr ())) m (b(u := False)) \<and> (\<forall>e. settles V (k (Inl e)) m b))"

lemma settles_cong:
  "\<forall>v\<in>V. m v = m' v \<and> b v = b' v \<Longrightarrow> settles V p m b = settles V p m' b'"
proof (induction p arbitrary: m m' b b')
  case (Exists u k)
  show ?case
    using Exists.prems Exists.IH [OF rangeI Exists.prems] by auto
next
  case (Create x k)
  have "\<forall>v\<in>V. (m(vr_id x := True)) v = (m'(vr_id x := True)) v \<and> b v = b' v" using Create.prems by auto
  from Create.IH [OF rangeI this] Create.IH [OF rangeI Create.prems] Create.prems show ?case by (auto simp del: fun_upd_apply)
next
  case (Delete u k)
  have "\<forall>v\<in>V. (m(u := False)) v = (m'(u := False)) v \<and> b v = b' v" using Delete.prems by auto
  from Delete.IH [OF rangeI this] Delete.IH [OF rangeI Delete.prems] Delete.prems show ?case by (auto simp del: fun_upd_apply)
next
  case (PutBlob u d k)
  have "\<forall>v\<in>V. m v = m' v \<and> (b(u := True)) v = (b'(u := True)) v" using PutBlob.prems by auto
  from PutBlob.IH [OF rangeI this] PutBlob.IH [OF rangeI PutBlob.prems] show ?case by (auto simp del: fun_upd_apply)
next
  case (DeleteBlob u k)
  have "\<forall>v\<in>V. m v = m' v \<and> (b(u := False)) v = (b'(u := False)) v" using DeleteBlob.prems by auto
  from DeleteBlob.IH [OF rangeI this] DeleteBlob.IH [OF rangeI DeleteBlob.prems] show ?case by (auto simp del: fun_upd_apply)
next
  case (ListAll k)
  from ListAll.IH [OF rangeI ListAll.prems] show ?case by auto
next
  case (Get u k)
  from Get.IH [OF rangeI Get.prems] show ?case by auto
next
  case (Update x k)
  from Update.IH [OF rangeI Update.prems] show ?case by auto
next
  case (GetBlob u k)
  from GetBlob.IH [OF rangeI GetBlob.prems] show ?case by auto
next
  case (ExistsBlob u k)
  from ExistsBlob.IH [OF rangeI ExistsBlob.prems] show ?case by auto
qed auto

definition has :: "(string \<Rightarrow> 'a option) \<Rightarrow> string \<Rightarrow> bool" where
  "has f = (\<lambda>v. f v \<noteq> None)"

lemma has_simps [simp]: "has (f(u \<mapsto> x)) = (has f)(u := True)" "has (f(u := None)) = (has f)(u := False)" "has f v \<longleftrightarrow> f v \<noteq> None"
  by (auto simp: has_def)

lemma backend_failure_exception: "backend_failure e \<Longrightarrow> is_exception e"
  by (cases e) auto

context voice_store
begin

lemma step_formed:
  assumes "inv s" "binv b" "formed stamp p" "program_step repo blobs now p (s, b) = (p', (s', b'))"
  shows "inv s' \<and> binv b' \<and> formed stamp p'"
proof (cases p)
  case (Get v k)
  then obtain r where r: "m_get repo now v s = (r, s')" "p' = k r" "b' = b" using assms(4) by (auto split: prod.splits)
  have "voice_id_regex v" using assms(3) Get by simp
  note ok = get_ok [OF assms(1) r(1) this]
  with abs_id [OF assms(1)] have "\<forall>x. r = Inr x \<longrightarrow> vr_id x = v \<and> storable_at stamp x" by auto
  with ok assms(2,3) r Get show ?thesis by simp
next
  case (ListAll k)
  with assms show ?thesis by (auto split: prod.splits dest: list_ok)
next
  case (Exists v k)
  with assms show ?thesis by (auto split: prod.splits dest: exists_ok)
next
  case (Create x k)
  with assms show ?thesis by (auto split: prod.splits dest: create_ok)
next
  case (Update x k)
  with assms show ?thesis by (auto split: prod.splits dest: update_ok)
next
  case (Delete v k)
  with assms show ?thesis by (auto split: prod.splits dest: delete_ok)
next
  case (PutBlob v d k)
  with assms show ?thesis by (auto split: prod.splits dest: put_ok)
next
  case (GetBlob v k)
  with assms show ?thesis by (auto split: prod.splits dest: bget_ok)
next
  case (ExistsBlob v k)
  with assms show ?thesis by (auto split: prod.splits dest: bexists_ok)
next
  case (DeleteBlob v k)
  with assms show ?thesis by (auto split: prod.splits dest: bdelete_ok)
qed (use assms in auto)

end

text \<open>Stores whose deletions work: a record that is there is removed.\<close>

locale reliable_store = voice_store repo inv abs stamp blobs binv babs
  for repo :: "'s metadata_ops" and inv :: "'s \<Rightarrow> bool" and abs :: "'s \<Rightarrow> string \<Rightarrow> voice_record option"
    and stamp :: "datetime \<Rightarrow> bool"
    and blobs :: "'b blob_ops" and binv :: "'b \<Rightarrow> bool" and babs :: "'b \<Rightarrow> string \<Rightarrow> bytes option" +
  assumes delete_works: "\<And>now v s e s'. inv s \<Longrightarrow> voice_id_regex v \<Longrightarrow> m_delete repo now v s = (Inl e, s') \<Longrightarrow> abs s v = None"
begin

lemma step_settles:
  assumes i: "inv s" "binv b" and f: "formed stamp p" and q: "settles V p (has (abs s)) (has (babs b))"
    and run: "program_step repo blobs now p (s, b) = (p', (s', b'))"
  shows "settles V p' (has (abs s')) (has (babs b')) \<and> (\<forall>u. u \<notin> V \<longrightarrow> abs s' u = abs s u \<and> babs b' u = babs b u)"
proof (cases p)
  case (ListAll k)
  with run q show ?thesis by (auto split: prod.splits dest: list_ok [OF i(1)])
next
  case (Get u k)
  then obtain r where r: "m_get repo now u s = (r, s')" "p' = k r" "b' = b" using run by (auto split: prod.splits)
  have "voice_id_regex u" using f Get by simp
  note ok = get_ok [OF i(1) r(1) this]
  with abs_id [OF i(1)] q Get have "\<forall>x. r = Inr x \<longrightarrow> vr_id x = u" by auto
  with ok q r Get show ?thesis by simp
next
  case (Exists u k)
  then obtain r where r: "m_exists repo now u s = (r, s')" "p' = k r" "b' = b" using run by (auto split: prod.splits)
  have "voice_id_regex u" using f Exists by simp
  with exists_ok [OF i(1) r(1) this] q r Exists show ?thesis by (cases r) auto
next
  case (Create x k)
  then obtain r where r: "m_create repo now x s = (r, s')" "p' = k r" "b' = b" using run by (auto split: prod.splits)
  from create_ok [OF i(1) r(1)] f q r Create show ?thesis by (cases r) auto
next
  case (Update x k)
  then obtain r where r: "m_update repo now x s = (r, s')" "p' = k r" "b' = b" using run by (auto split: prod.splits)
  have "storable_at stamp x" using f Update by simp
  note ok = update_ok [OF i(1) r(1) this]
  show ?thesis
  proof (cases r)
    case (Inr y)
    with ok have "has (abs s') = has (abs s)" "\<forall>u. u \<noteq> vr_id x \<longrightarrow> abs s' u = abs s u" by (auto simp: has_def)
    moreover from this(2) q Update have "abs s' u = abs s u" if "u \<notin> V" for u using that by (cases "u = vr_id x") auto
    ultimately show ?thesis using q r Update Inr by auto
  qed (use ok q r Update in auto)
next
  case (Delete u k)
  then obtain r where r: "m_delete repo now u s = (r, s')" "p' = k r" "b' = b" using run by (auto split: prod.splits)
  have v: "voice_id_regex u" using f Delete by auto
  from delete_ok [OF i(1) r(1) v] delete_works [OF i(1) v] q r Delete show ?thesis by (cases r) auto
next
  case (PutBlob u d k)
  then obtain r where r: "b_put blobs u d b = (r, b')" "p' = k r" "s' = s" using run by (auto split: prod.splits)
  have v: "voice_id_regex u" using f PutBlob by auto
  from put_ok [OF i(2) r(1) v] q r PutBlob show ?thesis by (cases r) (auto dest: backend_failure_exception)
next
  case (GetBlob u k)
  with run q f show ?thesis by (auto split: prod.splits dest: bget_ok [OF i(2)])
next
  case (ExistsBlob u k)
  with run q f show ?thesis by (auto split: prod.splits dest: bexists_ok [OF i(2)])
next
  case (DeleteBlob u k)
  then obtain r where r: "b_delete blobs u b = (r, b')" "p' = k r" "s' = s" using run by (auto split: prod.splits)
  have v: "voice_id_regex u" using f DeleteBlob by auto
  from bdelete_ok [OF i(2) r(1) v] q r DeleteBlob show ?thesis by (cases r) auto
qed (use run q in auto)

end

text \<open>The local stores, with a metadata disk that does not fail; the blobs may.\<close>

interpretation reliable: reliable_store "fs_metadata_repo L" "\<lambda>s. meta_inv L s \<and> mf_faults s = []" "meta_abs L" valid_datetime
    fs_blob_repo "\<lambda>_. True" blob_abs for L
proof
  fix now v e s s' r and x :: voice_record
  assume i: "meta_inv L s \<and> mf_faults s = []"
  show "m_list (fs_metadata_repo L) now s = (r, s') \<Longrightarrow> (meta_inv L s' \<and> mf_faults s' = []) \<and> meta_abs L s' = meta_abs L s \<and>
      (case r of Inr xs \<Rightarrow> set xs = ran (meta_abs L s) \<and> distinct xs | Inl e \<Rightarrow> backend_failure e)" for r
    using fsmeta.list_ok [of L s now r s'] i by (auto simp: fs_metadata_repo_sel fs_list_def)
  show "m_get (fs_metadata_repo L) now v s = (r, s') \<Longrightarrow> voice_id_regex v \<Longrightarrow> (meta_inv L s' \<and> mf_faults s' = []) \<and>
      meta_abs L s' = meta_abs L s \<and>
      (case r of Inr x \<Rightarrow> meta_abs L s v = Some x | Inl e \<Rightarrow> e = VoiceNotFound v \<and> meta_abs L s v = None \<or> backend_failure e)" for r
    using fsmeta.get_ok [of L s now v r s'] m_get_state [of L now v s r s'] i by simp
  show "m_exists (fs_metadata_repo L) now v s = (r, s') \<Longrightarrow> voice_id_regex v \<Longrightarrow> (meta_inv L s' \<and> mf_faults s' = []) \<and>
      meta_abs L s' = meta_abs L s \<and> (case r of Inr b \<Rightarrow> b = (meta_abs L s v \<noteq> None) | Inl e \<Rightarrow> backend_failure e)" for r
    using fsmeta.exists_ok [of L s now v r s'] i by (auto simp: fs_metadata_repo_sel fs_exists_def)
  show "m_create (fs_metadata_repo L) now x s = (r, s') \<Longrightarrow> storable x \<Longrightarrow> (meta_inv L s' \<and> mf_faults s' = []) \<and>
      (case r of Inr y \<Rightarrow> y = x \<and> meta_abs L s (vr_id x) = None \<and> meta_abs L s' = (meta_abs L s)(vr_id x \<mapsto> x)
       | Inl e \<Rightarrow> meta_abs L s' = meta_abs L s \<and>
          (e = VoiceAlreadyExists (vr_id x) \<and> meta_abs L s (vr_id x) \<noteq> None \<or> backend_failure e))" for r
    using fsmeta.create_ok [of L s now x r s'] fs_create_faults [of L now x s r s'] i by (simp add: fs_metadata_repo_sel)
  show "m_update (fs_metadata_repo L) now x s = (r, s') \<Longrightarrow> storable x \<Longrightarrow> (meta_inv L s' \<and> mf_faults s' = []) \<and>
      (case r of Inr y \<Rightarrow> y = x \<and> meta_abs L s (vr_id x) \<noteq> None \<and> meta_abs L s' = (meta_abs L s)(vr_id x \<mapsto> x)
       | Inl e \<Rightarrow> meta_abs L s' = meta_abs L s \<and>
          (e = VoiceNotFound (vr_id x) \<and> meta_abs L s (vr_id x) = None \<or> backend_failure e))" for r
    using fsmeta.update_ok [of L s now x r s'] fs_update_faults [of L now x s r s'] i by (simp add: fs_metadata_repo_sel)
  show "m_delete (fs_metadata_repo L) now v s = (r, s') \<Longrightarrow> voice_id_regex v \<Longrightarrow> (meta_inv L s' \<and> mf_faults s' = []) \<and>
      (case r of Inr _ \<Rightarrow> meta_abs L s v \<noteq> None \<and> meta_abs L s' = (meta_abs L s)(v := None)
       | Inl e \<Rightarrow> meta_abs L s' = meta_abs L s \<and> (e = VoiceNotFound v \<and> meta_abs L s v = None \<or> backend_failure e))" for r
    using fsmeta.delete_ok [of L s now v r s'] m_delete_faults [of L now v s r s'] i by simp
  show "voice_id_regex v \<Longrightarrow> m_delete (fs_metadata_repo L) now v s = (Inl e, s') \<Longrightarrow> meta_abs L s v = None"
    using fs_delete_no_fault [of L s v now e s'] fsmeta.delete_ok [of L s now v "Inl e" s'] i by (auto simp: fs_metadata_repo_sel)
qed (use fsmeta.get_invalid fsmeta.abs_id in blast)+

subsection \<open>What the handlers may do\<close>

lemma blob_deleted_finishes: "\<exists>a. blob_deleted q = Finish a"
  by (cases q rule: blob_deleted.cases) (simp_all add: no_content_def)

lemma delete_audio_cases: "(\<exists>a. delete_audio v r = Finish a) \<or> delete_audio v r = DeleteBlob v blob_deleted"
  by (cases "(v, r)" rule: delete_audio.cases) (simp_all add: no_content_def)

lemma delete_audio_formed: "voice_id_regex v \<Longrightarrow> formed stamp (delete_audio v r)"
  using delete_audio_cases [of v r] blob_deleted_finishes by (metis formed.simps)

lemma delete_audio_settles: "settles {v} (delete_audio v r) (m(v := False)) b"
  using delete_audio_cases [of v r] blob_deleted_finishes [of "Inl e" for e] blob_deleted_finishes [of "Inr ()"]
  by (auto; metis fun_upd_same settles.simps(1) singletonD)

lemma formed_program:
  assumes P: "pattern_law P" and now: "stamp now"
  shows "formed stamp (voice_program P sha n now rq)"
proof (cases rq)
  case (CreateVoice m a)
  show ?thesis
  proof (cases "parse_metadata_json (voice_create_model P) m")
    case (Inr vp)
    obtain v p where vp: "vp = (v, p)" by (cases vp)
    from parse_metadata_Inr [OF Inr] vp have "id_core v" using create_model_id [OF P] by blast
    then have v: "voice_id_regex v" by (rule id_core_regex)
    then have "storable_at stamp (new_record v p (JStr ''crud'') now now)"
      using now by (simp add: new_record_storable source_ok_def)
    with v show ?thesis
      by (auto simp: CreateVoice create_program_def Inr vp split: sum.split py_exc.split)
  qed (simp add: CreateVoice create_program_def)
next
  case (UpdateVoice v m a)
  have "formed stamp (update_tail now x p)" if "vr_id x = v" "storable_at stamp x" for x p
    using that now by (auto simp: update_tail_def storable_at_def new_record_def)
  then show ?thesis
    using check_path_id_cases [of v]
    by (auto simp: UpdateVoice update_program_def split: sum.split option.split)
next
  case (GetVoice v)
  then show ?thesis using check_path_id_cases [of v] by (auto simp: get_program_def)
next
  case (GetVoiceAudio v)
  then show ?thesis using check_path_id_cases [of v] by (auto simp: audio_program_def split: sum.split)
next
  case (DeleteVoice v)
  then show ?thesis using check_path_id_cases [of v]
    by (auto simp: delete_program_def delete_audio_formed split: sum.split)
qed (simp add: list_program_def)

lemma formed_ingest:
  "\<forall>e\<in>set es. entry_ok files e \<Longrightarrow> stamp now \<Longrightarrow> formed stamp (ingest_program files now es created)"
  by (induction es arbitrary: created)
    (auto simp: seed_record_storable entry_ok_def split: sum.split bool.split)

lemma seed_entries_ok: "seed_entries files seed = Inr es \<Longrightarrow> \<forall>e\<in>set es. entry_ok files e"
  by (cases seed) (auto split: sum.splits dest!: parse_and_validate_sound)

lemma formed_job:
  assumes "pattern_law P" "stamp now"
  shows "formed stamp (job_program P sha n now job)"
proof (cases job)
  case (Request rq)
  with formed_program [where stamp = stamp, OF assms] show ?thesis by simp
next
  case (SeedPass files seed)
  with assms(2) show ?thesis
    by (auto simp: seed_program_def seed_entries_ok intro!: formed_ingest split: sum.split)
qed

lemma update_tail_settles: "vr_id x = v \<Longrightarrow> (m v \<longrightarrow> b v) \<Longrightarrow> settles {v} (update_tail now x p) m b"
  by (simp add: update_tail_def)

lemma check_path_valid: "check_path_id v = Inr x \<Longrightarrow> voice_id_regex v"
  using check_path_id_cases [of v] by auto

lemma request_settles:
  assumes "request_target P rq = Some v" "m v \<longrightarrow> b v"
  shows "settles {v} (voice_program P sha n now rq) m b"
proof (cases rq)
  case (CreateVoice w a)
  then obtain p where "parse_metadata_json (voice_create_model P) w = Inr (v, p)"
    using assms(1) by (auto split: sum.splits)
  with assms(2) show ?thesis
    by (auto simp: CreateVoice create_program_def split: sum.split py_exc.split)
next
  case (UpdateVoice u w a)
  with assms check_path_id_cases [of u] show ?thesis
    by (auto simp: update_program_def intro: update_tail_settles split: sum.split option.split if_splits)
next
  case (GetVoice u)
  with assms check_path_id_cases [of u] show ?thesis by (auto simp: get_program_def split: if_splits)
next
  case (GetVoiceAudio u)
  with assms check_path_id_cases [of u] show ?thesis by (auto simp: audio_program_def split: if_splits sum.split)
next
  case (DeleteVoice u)
  with assms check_path_id_cases [of u] show ?thesis
    by (auto simp: delete_program_def delete_audio_settles split: if_splits sum.split)
qed (use assms in simp)

lemma request_without_target: "request_target P rq = None \<Longrightarrow> settles {} (voice_program P sha n now rq) m b"
proof (cases rq)
  case (CreateVoice w a)
  moreover assume "request_target P rq = None"
  ultimately show ?thesis by (auto simp: create_program_def split: sum.splits)
qed (auto simp: list_program_def get_program_def audio_program_def update_program_def delete_program_def
  split: if_splits sum.split dest: check_path_valid)

lemma ingest_settles:
  "se_voice_id ` set es \<subseteq> V \<Longrightarrow> \<forall>v\<in>V. m v \<longrightarrow> b v \<Longrightarrow> settles V (ingest_program files now es created) m b"
  by (induction es arbitrary: created m b) (auto split: sum.split bool.split)

lemma job_settles:
  assumes "\<forall>v\<in>job_targets P job. m v \<longrightarrow> b v"
  shows "settles (job_targets P job) (job_program P sha n now job) m b"
proof (cases job)
  case (Request rq)
  with assms request_settles [of P rq _ m b] request_without_target [of P rq] show ?thesis
    by (cases "request_target P rq") auto
next
  case (SeedPass files seed)
  with assms show ?thesis by (cases "seed_entries files seed") (auto simp: seed_program_def intro: ingest_settles)
qed

end
