(* ===== verification/VoiceInterleaving.thy ===== *)
theory VoiceInterleaving
  imports VoicePrograms RemoteStores
begin

text \<open>
  The voice endpoints of \<open>routers/voices.py\<close> and the pass of the seed ingestor when they overlap. Each operation of a
  repository is one step, and a program may be suspended wherever it awaits one. The state is the two stores and the
  program of each job in flight, and a step is an arrival or one operation of one of them.

  The operations of the local stores await nothing but a lock that is never held across a wait, so within one process their
  requests run one after the other; those of PostgreSQL and S3 wait for the network and do overlap. Each of these takes
  effect once, at its commit or its request to S3, which is where its step stands (\<open>S3BlobRepository.delete\<close> looks
  for the object first; looking and deleting are one step here).
\<close>

subsection \<open>Jobs in flight\<close>

record ('s, 'b) voices =
  vo_tasks :: "nat \<Rightarrow> string set \<times> program"
  vo_stores :: "'s \<times> 'b"

fun finished :: "program \<Rightarrow> bool" where
  "finished (Finish _) = True"
| "finished _ = False"

definition works_on :: "(nat \<Rightarrow> string set \<times> program) \<Rightarrow> nat \<Rightarrow> string \<Rightarrow> bool" where
  "works_on tasks t v \<longleftrightarrow> v \<in> fst (tasks t) \<and> \<not> finished (snd (tasks t))"

text \<open>
  The steps: a job arrives in a free slot, or the next operation of one of them is done. With \<open>excl\<close>, no job arrives
  for a voice while another works on it; the service does not see to that.
\<close>

inductive voice_step :: "pydantic \<Rightarrow> (bytes \<Rightarrow> string) \<Rightarrow> nat \<Rightarrow> 's metadata_ops \<Rightarrow> 'b blob_ops \<Rightarrow> (datetime \<Rightarrow> bool) \<Rightarrow> bool \<Rightarrow>
    ('s, 'b) voices \<Rightarrow> ('s, 'b) voices \<Rightarrow> bool"
  for P sha n repo blobs stamp excl where
  arrival: "finished (snd (vo_tasks c t)) \<Longrightarrow> stamp now \<Longrightarrow>
    (\<And>v t'. excl \<Longrightarrow> v \<in> job_targets P job \<Longrightarrow> \<not> works_on (vo_tasks c) t' v) \<Longrightarrow>
    voice_step P sha n repo blobs stamp excl c
      (c\<lparr>vo_tasks := (vo_tasks c)(t := (job_targets P job, job_program P sha n now job))\<rparr>)"
| operation: "vo_tasks c t = (w, p) \<Longrightarrow> \<not> finished p \<Longrightarrow> stamp now \<Longrightarrow> program_step repo blobs now p (vo_stores c) = (p', st) \<Longrightarrow>
    voice_step P sha n repo blobs stamp excl c (c\<lparr>vo_tasks := (vo_tasks c)(t := (w, p')), vo_stores := st\<rparr>)"

subsection \<open>Invariants of the interleavings\<close>

definition all_formed :: "('s \<Rightarrow> bool) \<Rightarrow> ('b \<Rightarrow> bool) \<Rightarrow> (datetime \<Rightarrow> bool) \<Rightarrow> ('s, 'b) voices \<Rightarrow> bool" where
  "all_formed iv bv stamp c \<longleftrightarrow> iv (fst (vo_stores c)) \<and> bv (snd (vo_stores c)) \<and> (\<forall>t. formed stamp (snd (vo_tasks c t)))"

text \<open>
  The voices a job works on will be settled when it ends, if left to it; no voice is worked on by two; a voice nobody works on is
  settled.
\<close>

definition ordered :: "('s \<Rightarrow> string \<Rightarrow> voice_record option) \<Rightarrow> ('b \<Rightarrow> string \<Rightarrow> bytes option) \<Rightarrow> ('s, 'b) voices \<Rightarrow> bool" where
  "ordered ab bb c \<longleftrightarrow>
     (\<forall>t. \<not> finished (snd (vo_tasks c t)) \<longrightarrow>
        settles (fst (vo_tasks c t)) (snd (vo_tasks c t)) (has (ab (fst (vo_stores c)))) (has (bb (snd (vo_stores c))))) \<and>
     (\<forall>t t' v. works_on (vo_tasks c) t v \<and> works_on (vo_tasks c) t' v \<longrightarrow> t = t') \<and>
     (\<forall>v. (\<forall>t. \<not> works_on (vo_tasks c) t v) \<longrightarrow> has (ab (fst (vo_stores c))) v \<longrightarrow> has (bb (snd (vo_stores c))) v)"

lemma finished_step: "finished p \<Longrightarrow> program_step repo blobs now p st = (p, st)"
  by (cases p) auto

context voice_store
begin

lemma voice_step_formed:
  assumes "pattern_law P" "voice_step P sha n repo blobs stamp excl c c'" "all_formed inv binv stamp c"
  shows "all_formed inv binv stamp c'"
  using assms(2)
proof cases
  case (arrival t now job)
  with assms(1,3) show ?thesis by (simp add: all_formed_def formed_job)
next
  case (operation t V p now p' st)
  obtain s b s' b' where st: "vo_stores c = (s, b)" "st = (s', b')" by (metis prod.exhaust)
  have "inv s" "binv b" "formed stamp p"
    using assms(3) operation(2) st by (auto simp: all_formed_def dest: spec [of _ t])
  from step_formed [OF this, of now] operation(1,5) assms(3) st show ?thesis by (auto simp: all_formed_def)
qed

end

lemma orderedD:
  assumes "ordered ab bb c"
  shows "\<not> finished (snd (vo_tasks c t)) \<Longrightarrow>
      settles (fst (vo_tasks c t)) (snd (vo_tasks c t)) (has (ab (fst (vo_stores c)))) (has (bb (snd (vo_stores c))))"
    and "works_on (vo_tasks c) t v \<Longrightarrow> works_on (vo_tasks c) t' v \<Longrightarrow> t = t'"
    and "\<forall>t. \<not> works_on (vo_tasks c) t v \<Longrightarrow> has (ab (fst (vo_stores c))) v \<Longrightarrow> has (bb (snd (vo_stores c))) v"
  using assms unfolding ordered_def by blast+

lemma orderedI:
  assumes "vo_tasks c = T" "vo_stores c = (s, b)"
    and "\<And>t. \<not> finished (snd (T t)) \<Longrightarrow> settles (fst (T t)) (snd (T t)) (has (ab s)) (has (bb b))"
    and "\<And>t t' v. works_on T t v \<Longrightarrow> works_on T t' v \<Longrightarrow> t = t'"
    and "\<And>v. \<forall>t. \<not> works_on T t v \<Longrightarrow> has (ab s) v \<Longrightarrow> has (bb b) v"
  shows "ordered ab bb c"
  unfolding ordered_def assms(1,2) fst_conv snd_conv using assms(3-5) by blast

lemma works_on_other: "t' \<noteq> t \<Longrightarrow> works_on (tasks(t := x)) t' v = works_on tasks t' v"
  by (simp add: works_on_def)

lemma works_on_same: "works_on (tasks(t := (w, p))) t v \<longleftrightarrow> v \<in> w \<and> \<not> finished p"
  by (simp add: works_on_def)

context reliable_store
begin

lemma arrival_ordered:
  assumes ord: "ordered abs babs c" and over: "finished (snd (vo_tasks c t))"
    and free: "\<And>v t'. v \<in> job_targets P job \<Longrightarrow> \<not> works_on (vo_tasks c) t' v"
  shows "ordered abs babs (c\<lparr>vo_tasks := (vo_tasks c)(t := (job_targets P job, job_program P sha n now job))\<rparr>)"
    (is "ordered abs babs (c\<lparr>vo_tasks := ?tasks\<rparr>)")
proof -
  note o = orderedD [OF ord]
  have idle: "\<not> works_on (vo_tasks c) t v" for v using over by (simp add: works_on_def)
  have mine: "v \<in> job_targets P job \<and> (\<forall>t'. \<not> works_on (vo_tasks c) t' v)" if "works_on ?tasks t v" for v
    using that free by (simp add: works_on_same)
  have "\<forall>v\<in>job_targets P job. has (abs (fst (vo_stores c))) v \<longrightarrow> has (babs (snd (vo_stores c))) v"
    using o(3) free by blast
  then have "settles (fst (?tasks t')) (snd (?tasks t')) (has (abs (fst (vo_stores c)))) (has (babs (snd (vo_stores c))))"
    if "\<not> finished (snd (?tasks t'))" for t'
    using that o(1) [of t'] job_settles by (cases "t' = t") simp_all
  moreover have "t1 = t2" if "works_on ?tasks t1 v" "works_on ?tasks t2 v" for t1 t2 v
    using that mine o(2) works_on_other by metis
  moreover have "has (babs (snd (vo_stores c))) v" if "\<forall>t'. \<not> works_on ?tasks t' v" "has (abs (fst (vo_stores c))) v" for v
    using that o(3) idle works_on_other by metis
  ultimately show ?thesis
    by - (rule orderedI [of _ ?tasks "fst (vo_stores c)" "snd (vo_stores c)"], simp (no_asm), simp (no_asm), blast+)
qed

lemma operation_ordered:
  assumes ord: "ordered abs babs c" and f: "inv s" "binv b" "formed stamp p" and t: "vo_tasks c t = (V, p)" "\<not> finished p"
    and stores: "vo_stores c = (s, b)" and run: "program_step repo blobs now p (s, b) = (p', (s', b'))"
  shows "ordered abs babs (c\<lparr>vo_tasks := (vo_tasks c)(t := (V, p')), vo_stores := (s', b')\<rparr>)"
    (is "ordered abs babs (c\<lparr>vo_tasks := ?tasks, vo_stores := _\<rparr>)")
proof -
  note o = orderedD [OF ord, unfolded stores fst_conv snd_conv]
  have mine: "works_on (vo_tasks c) t v \<longleftrightarrow> v \<in> V" for v using t by (simp add: works_on_def)
  have "settles V p (has (abs s)) (has (babs b))" using o(1) [of t] t by simp
  note step = step_settles [OF f this run]
  have apart: "v \<notin> V" if "t' \<noteq> t" "works_on (vo_tasks c) t' v" for t' v using that o(2) mine by blast
  have "settles (fst (?tasks t')) (snd (?tasks t')) (has (abs s')) (has (babs b'))" if r: "\<not> finished (snd (?tasks t'))" for t'
  proof (cases "t' = t")
    case True
    with step show ?thesis by simp
  next
    case False
    with r have "\<not> finished (snd (vo_tasks c t'))" by simp
    moreover have "\<forall>v\<in>fst (vo_tasks c t'). has (abs s') v = has (abs s) v \<and> has (babs b') v = has (babs b) v"
      using apart [OF False] step calculation by (simp add: works_on_def)
    then have "settles (fst (vo_tasks c t')) (snd (vo_tasks c t')) (has (abs s')) (has (babs b')) =
        settles (fst (vo_tasks c t')) (snd (vo_tasks c t')) (has (abs s)) (has (babs b))" by (rule settles_cong)
    ultimately show ?thesis using o(1) [of t'] False by simp
  qed
  moreover have "t1 = t2" if "works_on ?tasks t1 v" "works_on ?tasks t2 v" for t1 t2 v
    using that apart o(2) works_on_other works_on_same by metis
  moreover have "has (babs b') v" if n: "\<forall>t'. \<not> works_on ?tasks t' v" and m: "has (abs s') v" for v
  proof (cases "v \<in> V")
    case True
    with n have "finished p'" using works_on_same by metis
    then obtain r where "p' = Finish r" by (cases p') auto
    with step m True show ?thesis by simp
  next
    case False
    have "\<not> works_on (vo_tasks c) t' v" for t'
      using spec [OF n, of t'] False t by (cases "t' = t") (simp_all add: works_on_other, simp add: works_on_def)
    with m False step o(3) show ?thesis by simp
  qed
  ultimately show ?thesis by - (rule orderedI [of _ ?tasks s' b'], simp (no_asm), simp (no_asm), blast+)
qed

lemma voice_step_ordered:
  assumes "voice_step P sha n repo blobs stamp True c c'" "all_formed inv binv stamp c" "ordered abs babs c"
  shows "ordered abs babs c'"
  using assms(1)
proof cases
  case (arrival t now job)
  then show ?thesis using arrival_ordered [OF assms(3)] by simp
next
  case (operation t V p now p' st)
  obtain s b s' b' where st: "vo_stores c = (s, b)" "st = (s', b')" by (metis prod.exhaust)
  have f: "inv s" "binv b" "formed stamp p"
    using assms(2) operation(2) st by (auto simp: all_formed_def dest: spec [of _ t])
  show ?thesis
    using operation_ordered [OF assms(3) f] operation st by auto
qed

end

text \<open>Any number of steps, from a state where no request is in flight.\<close>

context voice_store
begin

lemma voice_steps_formed:
  assumes "pattern_law P" "(voice_step P sha n repo blobs stamp excl)\<^sup>*\<^sup>* c c'" "all_formed inv binv stamp c"
  shows "all_formed inv binv stamp c'"
  using assms(2,3) by (induction rule: rtranclp_induct) (auto intro: voice_step_formed [OF assms(1)])

lemma idle_formed:
  "inv (fst (vo_stores c)) \<Longrightarrow> binv (snd (vo_stores c)) \<Longrightarrow> \<forall>t. finished (snd (vo_tasks c t)) \<Longrightarrow> all_formed inv binv stamp c"
  unfolding all_formed_def by (metis finished.elims(2) formed.simps(1))

end

context reliable_store
begin

lemma voice_steps_ordered:
  assumes P: "pattern_law P" and "(voice_step P sha n repo blobs stamp True)\<^sup>*\<^sup>* c c'"
    and f: "all_formed inv binv stamp c" and "ordered abs babs c"
  shows "ordered abs babs c'"
  using assms(2,4)
proof (induction rule: rtranclp_induct)
  case (step y z)
  from voice_steps_formed [OF P step(1) f] step show ?case using voice_step_ordered by blast
qed

lemma idle_ordered:
  assumes "\<forall>t. finished (snd (vo_tasks c t))"
    and "\<forall>v. abs (fst (vo_stores c)) v \<noteq> None \<longrightarrow> babs (snd (vo_stores c)) v \<noteq> None"
  shows "ordered abs babs c"
  using assms by (auto simp: ordered_def works_on_def)

end

text \<open>A run is followed step by step.\<close>

lemma run_arrival:
  assumes "(voice_step P sha n repo blobs stamp excl)\<^sup>*\<^sup>* c0 c" "finished (snd (vo_tasks c t))" "stamp now"
    and "\<And>v t'. excl \<Longrightarrow> v \<in> job_targets P job \<Longrightarrow> \<not> works_on (vo_tasks c) t' v"
  obtains c' where "(voice_step P sha n repo blobs stamp excl)\<^sup>*\<^sup>* c0 c'" "vo_stores c' = vo_stores c"
    "vo_tasks c' = (vo_tasks c)(t := (job_targets P job, job_program P sha n now job))"
  using rtranclp.rtrancl_into_rtrancl [OF assms(1) voice_step.arrival [where stamp = stamp, OF assms(2-4)]] by (rule that) auto

lemma run_operation:
  assumes "(voice_step P sha n repo blobs stamp excl)\<^sup>*\<^sup>* c0 c" "vo_tasks c t = (w, p)" "\<not> finished p" "stamp now"
    and "program_step repo blobs now p (vo_stores c) = (p', st)"
  obtains c' where "(voice_step P sha n repo blobs stamp excl)\<^sup>*\<^sup>* c0 c'" "vo_stores c' = st" "vo_tasks c' = (vo_tasks c)(t := (w, p'))"
  using rtranclp.rtrancl_into_rtrancl [OF assms(1) voice_step.operation [where stamp = stamp, OF assms(2-5)]] by (rule that) auto

definition idle_voices :: "'s \<times> 'b \<Rightarrow> ('s, 'b) voices" where
  "idle_voices st = \<lparr>vo_tasks = \<lambda>_. ({}, Finish no_content), vo_stores = st\<rparr>"

subsection \<open>Runs over stores in memory\<close>

definition posted :: voice_record where
  "posted = new_record ''mario'' \<lparr>vp_transcript = ''ciao'', vp_language = ''it'', vp_consent = True, vp_number_lang = [],
     vp_target_db = Fin (- 20), vp_temperature = Fin (4 / 5), vp_top_p = Fin (19 / 20), vp_max_sentences = 2\<rparr>
     (JStr ''crud'') sample_time sample_time"

lemma posted_id [simp]: "vr_id posted = ''mario''"
  by (simp add: posted_def)

lemma mario_regex [simp]: "voice_id_regex ''mario''"
  using sample_voice_storable by (simp add: storable_def sample_voice_def)

lemmas memory_run = pg_metadata_repo_def pg_create_def pg_delete_def with_conn_def ensure_schema_def in_connection_def memory_pg_def
  run_sql_def then_do_def s3_blob_repo_def s3b_put_def s3b_exists_def s3b_delete_def with_bucket_def ensure_bucket_def memory_s3_def
  validate_voice_id_def unless_missing_def

lemma sample_time_utc: "utc_stamp sample_time"
  using sample_time_valid by (simp add: utc_stamp_def sample_time_def)

lemma memory_create: "m_create (pg_metadata_repo memory_pg) now posted (f, ([], [])) =
    (Inr posted, (True, ([(''mario'', row_of posted)], [(''mario'', row_of posted)])))"
  by (cases f) (simp_all add: memory_run)

lemma memory_delete: "m_delete (pg_metadata_repo memory_pg) now ''mario'' (f, ([(''mario'', row)], w)) = (Inr (), (True, ([], [])))"
  by (cases f) (simp_all add: memory_run)

lemma memory_put: "b_put (s3_blob_repo memory_s3 bucket) ''mario'' d (f, m) = (Inr (), (True, m(''mario.wav'' \<mapsto> d)))"
  by (cases f) (simp_all add: memory_run)

lemma memory_exists: "b_exists (s3_blob_repo memory_s3 bucket) ''mario'' (f, m) = (Inr (m ''mario.wav'' \<noteq> None), (True, m))"
  by (cases f) (simp_all add: memory_run)

lemma memory_blob_delete: "m ''mario.wav'' \<noteq> None \<Longrightarrow>
    b_delete (s3_blob_repo memory_s3 bucket) ''mario'' (f, m) = (Inr (), (True, m(''mario.wav'' := None)))"
  by (cases f) (simp_all add: memory_run)

lemma post_mario: "job_program strict_pydantic sha 10 sample_time (Request (CreateVoice (Inr sample_metadata) sample_upload)) =
    create_program strict_pydantic 10 sample_time (Inr sample_metadata) sample_upload"
  "job_targets strict_pydantic (Request (CreateVoice (Inr sample_metadata) sample_upload)) = {''mario''}"
  "\<exists>k j. create_program strict_pydantic 10 sample_time (Inr sample_metadata) sample_upload = Create posted k \<and>
    k (Inr posted) = PutBlob ''mario'' (ascii ''fLaC'') j \<and> j (Inr ()) = Finish (VoiceReply (record_to_response posted))"
  by (simp_all add: create_program_def sample_metadata_parses sample_read_audio posted_def)

text \<open>A post that runs its three steps in a row over an empty table.\<close>

lemma post_run:
  assumes run: "(voice_step strict_pydantic sha 10 (pg_metadata_repo memory_pg) (s3_blob_repo memory_s3 ''voices'') utc_stamp excl)\<^sup>*\<^sup>* c0 c"
      (is "?R\<^sup>*\<^sup>* c0 c")
    and t: "finished (snd (vo_tasks c t))" and free: "\<And>t'. excl \<Longrightarrow> \<not> works_on (vo_tasks c) t' ''mario''"
    and st: "vo_stores c = ((f, ([], [])), (g, m))"
  obtains c' where "?R\<^sup>*\<^sup>* c0 c'"
    "vo_stores c' = ((True, ([(''mario'', row_of posted)], [(''mario'', row_of posted)])), (True, m(''mario.wav'' \<mapsto> ascii ''fLaC'')))"
    "vo_tasks c' = (vo_tasks c)(t := ({''mario''}, Finish (VoiceReply (record_to_response posted))))"
proof -
  from post_mario(3) obtain k j where k: "create_program strict_pydantic 10 sample_time (Inr sample_metadata) sample_upload = Create posted k"
    "k (Inr posted) = PutBlob ''mario'' (ascii ''fLaC'') j" "j (Inr ()) = Finish (VoiceReply (record_to_response posted))" by blast
  obtain c1 where c1: "?R\<^sup>*\<^sup>* c0 c1" "vo_stores c1 = ((f, ([], [])), (g, m))"
    "vo_tasks c1 = (vo_tasks c)(t := ({''mario''}, Create posted k))"
    by (rule run_arrival [OF run t sample_time_utc, of "Request (CreateVoice (Inr sample_metadata) sample_upload)"])
      (use free st in \<open>auto simp only: post_mario(1,2) k(1)\<close>)
  obtain c2 where c2: "?R\<^sup>*\<^sup>* c0 c2" "vo_stores c2 = ((True, ([(''mario'', row_of posted)], [(''mario'', row_of posted)])), (g, m))"
    "vo_tasks c2 = (vo_tasks c)(t := ({''mario''}, PutBlob ''mario'' (ascii ''fLaC'') j))"
    by (rule run_operation [OF c1(1), of t, where now = sample_time]) (auto simp: c1 memory_create k sample_time_utc)
  show thesis
    by (rule run_operation [OF c2(1), of t, where now = sample_time]) (auto simp: c2 memory_put k sample_time_utc intro: that)
qed

text \<open>A deletion: its first part, and its second.\<close>

lemma delete_begins:
  assumes run: "(voice_step strict_pydantic sha 10 (pg_metadata_repo memory_pg) (s3_blob_repo memory_s3 bucket) utc_stamp False)\<^sup>*\<^sup>* c0 c"
      (is "?R\<^sup>*\<^sup>* c0 c")
    and t: "finished (snd (vo_tasks c t))" and st: "vo_stores c = ((f, ([(''mario'', row)], w)), bs)"
  obtains c' where "?R\<^sup>*\<^sup>* c0 c'" "vo_stores c' = ((True, ([], [])), bs)"
    "vo_tasks c' = (vo_tasks c)(t := ({''mario''}, ExistsBlob ''mario'' (delete_audio ''mario'')))"
proof -
  obtain k where k: "delete_program ''mario'' = Delete ''mario'' k" "k (Inr ()) = ExistsBlob ''mario'' (delete_audio ''mario'')"
    by (simp add: delete_program_def check_path_id_def validate_voice_id_def)
  obtain c1 where c1: "?R\<^sup>*\<^sup>* c0 c1" "vo_stores c1 = vo_stores c" "vo_tasks c1 = (vo_tasks c)(t := ({''mario''}, Delete ''mario'' k))"
    by (rule run_arrival [OF run t sample_time_utc, of "Request (DeleteVoice ''mario'')"]) (auto simp: k)
  show thesis
    by (rule run_operation [OF c1(1), of t, where now = sample_time]) (auto simp: c1 st memory_delete k sample_time_utc intro: that)
qed

lemma delete_ends:
  assumes run: "(voice_step strict_pydantic sha 10 (pg_metadata_repo memory_pg) (s3_blob_repo memory_s3 bucket) utc_stamp False)\<^sup>*\<^sup>* c0 c"
      (is "?R\<^sup>*\<^sup>* c0 c")
    and t: "vo_tasks c t = ({''mario''}, ExistsBlob ''mario'' (delete_audio ''mario''))"
    and st: "vo_stores c = (ms, (g, m))" and there: "m ''mario.wav'' \<noteq> None"
  obtains c' where "?R\<^sup>*\<^sup>* c0 c'" "vo_stores c' = (ms, (True, m(''mario.wav'' := None)))"
    "vo_tasks c' = (vo_tasks c)(t := ({''mario''}, Finish no_content))"
proof -
  obtain c1 where c1: "?R\<^sup>*\<^sup>* c0 c1" "vo_stores c1 = (ms, (True, m))"
    "vo_tasks c1 = (vo_tasks c)(t := ({''mario''}, DeleteBlob ''mario'' blob_deleted))"
    by (rule run_operation [OF run, of t, where now = sample_time]) (use there in \<open>auto simp: t st memory_exists sample_time_utc\<close>)
  show thesis
    by (rule run_operation [OF c1(1), of t, where now = sample_time])
      (use there in \<open>auto simp: c1 memory_blob_delete sample_time_utc intro: that\<close>)
qed

subsection \<open>What overlapping requests keep\<close>


text \<open>A voice posted to an empty store.\<close>

lemma idle_works: "finished (snd (vo_tasks (idle_voices st) t))" "\<not> works_on (vo_tasks (idle_voices st)) t v"
  "vo_stores (idle_voices st) = st"
  by (simp_all add: idle_voices_def works_on_def no_content_def)

lemma idle_tasks: "vo_tasks (idle_voices st) = (\<lambda>_. ({}, Finish no_content))"
  by (simp add: idle_voices_def)

lemma memory_delete_works:
  "pg_delete memory_pg now v (f, (t, w)) = (Inl e, st') \<Longrightarrow> voice_id_regex v \<Longrightarrow> map_of t v = None"
  by (cases f) (auto simp: memory_run split: if_splits)


subsection \<open>What they do not\<close>

text \<open>
  C38: nothing keeps two requests for one voice apart, and a \<open>DELETE\<close> that overlaps a \<open>POST\<close> loses its audio. The \<open>DELETE\<close>
  removes the row; a \<open>POST\<close> of the same id then finds the id free, stores its record and its audio and answers 201; the
  \<open>DELETE\<close> goes on, finds audio and removes it, and answers 204. No operation failed and nothing is left running, the record is
  stored and its audio is gone.
\<close>

theorem delete_create_race:
  "\<exists>c resp. (voice_step strict_pydantic sha 10 (pg_metadata_repo memory_pg) (s3_blob_repo memory_s3 ''voices'') utc_stamp False)\<^sup>*\<^sup>*
      (idle_voices ((False, ([], [])), (False, Map.empty))) c \<and> (\<forall>t. finished (snd (vo_tasks c t))) \<and>
     snd (vo_tasks c 0) = Finish no_content \<and> snd (vo_tasks c 1) = Finish (VoiceReply (Inr resp)) \<and>
     pg_abs (\<lambda>d. map_of (fst d)) (fst (vo_stores c)) ''mario'' \<noteq> None \<and> s3_abs id (snd (vo_stores c)) ''mario'' = None"
proof -
  let ?R = "voice_step strict_pydantic sha 10 (pg_metadata_repo memory_pg) (s3_blob_repo memory_s3 ''voices'') utc_stamp False"
    and ?tables = "([(''mario'', row_of posted)], [(''mario'', row_of posted)])" and ?m = "[''mario.wav'' \<mapsto> ascii ''fLaC'']"
  obtain resp where resp: "record_to_response posted = Inr resp"
    using record_to_response_ok [of posted] by (auto simp: posted_def new_record_def source_ok_def)
  let ?start = "idle_voices ((False, ([], [])), (False, Map.empty))" and ?done = "({''mario''}, Finish (VoiceReply (Inr resp)))"
  obtain c1 where c1: "?R\<^sup>*\<^sup>* ?start c1" "vo_stores c1 = ((True, ?tables), (True, ?m))"
    "vo_tasks c1 = (\<lambda>_. ({}, Finish no_content))(2 := ?done)"
    by (rule post_run [OF rtranclp.rtrancl_refl idle_works, where t = 2]) (simp_all add: idle_tasks resp)
  have "finished (snd (vo_tasks c1 0))" by (simp add: c1(3) no_content_def)
  from delete_begins [OF c1(1) this c1(2)] obtain c2 where c2: "?R\<^sup>*\<^sup>* ?start c2" "vo_stores c2 = ((True, ([], [])), (True, ?m))"
    "vo_tasks c2 = (vo_tasks c1)(0 := ({''mario''}, ExistsBlob ''mario'' (delete_audio ''mario'')))" .
  obtain c3 where c3: "?R\<^sup>*\<^sup>* ?start c3" "vo_stores c3 = ((True, ?tables), (True, ?m))" "vo_tasks c3 = (vo_tasks c2)(1 := ?done)"
    by (rule post_run [OF c2(1) _ _ c2(2), of 1]) (auto simp: c1(3) c2(3) no_content_def resp)
  have "vo_tasks c3 0 = ({''mario''}, ExistsBlob ''mario'' (delete_audio ''mario''))" by (simp add: c3(3) c2(3))
  from delete_ends [OF c3(1) this c3(2)] obtain c4 where c4: "?R\<^sup>*\<^sup>* ?start c4"
    "vo_stores c4 = ((True, ?tables), (True, ?m(''mario.wav'' := None)))"
    "vo_tasks c4 = (vo_tasks c3)(0 := ({''mario''}, Finish no_content))" by auto
  from c4(1) show ?thesis
    by (intro exI [of _ c4] exI [of _ resp] conjI) (simp_all add: c4(2,3) c3(3) c2(3) c1(3) no_content_def pg_abs_def s3_abs_def)
qed

text \<open>A pass over a seed file with the same voice.\<close>

definition seeded_mario :: parsed_seed_entry where
  "seeded_mario = \<lparr>se_voice_id = ''mario'', se_ref_audio_path = ''a.wav'', se_transcript = [], se_language = ''it'', se_number_lang = [],
     se_temperature = Fin (4 / 5), se_top_p = Fin (19 / 20), se_target_db = Fin (- 20), se_max_sentences = 2\<rparr>"

lemma seed_mario: "seed_entries wav_files (SeedJson (sample_seed ''mario'')) = Inr [seeded_mario]"
  by (simp add: sample_seed_def parse_and_validate_def validate_entry_def validate_voice_id_def get_default_def wav_files_def in_range_def
      audio_check_def strip_def strip_by_def is_space_def space_cp_def seeded_mario_def)

lemma memory_row_exists: "m_exists (pg_metadata_repo memory_pg) now ''mario'' (f, ([], w)) = (Inr False, (True, ([], [])))"
  by (cases f) (simp_all add: memory_run pg_exists_def)

lemma memory_create_again: "vr_id x = ''mario'' \<Longrightarrow>
    m_create (pg_metadata_repo memory_pg) now x (f, ([(''mario'', row)], w)) =
      (Inl (VoiceAlreadyExists ''mario''), (True, ([(''mario'', row)], [(''mario'', row)])))"
  by (cases f) (simp_all add: memory_run)

lemma posted_storable: "storable_at utc_stamp posted"
  by (simp add: posted_def new_record_storable source_ok_def sample_time_utc)

text \<open>
  C39: the ingestor can replace the audio of a voice that a client has just stored. The pass finds that the id of its entry is
  free; a \<open>POST\<close> of that id stores its record and its audio and answers 201; the pass writes its own audio, which needs no free
  id, and only then is refused the record. The stored record is the client's and the audio the seed file's.
\<close>

theorem seed_post_race:
  "\<exists>c resp. (voice_step strict_pydantic sha 10 (pg_metadata_repo memory_pg) (s3_blob_repo memory_s3 ''voices'') utc_stamp False)\<^sup>*\<^sup>*
      (idle_voices ((False, ([], [])), (False, Map.empty))) c \<and> (\<forall>t. finished (snd (vo_tasks c t))) \<and>
     snd (vo_tasks c 0) = Finish (SeedReply (Inl (VoiceAlreadyExists ''mario''))) \<and>
     snd (vo_tasks c 1) = Finish (VoiceReply (Inr resp)) \<and> record_to_response posted = Inr resp \<and>
     pg_abs (\<lambda>d. map_of (fst d)) (fst (vo_stores c)) ''mario'' = Some posted \<and>
     read_audio_validated sample_upload 10 = Inr (ascii ''fLaC'') \<and> s3_abs id (snd (vo_stores c)) ''mario'' = Some [1, 2, 3]"
proof -
  let ?R = "voice_step strict_pydantic sha 10 (pg_metadata_repo memory_pg) (s3_blob_repo memory_s3 ''voices'') utc_stamp False"
    and ?table = "[(''mario'', row_of posted)]"
  obtain resp where resp: "record_to_response posted = Inr resp"
    using record_to_response_ok [of posted] by (auto simp: posted_def new_record_def source_ok_def)
  let ?start = "idle_voices ((False, ([], [])), (False, Map.empty))" and ?done = "({''mario''}, Finish (VoiceReply (Inr resp)))"
  obtain k j l where k: "seed_program wav_files sample_time (SeedJson (sample_seed ''mario'')) = Exists ''mario'' k"
    "k (Inr False) = PutBlob ''mario'' [1, 2, 3] j" "j (Inr ()) = Create (seed_record seeded_mario sample_time) l"
    "l (Inl (VoiceAlreadyExists ''mario'')) = Finish (SeedReply (Inl (VoiceAlreadyExists ''mario'')))"
    unfolding seed_program_def seed_mario by (simp add: seeded_mario_def wav_files_def)
  have seed_id: "vr_id (seed_record seeded_mario sample_time) = ''mario''" by (simp add: seeded_mario_def)
  obtain c1 where c1: "?R\<^sup>*\<^sup>* ?start c1" "vo_stores c1 = ((False, ([], [])), (False, Map.empty))"
    "vo_tasks c1 = (\<lambda>_. ({}, Finish no_content))(0 := ({''mario''}, Exists ''mario'' k))"
    by (rule run_arrival [where stamp = utc_stamp and now = sample_time, OF rtranclp.rtrancl_refl idle_works(1) sample_time_utc, where t = 0
          and job = "SeedPass wav_files (SeedJson (sample_seed ''mario''))"])
      (auto simp: idle_works(3) idle_tasks k seed_mario simp del: seed_entries.simps, auto simp: seeded_mario_def)
  obtain c2 where c2: "?R\<^sup>*\<^sup>* ?start c2" "vo_stores c2 = ((True, ([], [])), (False, Map.empty))"
    "vo_tasks c2 = (\<lambda>_. ({}, Finish no_content))(0 := ({''mario''}, PutBlob ''mario'' [1, 2, 3] j))"
    by (rule run_operation [OF c1(1), of 0, where now = sample_time]) (auto simp: c1 memory_row_exists k sample_time_utc)
  obtain c3 where c3: "?R\<^sup>*\<^sup>* ?start c3" "vo_stores c3 = ((True, (?table, ?table)), (True, [''mario.wav'' \<mapsto> ascii ''fLaC'']))"
    "vo_tasks c3 = (vo_tasks c2)(1 := ?done)"
    by (rule post_run [OF c2(1) _ _ c2(2), of 1]) (auto simp: c2(3) no_content_def resp)
  obtain c4 where c4: "?R\<^sup>*\<^sup>* ?start c4" "vo_stores c4 = ((True, (?table, ?table)), (True, [''mario.wav'' \<mapsto> [1, 2, 3]]))"
    "vo_tasks c4 = (vo_tasks c3)(0 := ({''mario''}, Create (seed_record seeded_mario sample_time) l))"
    by (rule run_operation [OF c3(1), of 0, where now = sample_time]) (auto simp: c3 c2(3) memory_put k sample_time_utc)
  obtain c5 where c5: "?R\<^sup>*\<^sup>* ?start c5" "vo_stores c5 = ((True, (?table, ?table)), (True, [''mario.wav'' \<mapsto> [1, 2, 3]]))"
    "vo_tasks c5 = (vo_tasks c4)(0 := ({''mario''}, Finish (SeedReply (Inl (VoiceAlreadyExists ''mario'')))))"
    by (rule run_operation [OF c4(1), of 0, where now = sample_time])
      (auto simp: c4 memory_create_again [OF seed_id] k sample_time_utc)
  from c5(1) show ?thesis
    by (intro exI [of _ c5] exI [of _ resp] conjI)
      (simp_all add: c5(2,3) c4(3) c3(3) c2(3) no_content_def pg_abs_def s3_abs_def resp sample_read_audio stored_row(1) [OF posted_storable])
qed

end
