(* ===== verification/JsonWorkers.thy ===== *)
theory JsonWorkers
  imports FsMetadata
begin

text \<open>
  \<open>voice_store/fs_json_metadata.py\<close> under several processes. The lock of the repository makes an operation whole within its
  process; between processes nothing does. An operation is then two steps, the reading of the document and its replacement by
  \<open>os.replace\<close>, and the steps of the processes interleave. A process is a worker, with the write it is about to make.
\<close>

subsection \<open>An operation in two parts\<close>

text \<open>The reading part answers, or gives the records to write and the answer for when they are written.\<close>

definition change :: "stdlib \<Rightarrow> datetime \<Rightarrow> string \<Rightarrow> meta_fs \<Rightarrow>
    ((string \<times> voice_record) list \<Rightarrow> py_exc + (string \<times> voice_record) list \<times> meta_out) \<Rightarrow>
    meta_out res + (string \<times> voice_record) list \<times> meta_out" where
  "change L now v fs f = (case validate_voice_id v of
       Inl e \<Rightarrow> Inl (Inl e)
     | Inr _ \<Rightarrow> (case load_all L now fs of
         Inl e \<Rightarrow> Inl (Inl e)
       | Inr recs \<Rightarrow> (case f recs of Inl e \<Rightarrow> Inl (Inl e) | Inr w \<Rightarrow> Inr w)))"

fun read_part :: "stdlib \<Rightarrow> datetime \<Rightarrow> meta_cmd \<Rightarrow> meta_fs \<Rightarrow> meta_out res + (string \<times> voice_record) list \<times> meta_out" where
  "read_part L now MList fs = Inl (map_sum id (\<lambda>xs. ORecords (set xs)) (fst (fs_list L now fs)))"
| "read_part L now (MGet v) fs = Inl (map_sum id ORecord (fst (fs_get L now v fs)))"
| "read_part L now (MExists v) fs = Inl (map_sum id OBool (fst (fs_exists L now v fs)))"
| "read_part L now (MCreate x) fs = change L now (vr_id x) fs (\<lambda>recs.
     if map_of recs (vr_id x) \<noteq> None then Inl (VoiceAlreadyExists (vr_id x)) else Inr (AList.update (vr_id x) x recs, ORecord x))"
| "read_part L now (MUpdate x) fs = change L now (vr_id x) fs (\<lambda>recs.
     if map_of recs (vr_id x) = None then Inl (VoiceNotFound (vr_id x)) else Inr (AList.update (vr_id x) x recs, ORecord x))"
| "read_part L now (MDelete v) fs = change L now v fs (\<lambda>recs.
     if map_of recs v = None then Inl (VoiceNotFound v) else Inr (AList.delete v recs, OUnit))"

definition write_part :: "(string \<times> voice_record) list \<Rightarrow> meta_out \<Rightarrow> meta_fs \<Rightarrow> meta_out res \<times> meta_fs" where
  "write_part recs out fs = (case atomic_write recs fs of (r, fs') \<Rightarrow> (map_sum id (\<lambda>_. out) r, fs'))"

lemma parts_are_operation:
  "fs_exec L now c fs = (case read_part L now c fs of Inl r \<Rightarrow> (r, fs) | Inr (recs, out) \<Rightarrow> write_part recs out fs)"
  by (cases c) (auto simp: change_def write_part_def fs_metadata_repo_def fs_list_def fs_get_def fs_exists_def fs_create_def
      fs_update_def fs_delete_def validate_voice_id_def split: sum.split prod.split)

subsection \<open>Workers\<close>

datatype worker = Resting | Writing meta_cmd "(string \<times> voice_record) list" meta_out

record workers =
  wk_phase :: "nat \<Rightarrow> worker"
  wk_fs :: meta_fs
  wk_log :: "(meta_cmd \<times> meta_out res) list"

text \<open>With \<open>locked\<close>, no write begins while another worker has one to make, as a lock on the file would see to.\<close>

inductive worker_step :: "stdlib \<Rightarrow> bool \<Rightarrow> workers \<Rightarrow> workers \<Rightarrow> bool" for L locked where
  answer: "wk_phase s w = Resting \<Longrightarrow> cmd_ok c \<Longrightarrow> read_part L now c (wk_fs s) = Inl r \<Longrightarrow>
    worker_step L locked s (s\<lparr>wk_log := wk_log s @ [(c, r)]\<rparr>)"
| read: "wk_phase s w = Resting \<Longrightarrow> cmd_ok c \<Longrightarrow> (locked \<Longrightarrow> \<forall>u. wk_phase s u = Resting) \<Longrightarrow>
    read_part L now c (wk_fs s) = Inr (recs, out) \<Longrightarrow>
    worker_step L locked s (s\<lparr>wk_phase := (wk_phase s)(w := Writing c recs out)\<rparr>)"
| replace: "wk_phase s w = Writing c recs out \<Longrightarrow> write_part recs out (wk_fs s) = (r, fs') \<Longrightarrow>
    worker_step L locked s (s\<lparr>wk_phase := (wk_phase s)(w := Resting), wk_fs := fs', wk_log := wk_log s @ [(c, r)]\<rparr>)"

definition start_workers :: "meta_fs \<Rightarrow> workers" where
  "start_workers fs = \<lparr>wk_phase = \<lambda>_. Resting, wk_fs = fs, wk_log = []\<rparr>"

lemma start_workers_sel [simp]: "wk_phase (start_workers fs) = (\<lambda>_. Resting)" "wk_fs (start_workers fs) = fs" "wk_log (start_workers fs) = []"
  by (simp_all add: start_workers_def)

subsection \<open>What every interleaving keeps\<close>

text \<open>A reading part sees the document whole: its answer is the map's, and so is what it is about to write.\<close>

fun written_by :: "meta_cmd \<Rightarrow> voice_record set" where
  "written_by (MCreate x) = {x}"
| "written_by (MUpdate x) = {x}"
| "written_by _ = {}"

lemma change_Inr:
  assumes "change L now v fs f = Inr w" "meta_inv L fs"
  obtains recs where "all_storable recs" "meta_abs L fs = map_of recs" "f recs = Inr w"
  using assms by (elim meta_inv_obtain) (auto simp: change_def split: sum.splits)

lemma ran_delete: "ran (m(v := None)) \<subseteq> ran m"
  by (auto simp: ran_def)

lemma ran_update: "ran (m(v \<mapsto> x)) \<subseteq> ran m \<union> {x}"
  by (auto simp: ran_def)

lemma read_writes:
  assumes "read_part L now c fs = Inr (recs, out)" "meta_inv L fs" "cmd_ok c"
  shows "all_storable recs \<and> map_exec c (meta_abs L fs) = (Inr out, map_of recs) \<and>
    ran (map_of recs) \<subseteq> ran (meta_abs L fs) \<union> written_by c"
proof (cases c)
  case (MCreate x)
  with assms obtain al where "all_storable al" "meta_abs L fs = map_of al" "map_of al (vr_id x) = None"
      "recs = AList.update (vr_id x) x al" "out = ORecord x"
    by (auto elim!: change_Inr split: if_splits)
  with MCreate assms(3) show ?thesis using ran_update [of "map_of al"]
    by (auto simp: all_storable_update update_conv')
next
  case (MUpdate x)
  with assms obtain al where "all_storable al" "meta_abs L fs = map_of al" "map_of al (vr_id x) \<noteq> None"
      "recs = AList.update (vr_id x) x al" "out = ORecord x"
    by (auto elim!: change_Inr split: if_splits)
  with MUpdate assms(3) show ?thesis using ran_update [of "map_of al"]
    by (auto simp: all_storable_update update_conv')
next
  case (MDelete v)
  with assms obtain al where "all_storable al" "meta_abs L fs = map_of al" "map_of al v \<noteq> None"
      "recs = AList.delete v al" "out = OUnit"
    by (auto elim!: change_Inr split: if_splits)
  with MDelete show ?thesis using ran_delete [of "map_of al" v] by (auto simp: all_storable_delete delete_conv')
qed (use assms in auto)

lemma read_answers:
  assumes "read_part L now c fs = Inl r" "meta_inv L fs" "cmd_ok c"
  shows "map_exec c (meta_abs L fs) = (r, meta_abs L fs) \<or> (\<exists>m. r = Inl (OSErr m))"
proof -
  have "fs_exec L now c fs = (r, fs)" using assms(1) by (simp add: parts_are_operation)
  from fs_exec_step [OF assms(2,3) this] show ?thesis by auto
qed

lemma write_part_ok:
  assumes "all_storable recs" "write_part recs out fs = (r, fs')" "meta_inv L fs"
  shows "meta_inv L fs' \<and> (r = Inr out \<and> meta_abs L fs' = map_of recs \<or>
    (\<exists>m. r = Inl (OSErr m)) \<and> meta_abs L fs' = meta_abs L fs \<and> (\<forall>now. load_all L now fs' = load_all L now fs))"
proof -
  obtain r0 where w: "atomic_write recs fs = (r0, fs')" "r = map_sum id (\<lambda>_. out) r0"
    using assms(2) by (auto simp: write_part_def split: prod.splits)
  from meta_write_ok [OF assms(1) w(1) assms(3)] atomic_write_outcome [OF assms(1) w(1), of L] w(2) load_same_doc [of fs' fs L]
  show ?thesis by (cases r0) auto
qed

definition given :: "stdlib \<Rightarrow> meta_fs \<Rightarrow> (meta_cmd \<times> meta_out res) list \<Rightarrow> voice_record set" where
  "given L fs ans = ran (meta_abs L fs) \<union> {x. \<exists>c out. (c, Inr out) \<in> set ans \<and> x \<in> written_by c}"

lemma given_snoc: "given L fs (ans @ [(c, r)]) = given L fs ans \<union> (case r of Inr _ \<Rightarrow> written_by c | Inl _ \<Rightarrow> {})"
  by (auto simp: given_def split: sum.split)

definition sound_workers :: "stdlib \<Rightarrow> meta_fs \<Rightarrow> workers \<Rightarrow> bool" where
  "sound_workers L fs s \<longleftrightarrow> meta_inv L (wk_fs s) \<and> ran (meta_abs L (wk_fs s)) \<subseteq> given L fs (wk_log s) \<and>
     (\<forall>w c recs out. wk_phase s w = Writing c recs out \<longrightarrow>
        all_storable recs \<and> ran (map_of recs) \<subseteq> given L fs (wk_log s) \<union> written_by c)"

lemma sound_workersD:
  assumes "sound_workers L fs s"
  shows "meta_inv L (wk_fs s)" "ran (meta_abs L (wk_fs s)) \<subseteq> given L fs (wk_log s)"
    and "wk_phase s w = Writing c recs out \<Longrightarrow> all_storable recs"
    and "wk_phase s w = Writing c recs out \<Longrightarrow> ran (map_of recs) \<subseteq> given L fs (wk_log s) \<union> written_by c"
  using assms unfolding sound_workers_def by blast+

lemma worker_step_sound:
  assumes "worker_step L locked s s'" "sound_workers L fs s"
  shows "sound_workers L fs s'"
  using assms(1)
proof cases
  case (answer w c now r)
  have "given L fs (wk_log s) \<subseteq> given L fs (wk_log s @ [(c, r)])" by (simp add: given_snoc)
  then show ?thesis unfolding answer(1) sound_workers_def workers.simps
    using sound_workersD [OF assms(2)] by simp (meson order_trans Un_mono order_refl)
next
  case (read w c now recs out)
  note new = read_writes [OF read(5) sound_workersD(1) [OF assms(2)] read(3)]
  have "all_storable recs' \<and> ran (map_of recs') \<subseteq> given L fs (wk_log s) \<union> written_by c'"
    if "((wk_phase s)(w := Writing c recs out)) u = Writing c' recs' out'" for u c' recs' out'
  proof (cases "u = w")
    case True
    with that new sound_workersD(2) [OF assms(2)] show ?thesis by auto
  next
    case False
    with that sound_workersD(3,4) [OF assms(2)] show ?thesis by auto
  qed
  then show ?thesis unfolding read(1) sound_workers_def using sound_workersD(1,2) [OF assms(2)] by simp
next
  case (replace w c recs out r fs')
  note d = sound_workersD [OF assms(2)]
  note put = write_part_ok [OF d(3) [OF replace(2)] replace(3) d(1)]
  have "ran (meta_abs L fs') \<subseteq> given L fs (wk_log s @ [(c, r)])"
    using put d(2) d(4) [OF replace(2)] by (auto simp: given_snoc)
  moreover have "all_storable recs' \<and> ran (map_of recs') \<subseteq> given L fs (wk_log s @ [(c, r)]) \<union> written_by c'"
    if "((wk_phase s)(w := Resting)) u = Writing c' recs' out'" for u c' recs' out'
    using that d(3,4) [of u c' recs' out'] by (auto simp: given_snoc split: if_splits)
  ultimately show ?thesis unfolding replace(1) sound_workers_def using put by simp
qed

lemma workers_sound:
  assumes "(worker_step L locked)\<^sup>*\<^sup>* (start_workers fs) s" "meta_inv L fs"
  shows "sound_workers L fs s"
  using assms(1)
proof (induction rule: rtranclp_induct)
  case base
  show ?case using assms(2) by (auto simp: sound_workers_def given_def)
qed (blast intro: worker_step_sound)

subsection \<open>With a lock on the file\<close>

lemma map_run_snoc:
  "map_run cs m rs m1 \<Longrightarrow> map_exec c m1 = (r, m2) \<or> (\<exists>msg. r = Inl (OSErr msg)) \<and> m2 = m1 \<Longrightarrow> map_run (cs @ [c]) m (rs @ [r]) m2"
  by (induction rule: map_run.induct) (auto intro: map_run.intros)

definition in_order :: "stdlib \<Rightarrow> meta_fs \<Rightarrow> workers \<Rightarrow> bool" where
  "in_order L fs s \<longleftrightarrow> map_run (map fst (wk_log s)) (meta_abs L fs) (map snd (wk_log s)) (meta_abs L (wk_fs s)) \<and>
     (\<forall>w c recs out. wk_phase s w = Writing c recs out \<longrightarrow>
        map_exec c (meta_abs L (wk_fs s)) = (Inr out, map_of recs) \<and> (\<forall>u. u \<noteq> w \<longrightarrow> wk_phase s u = Resting))"

lemma in_orderD:
  assumes "in_order L fs s"
  shows "map_run (map fst (wk_log s)) (meta_abs L fs) (map snd (wk_log s)) (meta_abs L (wk_fs s))"
    and "wk_phase s w = Writing c recs out \<Longrightarrow> map_exec c (meta_abs L (wk_fs s)) = (Inr out, map_of recs)"
    and "wk_phase s w = Writing c recs out \<Longrightarrow> u \<noteq> w \<Longrightarrow> wk_phase s u = Resting"
  using assms unfolding in_order_def by blast+

lemma worker_step_ordered:
  assumes "worker_step L True s s'" "sound_workers L fs s" "in_order L fs s"
  shows "in_order L fs s'"
  using assms(1)
proof cases
  case (answer w c now r)
  from map_run_snoc [OF in_orderD(1) [OF assms(3)], of c r] read_answers [OF answer(4) sound_workersD(1) [OF assms(2)] answer(3)]
  show ?thesis unfolding answer(1) in_order_def using in_orderD [OF assms(3)] by auto
next
  case (read w c now recs out)
  from read_writes [OF read(5) sound_workersD(1) [OF assms(2)] read(3)]
  show ?thesis unfolding read(1) in_order_def using in_orderD(1) [OF assms(3)] read(4) by simp
next
  case (replace w c recs out r fs')
  note put = write_part_ok [OF sound_workersD(3) [OF assms(2) replace(2)] replace(3) sound_workersD(1) [OF assms(2)]]
  note o = in_orderD [OF assms(3)]
  have "map_run (map fst (wk_log s) @ [c]) (meta_abs L fs) (map snd (wk_log s) @ [r]) (meta_abs L fs')"
    using put o(2) [OF replace(2)] by (intro map_run_snoc [OF o(1)]) auto
  moreover have "((wk_phase s)(w := Resting)) u = Resting" for u using o(3) [OF replace(2)] by simp
  ultimately show ?thesis unfolding replace(1) in_order_def by simp
qed

text \<open>
  C13: every interleaving of the reads and writes of any number of processes leaves a document that is whole and sound, and
  every record in it was there at the start or is one that a process was told had been stored. If moreover no process begins a
  write while another is about to make one, the answers, in the order they are given, are those of a map.
\<close>

theorem workers_keep_document:
  assumes "meta_inv L fs" "(worker_step L locked)\<^sup>*\<^sup>* (start_workers fs) s"
  shows "meta_inv L (wk_fs s) \<and> ran (meta_abs L (wk_fs s)) \<subseteq> given L fs (wk_log s) \<and>
    (locked \<longrightarrow> map_run (map fst (wk_log s)) (meta_abs L fs) (map snd (wk_log s)) (meta_abs L (wk_fs s)))"
proof -
  have "in_order L fs s" if "(worker_step L True)\<^sup>*\<^sup>* (start_workers fs) s"
    using that
  proof (induction rule: rtranclp_induct)
    case base
    show ?case by (simp add: in_order_def map_run.finished)
  next
    case (step y z)
    from worker_step_ordered [OF step(2) workers_sound [OF step(1) assms(1)] step.IH] show ?case .
  qed
  with workers_sound [OF assms(2,1)] assms(2) show ?thesis by (cases locked) (auto dest: sound_workersD in_orderD)
qed

text \<open>The two steps of a creation, to follow a run.\<close>

lemma read_create:
  assumes "meta_inv L fs" "storable x" "meta_abs L fs (vr_id x) = None"
  obtains recs where "read_part L now (MCreate x) fs = Inr (recs, ORecord x)" "all_storable recs"
    "map_of recs = (meta_abs L fs)(vr_id x \<mapsto> x)"
  using assms(1)
proof (rule meta_inv_obtain)
  fix al assume al: "all_storable al" "meta_abs L fs = map_of al" "\<And>now. load_all L now fs = Inr al"
  have "voice_id_regex (vr_id x)" using assms(2) by (simp add: storable_def)
  with al assms show thesis
    by (intro that [of "AList.update (vr_id x) x al"]) (auto simp: change_def validate_voice_id_def all_storable_update update_conv')
qed

lemma write_faultless:
  assumes "all_storable recs" "mf_faults fs = []"
  obtains fs' where "write_part recs out fs = (Inr out, fs')" "mf_faults fs' = []" "meta_abs L fs' = map_of recs" "meta_inv L fs'"
proof -
  obtain r fs' where w: "atomic_write recs fs = (r, fs')" by fastforce
  from atomic_write_outcome [OF assms(1) w, of L] assms(2)
  have o: "r = Inr ()" "mf_faults fs' = []" "\<And>now. load_all L now fs' = Inr (sort_key fst recs)" by auto
  moreover have "meta_abs L fs' = map_of recs"
    using o(3) assms(1) by (simp add: meta_abs_load map_of_sort_key all_storable_def)
  moreover have "meta_inv L fs'" using o(3) all_storable_sort [OF assms(1)] by (auto simp: meta_inv_load)
  ultimately show thesis using w by (intro that [of fs']) (auto simp: write_part_def)
qed

lemma run_read:
  assumes "(worker_step L locked)\<^sup>*\<^sup>* s0 s" "wk_phase s w = Resting" "cmd_ok c" "locked \<Longrightarrow> \<forall>u. wk_phase s u = Resting"
    "read_part L now c (wk_fs s) = Inr (recs, out)"
  obtains s' where "(worker_step L locked)\<^sup>*\<^sup>* s0 s'" "wk_phase s' = (wk_phase s)(w := Writing c recs out)" "wk_fs s' = wk_fs s" "wk_log s' = wk_log s"
  using rtranclp.rtrancl_into_rtrancl [OF assms(1) worker_step.read [OF assms(2-5)]] by (rule that) simp_all

lemma run_replace:
  assumes "(worker_step L locked)\<^sup>*\<^sup>* s0 s" "wk_phase s w = Writing c recs out" "write_part recs out (wk_fs s) = (r, fs')"
  obtains s' where "(worker_step L locked)\<^sup>*\<^sup>* s0 s'" "wk_phase s' = (wk_phase s)(w := Resting)" "wk_fs s' = fs'" "wk_log s' = wk_log s @ [(c, r)]"
  using rtranclp.rtrancl_into_rtrancl [OF assms(1) worker_step.replace [OF assms(2-3)]] by (rule that) simp_all

subsection \<open>Without it\<close>

text \<open>
  C40: two processes can lose a voice. Over any sound document and with no failure of the disk, two processes that create
  different voices can both be told that theirs was stored, and only the second is.
\<close>

theorem workers_lose_update:
  assumes "meta_inv L fs" "mf_faults fs = []" "storable x" "storable y"
    and "vr_id x \<noteq> vr_id y" "meta_abs L fs (vr_id x) = None" "meta_abs L fs (vr_id y) = None"
  shows "\<exists>s. (worker_step L False)\<^sup>*\<^sup>* (start_workers fs) s \<and> wk_phase s = (\<lambda>_. Resting) \<and>
    wk_log s = [(MCreate x, Inr (ORecord x)), (MCreate y, Inr (ORecord y))] \<and>
    meta_abs L (wk_fs s) = (meta_abs L fs)(vr_id y \<mapsto> y) \<and> meta_abs L (wk_fs s) (vr_id x) = None"
proof -
  let ?R = "(worker_step L False)\<^sup>*\<^sup>* (start_workers fs)"
  obtain rx where rx: "read_part L sample_time (MCreate x) fs = Inr (rx, ORecord x)" "all_storable rx"
    using assms(1,3,6) by (rule read_create)
  obtain ry where ry: "read_part L sample_time (MCreate y) fs = Inr (ry, ORecord y)" "all_storable ry"
    "map_of ry = (meta_abs L fs)(vr_id y \<mapsto> y)" using assms(1,4,7) by (rule read_create)
  obtain s1 where s1: "?R s1" "wk_phase s1 = (\<lambda>_. Resting)(0 := Writing (MCreate x) rx (ORecord x))" "wk_fs s1 = fs" "wk_log s1 = []"
    by (rule run_read [OF rtranclp.rtrancl_refl, where s = "start_workers fs" and w = 0 and c = "MCreate x" and now = sample_time])
      (use assms(3) rx(1) in \<open>auto simp del: read_part.simps\<close>)
  obtain s2 where s2: "?R s2" "wk_phase s2 = (wk_phase s1)(1 := Writing (MCreate y) ry (ORecord y))" "wk_fs s2 = fs" "wk_log s2 = []"
    by (rule run_read [OF s1(1), where w = 1 and c = "MCreate y" and now = sample_time])
      (use assms(4) ry(1) s1 in \<open>auto simp del: read_part.simps\<close>)
  obtain fs3 where fs3: "write_part rx (ORecord x) fs = (Inr (ORecord x), fs3)" "mf_faults fs3 = []"
    using rx(2) assms(2) by (rule write_faultless)
  obtain s3 where s3: "?R s3" "wk_phase s3 = (wk_phase s2)(0 := Resting)" "wk_fs s3 = fs3" "wk_log s3 = [(MCreate x, Inr (ORecord x))]"
    by (rule run_replace [OF s2(1), of 0]) (use fs3 s1 s2 in auto)
  obtain fs4 where fs4: "write_part ry (ORecord y) fs3 = (Inr (ORecord y), fs4)" "meta_abs L fs4 = map_of ry"
    using ry(2) fs3(2) by (rule write_faultless)
  obtain s4 where s4: "?R s4" "wk_phase s4 = (wk_phase s3)(1 := Resting)" "wk_fs s4 = fs4"
      "wk_log s4 = wk_log s3 @ [(MCreate y, Inr (ORecord y))]"
    by (rule run_replace [OF s3(1), of 1]) (use fs4 s1 s2 s3 in auto)
  show ?thesis
    by (rule exI [of _ s4]) (use s4 s3(2,4) s2(2) s1(2) fs4(2) ry(3) assms(5,6) in \<open>auto simp: fun_eq_iff\<close>)
qed

definition other_voice :: voice_record where
  "other_voice = sample_voice\<lparr>vr_id := ''anna''\<rparr>"

lemma other_voice_ok: "storable other_voice" "vr_id other_voice = ''anna''" "vr_id sample_voice = ''mario''"
  by (simp_all add: other_voice_def storable_def sample_voice_def source_ok_def voice_id_regex_def id_core_def id_char_def is_digit_def)

definition fresh_fs :: "string \<Rightarrow> meta_fs" where
  "fresh_fs path = \<lparr>mf_path = path, mf_doc = Absent, mf_faults = [], mf_tmp = 0\<rparr>"

lemma fresh_fs_ok: "meta_inv L (fresh_fs p)" "mf_faults (fresh_fs p) = []" "meta_abs L (fresh_fs p) = Map.empty"
  by (simp_all add: fresh_fs_def meta_inv_def meta_abs_def load_all_def)

theorem workers_lose_update_witness:
  "\<exists>s. (worker_step sample_stdlib False)\<^sup>*\<^sup>* (start_workers (fresh_fs ''metadata.json'')) s \<and>
    wk_log s = [(MCreate sample_voice, Inr (ORecord sample_voice)), (MCreate other_voice, Inr (ORecord other_voice))] \<and>
    meta_abs sample_stdlib (wk_fs s) = [''anna'' \<mapsto> other_voice]"
  using workers_lose_update [OF fresh_fs_ok(1,2) sample_voice_storable other_voice_ok(1), of sample_stdlib "''metadata.json''"]
  by (auto simp: fresh_fs_ok other_voice_ok)

text \<open>One process, which stores a voice under the lock.\<close>

theorem workers_keep_document_witness:
  "\<exists>s. (worker_step sample_stdlib True)\<^sup>*\<^sup>* (start_workers (fresh_fs ''metadata.json'')) s \<and>
    wk_log s = [(MCreate sample_voice, Inr (ORecord sample_voice))] \<and> meta_inv sample_stdlib (wk_fs s) \<and>
    map_run [MCreate sample_voice] Map.empty [Inr (ORecord sample_voice)] (meta_abs sample_stdlib (wk_fs s))"
proof -
  let ?fs = "fresh_fs ''metadata.json''"
  obtain rx where rx: "read_part sample_stdlib sample_time (MCreate sample_voice) ?fs = Inr (rx, ORecord sample_voice)" "all_storable rx"
    by (rule read_create [OF fresh_fs_ok(1) sample_voice_storable]) (simp_all add: fresh_fs_ok)
  obtain s1 where s1: "(worker_step sample_stdlib True)\<^sup>*\<^sup>* (start_workers ?fs) s1"
      "wk_phase s1 = (\<lambda>_. Resting)(0 := Writing (MCreate sample_voice) rx (ORecord sample_voice))" "wk_fs s1 = ?fs" "wk_log s1 = []"
    by (rule run_read [OF rtranclp.rtrancl_refl, where s = "start_workers ?fs" and w = 0 and c = "MCreate sample_voice" and now = sample_time])
      (use rx(1) in \<open>auto simp del: read_part.simps\<close>)
  obtain fs2 where fs2: "write_part rx (ORecord sample_voice) ?fs = (Inr (ORecord sample_voice), fs2)"
    using rx(2) fresh_fs_ok(2) by (rule write_faultless)
  obtain s2 where s2: "(worker_step sample_stdlib True)\<^sup>*\<^sup>* (start_workers ?fs) s2" "wk_log s2 = [(MCreate sample_voice, Inr (ORecord sample_voice))]"
    by (rule run_replace [OF s1(1), of 0]) (use fs2 s1 in auto)
  from workers_keep_document [OF fresh_fs_ok(1) s2(1)] s2 show ?thesis by (auto simp: fresh_fs_ok)
qed

end
