(* ===== verification/ModelLifecycle.thy ===== *)
theory ModelLifecycle
  imports ModelCache "HOL-Library.Multiset"
begin

text \<open>
  What becomes of the models: \<open>services/model_cache.py\<close> and \<open>tts_providers/cached_model_provider.py\<close> under concurrent
  retrievals, with an account of every model that was loaded. It is in the cache, or with a call that is about to install it,
  or its unload callback was called, or it was loaded in vain because another thread had installed its key first.
\<close>

subsection \<open>Unload callbacks\<close>

text \<open>\<open>_unload_model\<close>: \<open>unload\<close> is what the attribute of that name does when it is there and callable.\<close>

definition unload_model :: "('m \<Rightarrow> ('g \<Rightarrow> unit res \<times> 'g) option) \<Rightarrow> 'm \<Rightarrow> 'g \<Rightarrow> unit res \<times> 'g" where
  "unload_model unload m g = (case unload m of
       None \<Rightarrow> (Inr (), g)
     | Some f \<Rightarrow> (case f g of (Inl e, g1) \<Rightarrow> (if is_exception e then Inr () else Inl e, g1) | (Inr _, g1) \<Rightarrow> (Inr (), g1)))"

text \<open>The callbacks that \<open>_install\<close> collected, run after it has released the lock.\<close>

fun run_unloads :: "('u \<Rightarrow> 'm \<Rightarrow> 'g \<Rightarrow> unit res \<times> 'g) \<Rightarrow> ('u \<times> 'm) list \<Rightarrow> 'g \<Rightarrow> unit res \<times> 'g" where
  "run_unloads call [] g = (Inr (), g)"
| "run_unloads call ((u, m) # us) g = (case call u m g of
       (Inl e, g1) \<Rightarrow> if is_exception e then run_unloads call us g1 else (Inl e, g1)
     | (Inr _, g1) \<Rightarrow> run_unloads call us g1)"

lemma run_unloads_all:
  "(\<And>u m g e g'. call u m g = (Inl e, g') \<Longrightarrow> is_exception e) \<Longrightarrow>
   run_unloads call us g = (Inr (), fold (\<lambda>(u, m) g. snd (call u m g)) us g)"
  by (induction us arbitrary: g) (auto split: prod.split sum.split)

subsection \<open>An account of the models\<close>

definition cached_models :: "('m, 'u) lru_cache \<Rightarrow> 'm multiset" where
  "cached_models c = mset (map (ce_model \<circ> snd) (lru_entries c))"

definition all_unload :: "('m, 'u) lru_cache \<Rightarrow> bool" where
  "all_unload c \<longleftrightarrow> (\<forall>(k, e)\<in>set (lru_entries c). ce_unloader e \<noteq> None)"

text \<open>A provider always gives its unload callback, so an entry that is evicted is handed to it.\<close>

lemma evict_split:
  "\<forall>(k, e)\<in>set es. ce_unloader e \<noteq> None \<Longrightarrow> evict n es = (es', us) \<Longrightarrow>
   mset (map (ce_model \<circ> snd) es) = mset (map (ce_model \<circ> snd) es') + mset (map snd us) \<and> set es' \<subseteq> set es"
proof (induction n es arbitrary: es' us rule: evict.induct)
  case (2 n k e es)
  obtain es1 us1 where r: "evict n es = (es1, us1)" by fastforce
  from "2.prems"(1) obtain u where u: "ce_unloader e = Some u" by auto
  show ?case
  proof (cases "n < length ((k, e) # es)")
    case True
    from "2.IH" [OF True _ r] "2.prems" True r u show ?thesis by auto
  next
    case False
    with "2.prems"(2) show ?thesis by auto
  qed
qed simp

lemma mset_delete:
  "distinct (map fst es) \<Longrightarrow> map_of es k = Some e \<Longrightarrow> add_mset (k, e) (mset (AList.delete k es)) = mset es"
proof (induction es)
  case (Cons x es)
  obtain k' e' where x: "x = (k', e')" by (cases x)
  show ?case
  proof (cases "k' = k")
    case True
    with Cons.prems x have "k \<notin> fst ` set es" by auto
    then have "AList.delete k es = es" by (simp only: AList.delete_eq filter_id_conv) force
    with True Cons.prems(2) x show ?thesis by simp
  next
    case False
    with Cons x show ?thesis by (simp add: add_mset_commute)
  qed
qed simp

lemma mset_move_to_end: "distinct (map fst es) \<Longrightarrow> mset (move_to_end k es) = mset es"
  by (cases "map_of es k") (simp_all add: move_to_end_def mset_delete)

lemma install_account:
  assumes "cache_inv c" "all_unload c" "install c k m (Some u) = (m', c', us)"
  shows "all_unload c' \<and> (if cache_contains c k then us = [] \<and> cached_models c' = cached_models c
    else add_mset m (cached_models c) = cached_models c' + mset (map snd us))"
proof (cases "map_of (lru_entries c) k")
  case None
  let ?es = "lru_entries c @ [(k, \<lparr>ce_model = m, ce_unloader = Some u\<rparr>)]"
  have "k \<notin> fst ` set (lru_entries c)" using None by (rule map_of_NoneD)
  then obtain es where ev: "evict (lru_max c) ?es = (es, us)" "c' = c\<lparr>lru_entries := es\<rparr>"
    using assms(3) None by (auto simp: install_def update_absent split: prod.splits)
  have "\<forall>(k, e)\<in>set ?es. ce_unloader e \<noteq> None" using assms(2) by (auto simp: all_unload_def)
  from evict_split [OF this ev(1)] this ev(2) None show ?thesis
    by (auto simp: all_unload_def cached_models_def cache_contains_def)
next
  case (Some e)
  have d: "distinct (map fst (lru_entries c))" using assms(1) by (simp add: cache_inv_def)
  from mset_move_to_end [OF d, of k] have "set (move_to_end k (lru_entries c)) = set (lru_entries c)"
    "mset (map (ce_model \<circ> snd) (move_to_end k (lru_entries c))) = mset (map (ce_model \<circ> snd) (lru_entries c))"
    by (metis mset_eq_setD, simp only: mset_map)
  with Some assms(2,3) show ?thesis by (auto simp: install_def all_unload_def cached_models_def cache_contains_def)
qed

text \<open>The models that calls hold between the two locked sections.\<close>

fun held :: "'m call_phase \<Rightarrow> 'm multiset" where
  "held (Loaded k m) = {#m#}"
| "held _ = {#}"

definition pending :: "(nat \<Rightarrow> 'm call_phase) \<Rightarrow> 'm multiset" where
  "pending calls = (\<Sum>t | held (calls t) \<noteq> {#}. held (calls t))"

lemma pending_update:
  assumes "finite {t. held (calls t) \<noteq> {#}}"
  shows "finite {t'. held ((calls(t := p)) t') \<noteq> {#}}" "pending (calls(t := p)) + held (calls t) = pending calls + held p"
proof -
  let ?A = "{t. held (calls t) \<noteq> {#}}" and ?B = "{t'. held ((calls(t := p)) t') \<noteq> {#}}"
  have "?B \<subseteq> insert t ?A" by auto
  then show B: "finite ?B" using assms by (simp add: finite_subset)
  have "pending calls = (\<Sum>t'\<in>insert t ?A. held (calls t'))"
    unfolding pending_def by (rule sum.mono_neutral_left) (use assms in auto)
  also have "\<dots> = held (calls t) + (\<Sum>t'\<in>?A - {t}. held (calls t'))"
    using assms by (simp add: sum.insert_remove)
  finally have old: "pending calls = held (calls t) + (\<Sum>t'\<in>?A - {t}. held (calls t'))" .
  have "pending (calls(t := p)) = (\<Sum>t'\<in>insert t (?A - {t}). held ((calls(t := p)) t'))"
    unfolding pending_def by (rule sum.mono_neutral_left) (use assms in auto)
  also have "\<dots> = held p + (\<Sum>t'\<in>?A - {t}. held ((calls(t := p)) t'))"
    using assms by (simp add: sum.insert_remove)
  also have "(\<Sum>t'\<in>?A - {t}. held ((calls(t := p)) t')) = (\<Sum>t'\<in>?A - {t}. held (calls t'))"
    by (rule sum.cong) auto
  finally show "pending (calls(t := p)) + held (calls t) = pending calls + held p"
    unfolding old by (simp add: ac_simps del: fun_upd_apply)
qed

text \<open>
  The steps of \<open>cache_step\<close> with their effect on the account: the models loaded, those handed to their unload
  callback, and those loaded in vain.
\<close>

record ('m, 'u) life =
  lf_sys :: "('m, 'u) cache_sys"
  lf_loaded :: "'m multiset"
  lf_unloaded :: "'m multiset"
  lf_vain :: "'m multiset"

inductive life_step :: "('m, 'u) life \<Rightarrow> ('m, 'u) life \<Rightarrow> bool" where
  hit: "cs_calls (lf_sys s) t = Idle \<Longrightarrow> try_hit (cs_cache (lf_sys s)) k = (Some m, c') \<Longrightarrow>
    life_step s (s\<lparr>lf_sys := set_call (lf_sys s) c' t (Returned k m)\<rparr>)"
| miss: "cs_calls (lf_sys s) t = Idle \<Longrightarrow> try_hit (cs_cache (lf_sys s)) k = (None, c') \<Longrightarrow>
    life_step s (s\<lparr>lf_sys := set_call (lf_sys s) c' t (Loading k)\<rparr>)"
| refuse: "cs_calls (lf_sys s) t = Loading k \<Longrightarrow>
    life_step s (s\<lparr>lf_sys := set_call (lf_sys s) (cs_cache (lf_sys s)) t (Failed k)\<rparr>)"
| loaded: "cs_calls (lf_sys s) t = Loading k \<Longrightarrow>
    life_step s (s\<lparr>lf_sys := set_call (lf_sys s) (cs_cache (lf_sys s)) t (Loaded k m), lf_loaded := add_mset m (lf_loaded s)\<rparr>)"
| install: "cs_calls (lf_sys s) t = Loaded k m \<Longrightarrow> install (cs_cache (lf_sys s)) k m (Some u) = (m', c', us) \<Longrightarrow>
    life_step s (s\<lparr>lf_sys := set_call (lf_sys s) c' t (Returned k m'), lf_unloaded := lf_unloaded s + mset (map snd us),
      lf_vain := lf_vain s + (if cache_contains (cs_cache (lf_sys s)) k then {#m#} else {#})\<rparr>)"
| again: "cs_calls (lf_sys s) t = Returned k m \<or> cs_calls (lf_sys s) t = Failed k \<Longrightarrow>
    life_step s (s\<lparr>lf_sys := set_call (lf_sys s) (cs_cache (lf_sys s)) t Idle\<rparr>)"

definition new_life :: "nat \<Rightarrow> ('m, 'u) life" where
  "new_life n = \<lparr>lf_sys = \<lparr>cs_cache = \<lparr>lru_max = n, lru_entries = []\<rparr>, cs_calls = (\<lambda>_. Idle)\<rparr>,
     lf_loaded = {#}, lf_unloaded = {#}, lf_vain = {#}\<rparr>"

lemma life_step_cache: "life_step s s' \<Longrightarrow> cache_step (lf_sys s) (lf_sys s')"
  by (induction rule: life_step.induct) (auto intro: cache_step.intros)

lemma life_reachable: "life_step\<^sup>*\<^sup>* (new_life n) s \<Longrightarrow> 1 \<le> n \<Longrightarrow> cache_reachable n (lf_sys s)"
  by (induction rule: rtranclp_induct) (auto simp: new_life_def intro: cache_reachable.intros life_step_cache)

definition balanced :: "('m, 'u) life \<Rightarrow> bool" where
  "balanced s \<longleftrightarrow> all_unload (cs_cache (lf_sys s)) \<and> finite {t. held (cs_calls (lf_sys s) t) \<noteq> {#}} \<and>
     lf_loaded s = cached_models (cs_cache (lf_sys s)) + pending (cs_calls (lf_sys s)) + lf_unloaded s + lf_vain s"

lemma try_hit_same:
  assumes "cache_inv c" "all_unload c" "try_hit c k = (r, c')"
  shows "all_unload c' \<and> cached_models c' = cached_models c"
proof (cases "map_of (lru_entries c) k")
  case None
  with assms(2,3) show ?thesis by (auto simp: try_hit_def)
next
  case (Some e)
  have d: "distinct (map fst (lru_entries c))" using assms(1) by (simp add: cache_inv_def)
  from mset_move_to_end [OF d, of k] have "set (move_to_end k (lru_entries c)) = set (lru_entries c)"
    "mset (map (ce_model \<circ> snd) (move_to_end k (lru_entries c))) = mset (map (ce_model \<circ> snd) (lru_entries c))"
    by (metis mset_eq_setD, simp only: mset_map)
  with Some assms(2,3) show ?thesis by (auto simp: try_hit_def all_unload_def cached_models_def)
qed

lemma balancedD:
  assumes "balanced s"
  shows "all_unload (cs_cache (lf_sys s))" "finite {t. held (cs_calls (lf_sys s) t) \<noteq> {#}}"
    and "lf_loaded s = cached_models (cs_cache (lf_sys s)) + pending (cs_calls (lf_sys s)) + lf_unloaded s + lf_vain s"
  using assms unfolding balanced_def by blast+

lemma life_step_balanced:
  assumes "life_step s s'" "cache_inv (cs_cache (lf_sys s))" "balanced s"
  shows "balanced s'"
proof -
  note b = balancedD [OF assms(3)]
  note p = pending_update [OF b(2)]
  show ?thesis using assms(1)
  proof cases
    case (hit t k m c')
    from try_hit_same [OF assms(2) b(1) hit(3)] p [of t "Returned k m"] b(3) hit(1,2)
    show ?thesis by (simp add: balanced_def del: fun_upd_apply)
  next
    case (miss t k c')
    from try_hit_same [OF assms(2) b(1) miss(3)] p [of t "Loading k"] b(3) miss(1,2)
    show ?thesis by (simp add: balanced_def del: fun_upd_apply)
  next
    case (refuse t k)
    from p [of t "Failed k"] b refuse show ?thesis by (simp add: balanced_def del: fun_upd_apply)
  next
    case (loaded t k m)
    from p [of t "Loaded k m"] b loaded show ?thesis by (simp add: balanced_def del: fun_upd_apply)
  next
    case (install t k m u m' c' us)
    let ?calls = "(cs_calls (lf_sys s))(t := Returned k m')"
    note a = install_account [OF assms(2) b(1) install(3)]
    have "pending (cs_calls (lf_sys s)) = add_mset m (pending ?calls)" using p(2) [of t "Returned k m'"] install(2) by simp
    then have "lf_loaded s = add_mset m (cached_models (cs_cache (lf_sys s))) + pending ?calls + lf_unloaded s + lf_vain s"
      using b(3) by simp
    then show ?thesis using a p(1) [of t "Returned k m'"] install(1)
      by (cases "cache_contains (cs_cache (lf_sys s)) k") (simp_all add: balanced_def ac_simps del: fun_upd_apply)
  next
    case (again t k m)
    from p [of t Idle] b again show ?thesis by (auto simp: balanced_def simp del: fun_upd_apply)
  qed
qed

lemma life_balanced: "life_step\<^sup>*\<^sup>* (new_life n) s \<Longrightarrow> 1 \<le> n \<Longrightarrow> balanced s"
proof (induction rule: rtranclp_induct)
  case base
  show ?case by (simp add: balanced_def new_life_def all_unload_def cached_models_def pending_def)
next
  case (step y z)
  from cache_reachable_inv [OF life_reachable [OF step(1,4)]] step show ?case by (blast intro: life_step_balanced)
qed

text \<open>
  C19: no model is lost or unloaded twice. Under every interleaving of concurrent retrievals from a cache of the provider, every
  model that was loaded is in the cache, or held by a call that is about to install it, or was handed to its unload callback, or was
  loaded in vain, because another call had installed its key first. If every load gives a new model, none is in two of these places: what is cached was not unloaded, and
  nothing is unloaded twice.
\<close>

theorem models_accounted:
  assumes "1 \<le> n" "life_step\<^sup>*\<^sup>* (new_life n) s"
  shows "lf_loaded s = cached_models (cs_cache (lf_sys s)) + pending (cs_calls (lf_sys s)) + lf_unloaded s + lf_vain s \<and>
    cache_len (cs_cache (lf_sys s)) \<le> n \<and>
    ((\<forall>m. count (lf_loaded s) m \<le> 1) \<longrightarrow> (\<forall>m\<in>#lf_unloaded s. count (lf_unloaded s) m = 1 \<and> m \<notin># cached_models (cs_cache (lf_sys s))))"
proof -
  note b = balancedD(3) [OF life_balanced [OF assms(2,1)]]
  have "count (lf_unloaded s) m = 1 \<and> m \<notin># cached_models (cs_cache (lf_sys s))"
    if "\<forall>m. count (lf_loaded s) m \<le> 1" "m \<in># lf_unloaded s" for m
  proof -
    have "count (cached_models (cs_cache (lf_sys s))) m + count (lf_unloaded s) m \<le> 1"
      using spec [OF that(1), of m] unfolding b by simp
    moreover have "0 < count (lf_unloaded s) m" using that(2) by (simp only: count_greater_zero_iff)
    ultimately show ?thesis unfolding not_in_iff by linarith
  qed
  with b cache_reachable_inv [OF life_reachable [OF assms(2,1)]] show ?thesis by (auto simp: cache_inv_def cache_len_def)
qed

definition used_and_unloaded :: "(nat, nat) life" where
  "used_and_unloaded = \<lparr>lf_sys = \<lparr>cs_cache = \<lparr>lru_max = 1, lru_entries = [((''p'', ''b''), \<lparr>ce_model = 8, ce_unloader = Some 0\<rparr>)]\<rparr>,
     cs_calls = (\<lambda>_. Idle)(0 := Returned (''p'', ''a'') 7, 1 := Returned (''p'', ''b'') 8)\<rparr>,
     lf_loaded = {#8, 7#}, lf_unloaded = {#7#}, lf_vain = {#}\<rparr>"

lemma used_and_unloaded_reachable: "life_step\<^sup>*\<^sup>* (new_life 1) used_and_unloaded"
proof -
  let ?a = "(''p'', ''a'')" and ?b = "(''p'', ''b'')"
  define s0 :: "(nat, nat) life" where "s0 = new_life 1"
  define c1 :: "(nat, nat) lru_cache" where "c1 = \<lparr>lru_max = 1, lru_entries = [(?a, \<lparr>ce_model = 7, ce_unloader = Some 0\<rparr>)]\<rparr>"
  define s1 where "s1 = s0\<lparr>lf_sys := set_call (lf_sys s0) (cs_cache (lf_sys s0)) 0 (Loading ?a)\<rparr>"
  define s2 where "s2 = s1\<lparr>lf_sys := set_call (lf_sys s1) (cs_cache (lf_sys s1)) 0 (Loaded ?a 7), lf_loaded := add_mset 7 (lf_loaded s1)\<rparr>"
  define s3 where "s3 = s2\<lparr>lf_sys := set_call (lf_sys s2) c1 0 (Returned ?a 7)\<rparr>"
  define s4 where "s4 = s3\<lparr>lf_sys := set_call (lf_sys s3) (cs_cache (lf_sys s3)) 1 (Loading ?b)\<rparr>"
  define s5 where "s5 = s4\<lparr>lf_sys := set_call (lf_sys s4) (cs_cache (lf_sys s4)) 1 (Loaded ?b 8), lf_loaded := add_mset 8 (lf_loaded s4)\<rparr>"
  note d = s0_def s1_def s2_def s3_def s4_def s5_def c1_def new_life_def
  have "life_step s0 s1" unfolding s1_def by (rule life_step.miss) (simp_all add: d try_hit_def)
  moreover have "life_step s1 s2" unfolding s2_def by (rule life_step.loaded) (simp add: d)
  moreover have "life_step s2 s3"
    using life_step.install [of s2 0 ?a 7 0 7 c1 "[]"] by (simp add: d install_def cache_contains_def set_call_def)
  moreover have "life_step s3 s4" unfolding s4_def by (rule life_step.miss) (simp_all add: d try_hit_def)
  moreover have "life_step s4 s5" unfolding s5_def by (rule life_step.loaded) (simp add: d)
  moreover have "life_step s5 used_and_unloaded"
    using life_step.install [of s5 1 ?b 8 0 8 "cs_cache (lf_sys used_and_unloaded)" "[(0, 7)]"]
    by (simp add: d install_def cache_contains_def set_call_def used_and_unloaded_def)
  ultimately show ?thesis unfolding s0_def [symmetric] by (meson converse_rtranclp_into_rtranclp rtranclp.rtrancl_refl)
qed

text \<open>
  A model can be unloaded while a request uses it: over a cache of one model, a call was given its model and has not finished with it
  when another call loads a model for another key, which evicts the first one and has it unloaded.
\<close>

theorem unload_while_in_use:
  "\<exists>s :: (nat, nat) life. life_step\<^sup>*\<^sup>* (new_life 1) s \<and> cs_calls (lf_sys s) 0 = Returned (''p'', ''a'') 7 \<and> 7 \<in># lf_unloaded s"
proof (intro exI conjI)
  show "life_step\<^sup>*\<^sup>* (new_life 1) used_and_unloaded" by (rule used_and_unloaded_reachable)
qed (simp_all add: used_and_unloaded_def)

theorem models_accounted_witness:
  "cache_len (cs_cache (lf_sys used_and_unloaded)) \<le> 1 \<and> count (lf_unloaded used_and_unloaded) 7 = 1 \<and>
   7 \<notin># cached_models (cs_cache (lf_sys used_and_unloaded))"
proof -
  note acc = models_accounted [OF order_refl used_and_unloaded_reachable]
  have "\<forall>m. count (lf_loaded used_and_unloaded) m \<le> 1" "7 \<in># lf_unloaded used_and_unloaded"
    by (simp_all add: used_and_unloaded_def)
  with acc show ?thesis by blast
qed

end
